theory Spec2Isabelle
  imports Main "HOL-Library.Word" "HOL-Library.AList"
begin

section \<open>The mirror kernel of the consensus engine\<close>

text \<open>
  A shallow embedding of the ingest half of the mirror kernel
  (\<^verbatim>\<open>tm/tmengine/internal/tmmirror/internal/tmi/kernel.go\<close>) and of the round views it
  works on (\<^verbatim>\<open>tmconsensus.RoundView\<close>, \<^verbatim>\<open>tmconsensus.VersionedRoundView\<close>).

  Conventions.
  \<^item> \<^verbatim>\<open>uint64\<close> heights and vote powers are \<open>64 word\<close>, \<^verbatim>\<open>uint32\<close> rounds and versions
    are \<open>32 word\<close>; \<open>+\<close> wraps as in Go.
  \<^item> A block hash or a signature is a byte string; \<^verbatim>\<open>string(pb.Block.Hash)\<close> is the identity.
  \<^item> A Go map that the kernel ranges over, or whose nil-ness it depends on, is an optional
    association list: \<open>None\<close> is the nil map, \<open>Some al\<close> an allocated map whose entries
    are \<open>al\<close>. The order of \<open>al\<close> is the order in which a \<^verbatim>\<open>range\<close> visits the map;
    Go leaves that order open, and the theorems hold for every order.
  \<^item> The version maps and \<^verbatim>\<open>InFlightFetchPBs\<close> are only read, written and cleared by key.
    A read of a nil map and of an empty map agree in Go, every write to a version map is
    preceded by the allocation of a nil map, and \<^verbatim>\<open>InFlightFetchPBs\<close> is allocated when the
    kernel is built; they are partial functions.
  \<^item> A panic is a value \<open>Inl (Panic msg)\<close>; a returned Go \<^verbatim>\<open>error\<close> is a \<open>string option\<close>.
  \<^item> The proof type \<open>'p\<close>, the validator type \<open>'v\<close>, the sparse signature list \<open>'s\<close> and
    the state machine view \<open>'m\<close> are opaque to the kernel and stay type variables.
\<close>

subsection \<open>Go maps and panics\<close>

datatype Panic = Panic string

type_synonym 'a gomap = "(string \<times> 'a) list option"

definition map_get :: "'a gomap \<Rightarrow> string \<Rightarrow> 'a option" where
  "map_get m k = (case m of None \<Rightarrow> None | Some al \<Rightarrow> map_of al k)"

definition map_len :: "'a gomap \<Rightarrow> nat" where
  "map_len m = (case m of None \<Rightarrow> 0 | Some al \<Rightarrow> length al)"

definition map_keys :: "'a gomap \<Rightarrow> string list" where
  "map_keys m = (case m of None \<Rightarrow> [] | Some al \<Rightarrow> map fst al)"

text \<open>\<^verbatim>\<open>clear(m)\<close>: deletes every entry; a nil map stays nil.\<close>

definition map_clear :: "'a gomap \<Rightarrow> 'a gomap" where
  "map_clear m = (case m of None \<Rightarrow> None | Some al \<Rightarrow> Some [])"

text \<open>\<^verbatim>\<open>m[k] = v\<close>: panics on a nil map.\<close>

definition map_put :: "'a gomap \<Rightarrow> string \<Rightarrow> 'a \<Rightarrow> Panic + 'a gomap" where
  "map_put m k v =
     (case m of
        None \<Rightarrow> Inl (Panic ''assignment to entry in nil map'')
      | Some al \<Rightarrow> Inr (Some (AList.update k v al)))"

text \<open>A well-formed Go map holds each key once.\<close>

definition map_wf :: "'a gomap \<Rightarrow> bool" where
  "map_wf m = distinct (map_keys m)"

subsection \<open>Round views (\<^verbatim>\<open>tmconsensus\<close>)\<close>

record VoteSummary =
  AvailablePower :: "64 word"
  TotalPrevotePower :: "64 word"
  TotalPrecommitPower :: "64 word"
  PrevoteBlockPower :: "string \<rightharpoonup> 64 word"
  PrecommitBlockPower :: "string \<rightharpoonup> 64 word"
  MostVotedPrevoteHash :: string
  MostVotedPrecommitHash :: string

record 's CommitProof =
  CP_Round :: "32 word"
  PubKeyHash :: string
  Proofs :: "(string \<times> 's) list"

record ('v, 's) Block =
  Hash :: string
  Block_Height :: "64 word"
  PrevBlockHash :: string
  PrevCommitProof :: "'s CommitProof"
  Block_Validators :: "'v list"
  NextValidators :: "'v list"

record ('v, 's) ProposedBlock =
  PB_Block :: "('v, 's) Block"
  PB_Round :: "32 word"
  Signature :: string

record ('p, 'v, 's) RoundView =
  Height :: "64 word"
  Round :: "32 word"
  Validators :: "'v list"
  ValidatorPubKeyHash :: string
  ValidatorVotePowerHash :: string
  ProposedBlocks :: "('v, 's) ProposedBlock list"
  PrevoteProofs :: "'p gomap"
  PrecommitProofs :: "'p gomap"
  VoteSummary :: VoteSummary

text \<open>Go embeds \<^verbatim>\<open>RoundView\<close> in \<^verbatim>\<open>VersionedRoundView\<close>; the record extends it.\<close>

record ('p, 'v, 's) VersionedRoundView = "('p, 'v, 's) RoundView" +
  Version :: "32 word"
  PrevoteVersion :: "32 word"
  PrecommitVersion :: "32 word"
  PrevoteBlockVersions :: "string \<rightharpoonup> 32 word"
  PrecommitBlockVersions :: "string \<rightharpoonup> 32 word"

text \<open>
  \<^verbatim>\<open>RoundView.ResetForSameHeight\<close>. The method of the vote summary that it calls last,
  \<^verbatim>\<open>VoteSummary.ResetForSameHeight\<close>, is not part of the sources at hand and is the
  parameter \<open>vsr\<close>. The function is written for every extension of the record, because Go
  calls it on the embedded view of a versioned round view, too.
\<close>

definition RoundView_ResetForSameHeight ::
  "(VoteSummary \<Rightarrow> VoteSummary) \<Rightarrow> ('p, 'v, 's, 'z) RoundView_scheme
     \<Rightarrow> ('p, 'v, 's, 'z) RoundView_scheme" where
  "RoundView_ResetForSameHeight vsr v =
     v\<lparr>Round := 0,
       ProposedBlocks := [],
       PrevoteProofs := map_clear (PrevoteProofs v),
       PrecommitProofs := map_clear (PrecommitProofs v),
       VoteSummary := vsr (VoteSummary v)\<rparr>"

text \<open>\<^verbatim>\<open>RoundView.Reset\<close>; \<open>vsr\<close> and \<open>vsz\<close> are the two reset methods of the vote summary.\<close>

definition RoundView_Reset ::
  "(VoteSummary \<Rightarrow> VoteSummary) \<Rightarrow> (VoteSummary \<Rightarrow> VoteSummary)
     \<Rightarrow> ('p, 'v, 's, 'z) RoundView_scheme \<Rightarrow> ('p, 'v, 's, 'z) RoundView_scheme" where
  "RoundView_Reset vsr vsz v =
     (let v1 = v\<lparr>Height := 0, Validators := [],
                 ValidatorPubKeyHash := [], ValidatorVotePowerHash := []\<rparr>;
          v2 = RoundView_ResetForSameHeight vsr v1
      in v2\<lparr>VoteSummary := vsz (VoteSummary v2)\<rparr>)"

definition resetVersions ::
  "('p, 'v, 's) VersionedRoundView \<Rightarrow> ('p, 'v, 's) VersionedRoundView" where
  "resetVersions v =
     v\<lparr>Version := 0, PrevoteVersion := 0, PrecommitVersion := 0,
       PrevoteBlockVersions := Map.empty, PrecommitBlockVersions := Map.empty\<rparr>"

definition VersionedRoundView_ResetForSameHeight ::
  "(VoteSummary \<Rightarrow> VoteSummary) \<Rightarrow> ('p, 'v, 's) VersionedRoundView
     \<Rightarrow> ('p, 'v, 's) VersionedRoundView" where
  "VersionedRoundView_ResetForSameHeight vsr v =
     resetVersions (RoundView_ResetForSameHeight vsr v)"

definition VersionedRoundView_Reset ::
  "(VoteSummary \<Rightarrow> VoteSummary) \<Rightarrow> (VoteSummary \<Rightarrow> VoteSummary)
     \<Rightarrow> ('p, 'v, 's) VersionedRoundView \<Rightarrow> ('p, 'v, 's) VersionedRoundView" where
  "VersionedRoundView_Reset vsr vsz v = resetVersions (RoundView_Reset vsr vsz v)"

text \<open>
  \<^verbatim>\<open>RoundView.Clone\<close> copies a proof map only when it has an entry, so the clone of an
  allocated but empty map is the nil map. Proofs, slices and the vote summary are values
  here, and their clones are themselves.
\<close>

definition clone_proofs :: "'p gomap \<Rightarrow> 'p gomap" where
  "clone_proofs m =
     (case m of None \<Rightarrow> None | Some al \<Rightarrow> if length al > 0 then Some al else None)"

definition RoundView_Clone ::
  "('p, 'v, 's, 'z) RoundView_scheme \<Rightarrow> ('p, 'v, 's, 'z) RoundView_scheme" where
  "RoundView_Clone v =
     v\<lparr>PrevoteProofs := clone_proofs (PrevoteProofs v),
       PrecommitProofs := clone_proofs (PrecommitProofs v)\<rparr>"

definition VersionedRoundView_Clone ::
  "('p, 'v, 's) VersionedRoundView \<Rightarrow> ('p, 'v, 's) VersionedRoundView" where
  "VersionedRoundView_Clone v = RoundView_Clone v"

subsection \<open>Kernel state (\<^verbatim>\<open>tmi\<close>)\<close>

text \<open>
  The declarations of \<^verbatim>\<open>View\<close>, \<^verbatim>\<open>OutgoingView\<close>, \<^verbatim>\<open>kState\<close>, \<^verbatim>\<open>ViewID\<close> and
  \<^verbatim>\<open>ViewLookupStatus\<close> are not part of the sources at hand. The records below hold the
  fields that \<^verbatim>\<open>kernel.go\<close> reads and writes; the outgoing view is the cached view and
  its sent flag.
\<close>

record ('p, 'v, 's) OutgoingView =
  Out_VRV :: "('p, 'v, 's) VersionedRoundView"
  sent :: bool

record ('p, 'v, 's) View =
  VRV :: "('p, 'v, 's) VersionedRoundView"
  Outgoing :: "('p, 'v, 's) OutgoingView"

text \<open>
  The cancel function that \<^verbatim>\<open>context.WithCancel\<close> returns for the context of one fetch
  request, named by the height and the hash of that request.
\<close>

datatype CancelFunc = CancelFunc "64 word" string

record ('p, 'v, 's, 'm) kState =
  Committing :: "('p, 'v, 's) View"
  Voting :: "('p, 'v, 's) View"
  NextRound :: "('p, 'v, 's) View"
  CommittingBlock :: "('v, 's) Block"
  InFlightFetchPBs :: "string \<rightharpoonup> CancelFunc"
  StateMachineView :: 'm
  NilVotedRound :: "('p, 'v, 's) VersionedRoundView option"

datatype ViewID = ViewIDVoting | ViewIDCommitting | ViewIDNextRound | ViewIDOther nat

datatype ViewLookupStatus =
  ViewFound | ViewBeforeCommitting | ViewWrongCommit | ViewOrphaned | ViewFutureNotYetTracked

text \<open>
  \<^verbatim>\<open>FindView\<close> returns a pointer to a view of the state, or nil. The pointer is the name
  of the field it points to.
\<close>

datatype ViewRef = RefCommitting | RefVoting | RefNextRound

fun get_view :: "ViewRef \<Rightarrow> ('p, 'v, 's, 'm) kState \<Rightarrow> ('p, 'v, 's) View" where
  "get_view RefCommitting s = Committing s"
| "get_view RefVoting s = Voting s"
| "get_view RefNextRound s = NextRound s"

fun set_view ::
  "ViewRef \<Rightarrow> ('p, 'v, 's) View \<Rightarrow> ('p, 'v, 's, 'm) kState \<Rightarrow> ('p, 'v, 's, 'm) kState" where
  "set_view RefCommitting v s = s\<lparr>Committing := v\<rparr>"
| "set_view RefVoting v s = s\<lparr>Voting := v\<rparr>"
| "set_view RefNextRound v s = s\<lparr>NextRound := v\<rparr>"

subsection \<open>Requests, results and effects\<close>

datatype AddVoteResult = AddVoteAccepted | AddVoteConflict | AddVoteOutOfDate

record 'p VoteUpdate =
  Proof :: 'p
  PrevVersion :: "32 word"

text \<open>
  The response channel of a request is \<open>None\<close> when it is nil and \<open>Some c\<close> for the
  one-buffered channel \<open>c\<close>.
\<close>

record 'p AddPrevoteRequest =
  PV_H :: "64 word"
  PV_R :: "32 word"
  PrevoteUpdates :: "(string \<times> 'p VoteUpdate) list"
  PV_Response :: "nat option"

record 'p AddPrecommitRequest =
  PC_H :: "64 word"
  PC_R :: "32 word"
  PrecommitUpdates :: "(string \<times> 'p VoteUpdate) list"
  PC_Response :: "nat option"

record ('v, 's) CommittedBlock =
  CB_Block :: "('v, 's) Block"
  CB_Proof :: "'s CommitProof"

record ScopedSignature =
  TargetHash :: string
  SignContent :: string
  Sig :: string

record ('v, 's) StateMachineRoundAction =
  Act_PB :: "('v, 's) ProposedBlock"
  Act_Prevote :: ScopedSignature
  Act_Precommit :: ScopedSignature

text \<open>
  What the kernel does to the world outside its state, in the order in which it does it:
  replies on response channels, log entries (the message), calls of the round store and
  the block store, sends on the channel of fetch requests, and calls of cancel functions.
\<close>

datatype ('p, 'v, 's) Event =
    Reply nat AddVoteResult
  | LogInfo string
  | LogWarn string
  | LogError string
  | SaveProposedBlock "('v, 's) ProposedBlock"
  | OverwritePrevoteProofs "64 word" "32 word" "'p gomap"
  | OverwritePrecommitProofs "64 word" "32 word" "'p gomap"
  | SaveBlock "('v, 's) CommittedBlock"
  | FetchRequest "64 word" string
  | Cancelled CancelFunc

record ('p, 'v, 's, 'm) World =
  KS :: "('p, 'v, 's, 'm) kState"
  Effects :: "('p, 'v, 's) Event list"

definition emit ::
  "('p, 'v, 's) Event \<Rightarrow> ('p, 'v, 's, 'm) World \<Rightarrow> ('p, 'v, 's, 'm) World" where
  "emit e w = w\<lparr>Effects := Effects w @ [e]\<rparr>"

text \<open>\<^verbatim>\<open>if req.Response != nil { req.Response <- res }\<close>\<close>

definition respond ::
  "nat option \<Rightarrow> AddVoteResult \<Rightarrow> ('p, 'v, 's, 'm) World \<Rightarrow> ('p, 'v, 's, 'm) World" where
  "respond ch res w = (case ch of None \<Rightarrow> w | Some c \<Rightarrow> emit (Reply c res) w)"

text \<open>The store calls log a warning when the store returns an error, and go on.\<close>

definition warn_on ::
  "string option \<Rightarrow> string \<Rightarrow> ('p, 'v, 's, 'm) World \<Rightarrow> ('p, 'v, 's, 'm) World" where
  "warn_on err msg w = (case err of None \<Rightarrow> w | Some e \<Rightarrow> emit (LogWarn msg) w)"

subsection \<open>Collaborators of the kernel\<close>

record VoteDistribution =
  AvailableVotePower :: "64 word"
  BlockVotePower :: "string \<rightharpoonup> 64 word"

text \<open>
  The non-blocking \<^verbatim>\<open>select\<close> in \<^verbatim>\<open>checkMissingPBs\<close> takes one of three ways: the
  context is done, the request is sent, or the channel is full (\<^verbatim>\<open>default\<close>).
\<close>

datatype SelectOutcome = CtxDone | RequestSent | ChannelFull

text \<open>
  The kernel works through its stores and schemes, and through methods of the state, of a
  view and of the vote summary whose code is not part of the sources at hand. All of them
  are fields of this record, so that every theorem holds whatever they compute:
  \<^item> \<open>initialHeight\<close>: the field of that name.
  \<^item> \<open>FindView\<close>: \<^verbatim>\<open>(*kState).FindView\<close> (pointer, view ID, status).
  \<^item> \<open>UpdateOutgoing\<close>: \<^verbatim>\<open>(*View).UpdateOutgoing\<close>.
  \<^item> \<open>SetPrevotePowers\<close>, \<open>SetPrecommitPowers\<close>, \<open>SetAvailablePower\<close>, \<open>NewVoteSummary\<close>,
    \<open>VoteSummary_ResetForSameHeight\<close>, \<open>VoteSummary_Reset\<close>: the vote summary.
  \<^item> \<open>newVoteDistribution\<close>: the vote distribution of a proof map over validators.
  \<^item> \<open>MergeSparse\<close>: the merged proof and \<^verbatim>\<open>IncreasedSignatures\<close>.
  \<^item> \<open>PrevoteSignBytes\<close>, \<open>PrecommitSignBytes\<close> (height, round, block hash),
    \<open>ValidatorsToPubKeys\<close>, \<open>HashPubKeys\<close> (\<^verbatim>\<open>hashScheme.PubKeys\<close>), \<open>cmspNew\<close>
    (\<^verbatim>\<open>cmspScheme.New\<close>), \<open>AddSignature\<close>: signing and proofs; \<open>Inl\<close> is the error.
  \<^item> \<open>rStore_SaveProposedBlock\<close>, \<open>rStore_OverwritePrevoteProofs\<close>,
    \<open>rStore_OverwritePrecommitProofs\<close>, \<open>bStore_SaveBlock\<close>: the error a store call returns.
  \<^item> \<open>smH\<close>, \<open>smR\<close>, \<open>smPubKey\<close>, \<open>smForceSend\<close>: the state machine view.
  \<^item> \<open>FetchRequests_select\<close>: the way the \<^verbatim>\<open>select\<close> takes for a fetch request
    (height, hash).
\<close>

record ('p, 'v, 's, 'm) Kernel =
  initialHeight :: "64 word"
  FindView :: "('p, 'v, 's, 'm) kState \<Rightarrow> 64 word \<Rightarrow> 32 word
                 \<Rightarrow> ViewRef option \<times> ViewID \<times> ViewLookupStatus"
  UpdateOutgoing :: "('p, 'v, 's) View \<Rightarrow> ('p, 'v, 's) View"
  SetPrevotePowers :: "VoteSummary \<Rightarrow> 'v list \<Rightarrow> 'p gomap \<Rightarrow> VoteSummary"
  SetPrecommitPowers :: "VoteSummary \<Rightarrow> 'v list \<Rightarrow> 'p gomap \<Rightarrow> VoteSummary"
  SetAvailablePower :: "VoteSummary \<Rightarrow> 'v list \<Rightarrow> VoteSummary"
  NewVoteSummary :: VoteSummary
  VoteSummary_ResetForSameHeight :: "VoteSummary \<Rightarrow> VoteSummary"
  VoteSummary_Reset :: "VoteSummary \<Rightarrow> VoteSummary"
  newVoteDistribution :: "'p gomap \<Rightarrow> 'v list \<Rightarrow> VoteDistribution"
  MergeSparse :: "'p \<Rightarrow> string \<Rightarrow> 's \<Rightarrow> 'p \<times> bool"
  PrevoteSignBytes :: "64 word \<Rightarrow> 32 word \<Rightarrow> string \<Rightarrow> string + string"
  PrecommitSignBytes :: "64 word \<Rightarrow> 32 word \<Rightarrow> string \<Rightarrow> string + string"
  ValidatorsToPubKeys :: "'v list \<Rightarrow> string list"
  HashPubKeys :: "string list \<Rightarrow> string + string"
  cmspNew :: "string \<Rightarrow> string list \<Rightarrow> string \<Rightarrow> string + 'p"
  AddSignature :: "'p \<Rightarrow> string \<Rightarrow> string \<Rightarrow> string + 'p"
  rStore_SaveProposedBlock :: "('v, 's) ProposedBlock \<Rightarrow> string option"
  rStore_OverwritePrevoteProofs :: "64 word \<Rightarrow> 32 word \<Rightarrow> 'p gomap \<Rightarrow> string option"
  rStore_OverwritePrecommitProofs :: "64 word \<Rightarrow> 32 word \<Rightarrow> 'p gomap \<Rightarrow> string option"
  bStore_SaveBlock :: "('v, 's) CommittedBlock \<Rightarrow> string option"
  smH :: "'m \<Rightarrow> 64 word"
  smR :: "'m \<Rightarrow> 32 word"
  smPubKey :: "'m \<Rightarrow> string"
  smForceSend :: "'m \<Rightarrow> ('p, 'v, 's) VersionedRoundView \<Rightarrow> 'm"
  FetchRequests_select :: "64 word \<Rightarrow> string \<Rightarrow> SelectOutcome"

text \<open>
  Modelled from the spec: \<^verbatim>\<open>tmconsensus.ByzantineMajority\<close> and
  \<^verbatim>\<open>tmconsensus.ByzantineMinority\<close>, whose code is not part of the sources at hand:
  \<open>maj = floor(2 P / 3) + 1\<close> and \<open>min = floor(P / 3) + 1\<close> for the available power \<open>P\<close>.
\<close>

definition ByzantineMajority :: "64 word \<Rightarrow> 64 word" where
  "ByzantineMajority p = word_of_nat (2 * unat p div 3 + 1)"

definition ByzantineMinority :: "64 word \<Rightarrow> 64 word" where
  "ByzantineMinority p = word_of_nat (unat p div 3 + 1)"

text \<open>A read of a Go map of numbers gives 0 for a key that is not there.\<close>

definition read0 :: "(string \<rightharpoonup> 'a::zero) \<Rightarrow> string \<Rightarrow> 'a" where
  "read0 m k = (case m k of None \<Rightarrow> 0 | Some x \<Rightarrow> x)"

subsection \<open>Nil proofs and the round advance\<close>

definition getInitialNilProofs ::
  "('p, 'v, 's, 'm) Kernel \<Rightarrow> 64 word \<Rightarrow> 32 word \<Rightarrow> 'v list \<Rightarrow> string + ('p \<times> 'p)" where
  "getInitialNilProofs k h r vals =
     (case PrevoteSignBytes k h r [] of
        Inl e \<Rightarrow> Inl (''failed to get initial nil prevote sign bytes: '' @ e)
      | Inr nilPrevoteContent \<Rightarrow>
     (let pubKeys = ValidatorsToPubKeys k vals in
      case HashPubKeys k pubKeys of
        Inl e \<Rightarrow> Inl (''failed to build public key hash: '' @ e)
      | Inr pubKeyHash \<Rightarrow>
     (case cmspNew k nilPrevoteContent pubKeys pubKeyHash of
        Inl e \<Rightarrow> Inl (''failed to get initial nil prevote proof: '' @ e)
      | Inr prevoteNilProof \<Rightarrow>
     (case PrecommitSignBytes k h r [] of
        Inl e \<Rightarrow> Inl (''failed to get initial nil precommit sign bytes: '' @ e)
      | Inr nilPrecommitContent \<Rightarrow>
     (case cmspNew k nilPrecommitContent pubKeys pubKeyHash of
        Inl e \<Rightarrow> Inl (''failed to get initial nil precommit proof: '' @ e)
      | Inr precommitNilProof \<Rightarrow> Inr (prevoteNilProof, precommitNilProof))))))"

text \<open>
  \<^verbatim>\<open>advanceVotingRound\<close>. The result is a panic, or the world after the call together with
  the error that the call returns. The two writes of the nil proofs go through the copy
  \<^verbatim>\<open>nrrv\<close> into the maps that the next round view shares with it, and panic on a nil map.
\<close>

definition advanceVotingRound ::
  "('p, 'v, 's, 'm) Kernel \<Rightarrow> ('p, 'v, 's, 'm) World
     \<Rightarrow> Panic + (('p, 'v, 's, 'm) World \<times> string option)" where
  "advanceVotingRound k w =
     (let s = KS w;
          smv = StateMachineView s;
          smv' = (if smH k smv = Height (VRV (Voting s)) \<and> smR k smv = Round (VRV (Voting s))
                  then smForceSend k smv (VersionedRoundView_Clone (VRV (Voting s)))
                  else smv);
          vClone = VersionedRoundView_Clone (VRV (Voting s));
          s1 = s\<lparr>StateMachineView := smv', NilVotedRound := Some vClone\<rparr>;
          s2 = s1\<lparr>Voting := (Voting s1)\<lparr>VRV := VRV (NextRound s1)\<rparr>,
                  NextRound := (NextRound s1)\<lparr>VRV := VRV (Voting s1)\<rparr>\<rparr>;
          s3 = s2\<lparr>Voting := UpdateOutgoing k ((Voting s2)\<lparr>VRV := (VRV (Voting s2))\<lparr>Version := 0\<rparr>\<rparr>)\<rparr>;
          nr = (VersionedRoundView_ResetForSameHeight (VoteSummary_ResetForSameHeight k)
                  (VRV (NextRound s3)))\<lparr>Round := Round (VRV (Voting s3)) + 1\<rparr>;
          s4 = s3\<lparr>NextRound := (NextRound s3)\<lparr>VRV := nr\<rparr>\<rparr>
      in case getInitialNilProofs k (Height nr) (Round nr) (Validators nr) of
           Inl e \<Rightarrow>
             Inr (w\<lparr>KS := s4\<rparr>,
                  Some ''failed to get initial nil proofs when advancing voting round'')
         | Inr (nilPrevote, nilPrecommit) \<Rightarrow>
             (case map_put (PrevoteProofs nr) [] nilPrevote of
                Inl p \<Rightarrow> Inl p
              | Inr pv \<Rightarrow>
             (case map_put (PrecommitProofs nr) [] nilPrecommit of
                Inl p \<Rightarrow> Inl p
              | Inr pc \<Rightarrow>
                  Inr (w\<lparr>KS := s4\<lparr>NextRound := UpdateOutgoing k
                              ((NextRound s4)\<lparr>VRV := nr\<lparr>PrevoteProofs := pv,
                                                         PrecommitProofs := pc\<rparr>\<rparr>)\<rparr>\<rparr>,
                       None))))"

subsection \<open>Fetching missing proposed blocks\<close>

text \<open>
  The last loop of \<^verbatim>\<open>checkMissingPBs\<close>, over the missing hashes that are left. The
  context \<^verbatim>\<open>fetchCtx\<close> of a request is named by its cancel function.
\<close>

fun sendFetchRequests ::
  "('p, 'v, 's, 'm) Kernel \<Rightarrow> VoteDistribution \<Rightarrow> 64 word \<Rightarrow> string list
     \<Rightarrow> ('p, 'v, 's, 'm) World \<Rightarrow> ('p, 'v, 's, 'm) World" where
  "sendFetchRequests k dist mn [] w = w"
| "sendFetchRequests k dist mn (missingHash # rest) w =
     (if read0 (BlockVotePower dist) missingHash < mn
      then sendFetchRequests k dist mn rest w
      else (let h = Height (VRV (Voting (KS w))) in
            case FetchRequests_select k h missingHash of
              CtxDone \<Rightarrow> w
            | RequestSent \<Rightarrow>
                sendFetchRequests k dist mn rest
                  ((emit (FetchRequest h missingHash) w)
                     \<lparr>KS := (KS w)\<lparr>InFlightFetchPBs :=
                               (InFlightFetchPBs (KS w))(missingHash \<mapsto> CancelFunc h missingHash)\<rparr>\<rparr>)
            | ChannelFull \<Rightarrow>
                sendFetchRequests k dist mn rest
                  (emit (LogWarn ''Blocked sending fetch request; kernel may deadlock if this block reaches consensus'') w)))"

text \<open>
  \<^verbatim>\<open>checkMissingPBs\<close>. \<^verbatim>\<open>make([]string, 0, len(proofs)-1)\<close> panics for a map without
  entries. An in-flight hash is overwritten with the empty string and the empty strings are
  deleted afterwards, as in the source.
\<close>

definition checkMissingPBs ::
  "('p, 'v, 's, 'm) Kernel \<Rightarrow> ('p, 'v, 's, 'm) World \<Rightarrow> 'p gomap
     \<Rightarrow> Panic + ('p, 'v, 's, 'm) World" where
  "checkMissingPBs k w proofs =
     (let s = KS w;
          havePBHashes = map (\<lambda>pb. Hash (PB_Block pb)) (ProposedBlocks (VRV (Voting s)))
      in if map_len proofs = 0 then Inl (Panic ''makeslice: cap out of range'')
         else
          (let missingPBs = filter (\<lambda>blockHash. blockHash \<noteq> [] \<and> blockHash \<notin> set havePBHashes)
                              (map_keys proofs)
           in if missingPBs = [] then Inr w
              else
               (let skippedAny = list_ex (\<lambda>h. InFlightFetchPBs s h \<noteq> None) missingPBs;
                    marked = map (\<lambda>h. if InFlightFetchPBs s h \<noteq> None then [] else h) missingPBs;
                    missingPBs' = (if skippedAny then filter (\<lambda>hash. hash \<noteq> []) marked
                                   else missingPBs)
                in if skippedAny \<and> missingPBs' = [] then Inr w
                   else
                    (let dist = newVoteDistribution k proofs (Validators (VRV (Voting s)));
                         mn = ByzantineMinority (AvailableVotePower dist)
                     in Inr (sendFetchRequests k dist mn missingPBs' w)))))"

subsection \<open>View shifts\<close>

text \<open>The zero values of Go, for the view that a commit builds from a struct literal.\<close>

definition zero_VoteSummary :: VoteSummary where
  "zero_VoteSummary =
     \<lparr>AvailablePower = 0, TotalPrevotePower = 0, TotalPrecommitPower = 0,
      PrevoteBlockPower = Map.empty, PrecommitBlockPower = Map.empty,
      MostVotedPrevoteHash = [], MostVotedPrecommitHash = []\<rparr>"

definition zero_VRV :: "('p, 'v, 's) VersionedRoundView" where
  "zero_VRV =
     \<lparr>Height = 0, Round = 0, Validators = [],
      ValidatorPubKeyHash = [], ValidatorVotePowerHash = [],
      ProposedBlocks = [], PrevoteProofs = None, PrecommitProofs = None,
      VoteSummary = zero_VoteSummary,
      Version = 0, PrevoteVersion = 0, PrecommitVersion = 0,
      PrevoteBlockVersions = Map.empty, PrecommitBlockVersions = Map.empty\<rparr>"

definition zero_OutgoingView :: "('p, 'v, 's) OutgoingView" where
  "zero_OutgoingView = \<lparr>Out_VRV = zero_VRV, sent = False\<rparr>"

text \<open>
  \<^verbatim>\<open>if m == nil { m = make(...) }\<close> followed by \<^verbatim>\<open>if m[""] == nil { m[""] = p }\<close>.
\<close>

definition ensure_nil_proof :: "'p gomap \<Rightarrow> 'p \<Rightarrow> 'p gomap" where
  "ensure_nil_proof m p =
     (let al = (case m of None \<Rightarrow> [] | Some al \<Rightarrow> al)
      in if map_of al [] = None then Some (AList.update [] p al) else Some al)"

text \<open>The commit of \<^verbatim>\<open>checkVotingPrecommitViewShift\<close>, from the line that saves the old
  committing block on.\<close>

definition commitVotingView ::
  "('p, 'v, 's, 'm) Kernel \<Rightarrow> string \<Rightarrow> ('p, 'v, 's, 'm) World
     \<Rightarrow> Panic + (('p, 'v, 's, 'm) World \<times> string option)" where
  "commitVotingView k committingHash w =
     (let s = KS w;
          committedBlock = CommittingBlock s;
          s1 = s\<lparr>Committing := UpdateOutgoing k (Voting s)\<rparr>
      in case find (\<lambda>pb. Hash (PB_Block pb) = committingHash)
                (ProposedBlocks (VRV (Committing s1))) of
           None \<Rightarrow> Inl (Panic ''BUG: missed update; need to fetch missing proposed block'')
         | Some pb \<Rightarrow>
     (let s2 = s1\<lparr>CommittingBlock := PB_Block pb\<rparr>;
          newHeight = Height (VRV (Committing s2)) + 1;
          votingVals = NextValidators (CommittingBlock s2);
          vs0 = SetAvailablePower k (NewVoteSummary k) votingVals;
          voting0 = \<lparr>VRV = zero_VRV\<lparr>Height := newHeight, Round := 0,
                          Validators := votingVals,
                          ValidatorPubKeyHash := ValidatorPubKeyHash (VRV (Committing s2)),
                          ValidatorVotePowerHash := ValidatorVotePowerHash (VRV (Committing s2)),
                          VoteSummary := vs0,
                          PrevoteVersion := 1, PrecommitVersion := 1\<rparr>,
                     Outgoing = zero_OutgoingView\<rparr>;
          s3 = s2\<lparr>Voting := voting0\<rparr>
      in case getInitialNilProofs k newHeight 0 votingVals of
           Inl e \<Rightarrow> Inr (w\<lparr>KS := s3\<rparr>,
                        Some (''failed to load nil proofs on new voting round: '' @ e))
         | Inr (nilPrevote, nilPrecommit) \<Rightarrow>
     (let vrv1 = (VRV voting0)
                   \<lparr>PrevoteProofs := ensure_nil_proof (PrevoteProofs (VRV voting0)) nilPrevote,
                    PrecommitProofs := ensure_nil_proof (PrecommitProofs (VRV voting0)) nilPrecommit\<rparr>;
          s4 = s3\<lparr>Voting := UpdateOutgoing k (voting0\<lparr>VRV := vrv1\<rparr>)\<rparr>;
          nr0 = VersionedRoundView_Reset (VoteSummary_ResetForSameHeight k) (VoteSummary_Reset k)
                  (VRV (NextRound s4));
          nr1 = nr0\<lparr>Height := newHeight, Round := 1, Validators := votingVals,
                    ValidatorPubKeyHash := ValidatorPubKeyHash (VRV (Voting s4)),
                    ValidatorVotePowerHash := ValidatorVotePowerHash (VRV (Voting s4)),
                    VoteSummary := (VoteSummary nr0)
                       \<lparr>AvailablePower := AvailablePower (VoteSummary (VRV (Voting s4)))\<rparr>,
                    PrevoteVersion := 1, PrecommitVersion := 1\<rparr>;
          s5 = s4\<lparr>NextRound := (NextRound s4)\<lparr>VRV := nr1\<rparr>\<rparr>
      in case getInitialNilProofs k newHeight 1 votingVals of
           Inl e \<Rightarrow> Inr (w\<lparr>KS := s5\<rparr>,
                        Some (''failed to load nil proofs on new next round: '' @ e))
         | Inr (nilPrevote', nilPrecommit') \<Rightarrow>
     (case map_put (PrevoteProofs nr1) [] nilPrevote' of
        Inl p \<Rightarrow> Inl p
      | Inr pv \<Rightarrow>
     (case map_put (PrecommitProofs nr1) [] nilPrecommit' of
        Inl p \<Rightarrow> Inl p
      | Inr pc \<Rightarrow>
     (let s6 = s5\<lparr>NextRound := UpdateOutgoing k
                     ((NextRound s5)\<lparr>VRV := nr1\<lparr>PrevoteProofs := pv, PrecommitProofs := pc\<rparr>\<rparr>)\<rparr>;
          w6 = w\<lparr>KS := s6\<rparr>
      in if Height (VRV (Voting s6)) \<le> initialHeight k + 1 then Inr (w6, None)
         else
          (let cb = \<lparr>CB_Block = committedBlock,
                     CB_Proof = PrevCommitProof (CommittingBlock s6)\<rparr>;
               w7 = emit (SaveBlock cb) w6
           in case bStore_SaveBlock k cb of
                Some e \<Rightarrow> Inr (w7, Some (''failed to save newly committed block: '' @ e))
              | None \<Rightarrow> Inr (emit (LogInfo ''Committed block'') w7, None))))))))"

definition checkVotingPrecommitViewShift ::
  "('p, 'v, 's, 'm) Kernel \<Rightarrow> ('p, 'v, 's, 'm) World
     \<Rightarrow> Panic + (('p, 'v, 's, 'm) World \<times> string option)" where
  "checkVotingPrecommitViewShift k w =
     (let s = KS w;
          vrv = VRV (Voting s);
          vs = VoteSummary vrv;
          maj = ByzantineMajority (AvailablePower vs);
          committingHash = MostVotedPrecommitHash vs;
          highestPow = read0 (PrecommitBlockPower vs) committingHash
      in if highestPow < maj then
           (if TotalPrecommitPower vs = AvailablePower vs then
              (case advanceVotingRound k w of
                 Inl p \<Rightarrow> Inl p
               | Inr (w', Some e) \<Rightarrow> Inr (w', Some e)
               | Inr (w', None) \<Rightarrow>
                   Inr (emit (LogInfo ''Shifted voting round due to 100% of votes received without consensus'') w',
                        None))
            else Inr (w, None))
         else if committingHash = [] then
           (case advanceVotingRound k w of
              Inl p \<Rightarrow> Inl p
            | Inr (w', Some e) \<Rightarrow> Inr (w', Some e)
            | Inr (w', None) \<Rightarrow>
                Inr (emit (LogInfo ''Shifted voting round due to nil precommit'') w', None))
         else if \<not> list_ex (\<lambda>pb. Hash (PB_Block pb) = committingHash) (ProposedBlocks vrv) then
           Inr (emit (LogWarn ''Ready to commit block, but block is not yet available; stuck in this voting round until the block is fetched'') w,
                None)
         else commitVotingView k committingHash w)"

definition checkNextRoundPrecommitViewShift ::
  "('p, 'v, 's, 'm) Kernel \<Rightarrow> ('p, 'v, 's, 'm) World
     \<Rightarrow> Panic + (('p, 'v, 's, 'm) World \<times> string option)" where
  "checkNextRoundPrecommitViewShift k w =
     (let vs = VoteSummary (VRV (NextRound (KS w)));
          mn = ByzantineMinority (AvailablePower vs)
      in if TotalPrecommitPower vs < mn then Inr (w, None)
         else
          (case advanceVotingRound k w of
             Inl p \<Rightarrow> Inl p
           | Inr (w1, Some e) \<Rightarrow> Inr (w1, Some e)
           | Inr (w1, None) \<Rightarrow>
          (let w2 = emit (LogInfo ''Shifting voting round due to minority precommit'') w1;
               maj = ByzantineMajority (AvailablePower vs);
               maxPow = read0 (PrecommitBlockPower vs) (MostVotedPrecommitHash vs)
           in if maxPow \<ge> maj then Inl (Panic ''TODO: handle a majority precommit for NextRound'')
              else if maxPow \<ge> mn then
                (case checkMissingPBs k w2 (PrecommitProofs (VRV (Voting (KS w2)))) of
                   Inl p \<Rightarrow> Inl p
                 | Inr w3 \<Rightarrow> Inr (w3, None))
              else Inr (w2, None))))"

definition checkPrevoteViewShift ::
  "('p, 'v, 's, 'm) Kernel \<Rightarrow> ('p, 'v, 's, 'm) World \<Rightarrow> ViewID
     \<Rightarrow> Panic + (('p, 'v, 's, 'm) World \<times> string option)" where
  "checkPrevoteViewShift k w vID =
     (if vID \<noteq> ViewIDNextRound
      then Inl (Panic ''BUG: unhandled view ID in checkPrecommitViewShift'')
      else
       (let vs = VoteSummary (VRV (NextRound (KS w)));
            mn = ByzantineMinority (AvailablePower vs)
        in if TotalPrevotePower vs < mn then Inr (w, None)
           else
            (case advanceVotingRound k w of
               Inl p \<Rightarrow> Inl p
             | Inr (w1, Some e) \<Rightarrow> Inr (w1, Some e)
             | Inr (w1, None) \<Rightarrow>
            (let w2 = emit (LogInfo ''Shifted voting round due to minority prevote'') w1
             in if read0 (PrevoteBlockPower vs) (MostVotedPrevoteHash vs) \<ge> mn then
                  (case checkMissingPBs k w2 (PrevoteProofs (VRV (Voting (KS w2)))) of
                     Inl p \<Rightarrow> Inl p
                   | Inr w3 \<Rightarrow> Inr (w3, None))
                else Inr (w2, None)))))"

subsection \<open>Adding votes\<close>

text \<open>
  The loop over the updates of a request, the same in \<^verbatim>\<open>addPrevote\<close> and
  \<^verbatim>\<open>addPrecommit\<close>: the proof map and the map of per-block versions of the vote kind,
  \<^verbatim>\<open>allAccepted\<close> and \<^verbatim>\<open>anyAdded\<close>. The proof is stored first, which panics on a nil
  proof map; \<^verbatim>\<open>++\<close> wraps at \<open>2^32\<close>.
\<close>

fun applyVoteUpdates ::
  "(string \<times> 'p VoteUpdate) list \<Rightarrow> 'p gomap \<Rightarrow> (string \<rightharpoonup> 32 word) \<Rightarrow> bool \<Rightarrow> bool
     \<Rightarrow> Panic + ('p gomap \<times> (string \<rightharpoonup> 32 word) \<times> bool \<times> bool)" where
  "applyVoteUpdates [] proofs versions allAccepted anyAdded =
     Inr (proofs, versions, allAccepted, anyAdded)"
| "applyVoteUpdates ((blockHash, u) # rest) proofs versions allAccepted anyAdded =
     (if PrevVersion u = read0 versions blockHash then
        (case map_put proofs blockHash (Proof u) of
           Inl p \<Rightarrow> Inl p
         | Inr proofs' \<Rightarrow>
             applyVoteUpdates rest proofs'
               (versions(blockHash \<mapsto> read0 versions blockHash + 1)) allAccepted True)
      else applyVoteUpdates rest proofs versions False anyAdded)"

definition vote_result :: "bool \<Rightarrow> AddVoteResult" where
  "vote_result allAccepted = (if allAccepted then AddVoteAccepted else AddVoteConflict)"

text \<open>
  \<^verbatim>\<open>addPrevote\<close> is written in three parts that follow one another in the source: the
  lookup of the view, the part below, and the rest after the reply.

  \<^verbatim>\<open>addPrevote\<close> from \<^verbatim>\<open>vrv := &view.VRV\<close> to the send of the result: the loop, the
  bookkeeping when a proof was added, and the reply. \<open>ref\<close> is the view that \<^verbatim>\<open>FindView\<close>
  returned. The proof map that goes to the round store is read from the view after
  \<^verbatim>\<open>UpdateOutgoing\<close>, as the source reads it through the pointer.
\<close>

definition installPrevotes ::
  "('p, 'v, 's, 'm) Kernel \<Rightarrow> 'p AddPrevoteRequest \<Rightarrow> ViewRef \<Rightarrow> ('p, 'v, 's, 'm) World
     \<Rightarrow> Panic + (('p, 'v, 's, 'm) World \<times> AddVoteResult)" where
  "installPrevotes k req ref w =
     (let v = get_view ref (KS w); vrv = VRV v
      in case applyVoteUpdates (PrevoteUpdates req) (PrevoteProofs vrv)
                (PrevoteBlockVersions vrv) True False of
           Inl p \<Rightarrow> Inl p
         | Inr (proofs', versions', allAccepted, anyAdded) \<Rightarrow>
     (let vrv1 = vrv\<lparr>PrevoteProofs := proofs', PrevoteBlockVersions := versions'\<rparr>;
          w1 = (if anyAdded then
                  (let vrv2 = vrv1\<lparr>VoteSummary :=
                                SetPrevotePowers k (VoteSummary vrv1) (Validators vrv1)
                                  (PrevoteProofs vrv1)\<rparr>;
                       v' = UpdateOutgoing k (v\<lparr>VRV := vrv2\<rparr>);
                       pp = PrevoteProofs (VRV v')
                   in warn_on (rStore_OverwritePrevoteProofs k (PV_H req) (PV_R req) pp)
                        ''Failed to save prevotes to round store; this may cause issues upon restart''
                        (emit (OverwritePrevoteProofs (PV_H req) (PV_R req) pp)
                           (w\<lparr>KS := set_view ref v' (KS w)\<rparr>)))
                else w\<lparr>KS := set_view ref (v\<lparr>VRV := vrv1\<rparr>) (KS w)\<rparr>);
          res = vote_result allAccepted
      in Inr (respond (PV_Response req) res w1, res)))"

text \<open>
  The rest of \<^verbatim>\<open>addPrevote\<close>, after the reply: the check for missing proposed blocks
  with the prevote proofs of the view, and the view shift for an accepted prevote into the
  next round.
\<close>

definition afterPrevotes ::
  "('p, 'v, 's, 'm) Kernel \<Rightarrow> ViewRef \<Rightarrow> ViewID \<Rightarrow> AddVoteResult \<Rightarrow> ('p, 'v, 's, 'm) World
     \<Rightarrow> Panic + ('p, 'v, 's, 'm) World" where
  "afterPrevotes k ref vID res w2 =
     (case checkMissingPBs k w2 (PrevoteProofs (VRV (get_view ref (KS w2)))) of
        Inl p \<Rightarrow> Inl p
      | Inr w3 \<Rightarrow>
          if res = AddVoteAccepted \<and> vID = ViewIDNextRound then
            (case checkPrevoteViewShift k w3 vID of
               Inl p \<Rightarrow> Inl p
             | Inr (w4, err) \<Rightarrow>
                 Inr (warn_on err
                        ''Error while checking view shift for prevotes into next round; kernel may be in bad state''
                        w4))
          else Inr w3)"

definition addPrevote ::
  "('p, 'v, 's, 'm) Kernel \<Rightarrow> 'p AddPrevoteRequest \<Rightarrow> ('p, 'v, 's, 'm) World
     \<Rightarrow> Panic + ('p, 'v, 's, 'm) World" where
  "addPrevote k req w =
     (case FindView k (KS w) (PV_H req) (PV_R req) of (view, vID, vStatus) \<Rightarrow>
      if vStatus \<noteq> ViewFound then
        (case vStatus of
           ViewBeforeCommitting \<Rightarrow> Inr (respond (PV_Response req) AddVoteOutOfDate w)
         | ViewOrphaned \<Rightarrow> Inr (respond (PV_Response req) AddVoteOutOfDate w)
         | ViewWrongCommit \<Rightarrow>
             Inr (respond (PV_Response req) AddVoteOutOfDate
                    (emit (LogWarn ''TODO: add new addVoteResult for viewWrongCommit'') w))
         | _ \<Rightarrow> Inl (Panic ''TODO: handle unexpected view status when looking up view to add prevote''))
      else if vID \<noteq> ViewIDCommitting \<and> vID \<noteq> ViewIDVoting \<and> vID \<noteq> ViewIDNextRound then
        Inl (Panic ''TODO: handle adding prevotes to view'')
      else
       (case view of
          None \<Rightarrow> Inl (Panic ''invalid memory address or nil pointer dereference'')
        | Some ref \<Rightarrow>
       (case installPrevotes k req ref w of
          Inl p \<Rightarrow> Inl p
        | Inr (w2, res) \<Rightarrow> afterPrevotes k ref vID res w2)))"

text \<open>\<^verbatim>\<open>addPrecommit\<close>, in the same parts.\<close>

definition installPrecommits ::
  "('p, 'v, 's, 'm) Kernel \<Rightarrow> 'p AddPrecommitRequest \<Rightarrow> ViewRef \<Rightarrow> ('p, 'v, 's, 'm) World
     \<Rightarrow> Panic + (('p, 'v, 's, 'm) World \<times> AddVoteResult)" where
  "installPrecommits k req ref w =
     (let v = get_view ref (KS w); vrv = VRV v
      in case applyVoteUpdates (PrecommitUpdates req) (PrecommitProofs vrv)
                (PrecommitBlockVersions vrv) True False of
           Inl p \<Rightarrow> Inl p
         | Inr (proofs', versions', allAccepted, anyAdded) \<Rightarrow>
     (let vrv1 = vrv\<lparr>PrecommitProofs := proofs', PrecommitBlockVersions := versions'\<rparr>;
          w1 = (if anyAdded then
                  (let vrv2 = vrv1\<lparr>VoteSummary :=
                                SetPrecommitPowers k (VoteSummary vrv1) (Validators vrv1)
                                  (PrecommitProofs vrv1)\<rparr>;
                       v' = UpdateOutgoing k (v\<lparr>VRV := vrv2\<rparr>);
                       pp = PrecommitProofs (VRV v')
                   in warn_on (rStore_OverwritePrecommitProofs k (PC_H req) (PC_R req) pp)
                        ''Failed to save precommits to round store; this may cause issues upon restart''
                        (emit (OverwritePrecommitProofs (PC_H req) (PC_R req) pp)
                           (w\<lparr>KS := set_view ref v' (KS w)\<rparr>)))
                else w\<lparr>KS := set_view ref (v\<lparr>VRV := vrv1\<rparr>) (KS w)\<rparr>);
          res = vote_result allAccepted
      in Inr (respond (PC_Response req) res w1, res)))"

text \<open>The rest of \<^verbatim>\<open>addPrecommit\<close>, after the reply.\<close>

definition afterPrecommits ::
  "('p, 'v, 's, 'm) Kernel \<Rightarrow> ViewRef \<Rightarrow> ViewID \<Rightarrow> AddVoteResult \<Rightarrow> ('p, 'v, 's, 'm) World
     \<Rightarrow> Panic + ('p, 'v, 's, 'm) World" where
  "afterPrecommits k ref vID res w2 =
     (case checkMissingPBs k w2 (PrecommitProofs (VRV (get_view ref (KS w2)))) of
        Inl p \<Rightarrow> Inl p
      | Inr w3 \<Rightarrow>
          if res \<noteq> AddVoteAccepted then Inr w3
          else
           (case vID of
              ViewIDVoting \<Rightarrow>
                (case checkVotingPrecommitViewShift k w3 of
                   Inl p \<Rightarrow> Inl p
                 | Inr (w4, err) \<Rightarrow>
                     Inr (warn_on err
                            ''Error while checking view shift for precommit in voting round; kernel may be in bad state''
                            w4))
            | ViewIDNextRound \<Rightarrow>
                (case checkNextRoundPrecommitViewShift k w3 of
                   Inl p \<Rightarrow> Inl p
                 | Inr (w4, err) \<Rightarrow>
                     Inr (warn_on err
                            ''Error while checking view shift for precommit in next round; kernel may be in bad state''
                            w4))
            | ViewIDCommitting \<Rightarrow> Inr w3
            | ViewIDOther n \<Rightarrow> Inl (Panic ''BUG: unhandled view ID in addPrecommit'')))"

definition addPrecommit ::
  "('p, 'v, 's, 'm) Kernel \<Rightarrow> 'p AddPrecommitRequest \<Rightarrow> ('p, 'v, 's, 'm) World
     \<Rightarrow> Panic + ('p, 'v, 's, 'm) World" where
  "addPrecommit k req w =
     (case FindView k (KS w) (PC_H req) (PC_R req) of (view, vID, vStatus) \<Rightarrow>
      if vStatus \<noteq> ViewFound then
        (case vStatus of
           ViewBeforeCommitting \<Rightarrow> Inr (respond (PC_Response req) AddVoteOutOfDate w)
         | ViewOrphaned \<Rightarrow> Inr (respond (PC_Response req) AddVoteOutOfDate w)
         | ViewWrongCommit \<Rightarrow>
             Inr (respond (PC_Response req) AddVoteOutOfDate
                    (emit (LogWarn ''TODO: add new addVoteResult for viewWrongCommit'') w))
         | _ \<Rightarrow> Inl (Panic ''TODO: handle unexpected view status when looking up view to add precommit''))
      else if vID \<noteq> ViewIDCommitting \<and> vID \<noteq> ViewIDVoting \<and> vID \<noteq> ViewIDNextRound then
        Inl (Panic ''TODO: handle adding precommits to view'')
      else
       (case view of
          None \<Rightarrow> Inl (Panic ''invalid memory address or nil pointer dereference'')
        | Some ref \<Rightarrow>
       (case installPrecommits k req ref w of
          Inl p \<Rightarrow> Inl p
        | Inr (w2, res) \<Rightarrow> afterPrecommits k ref vID res w2)))"

subsection \<open>Adding a proposed block\<close>

text \<open>
  The backfill loop of \<^verbatim>\<open>addPB\<close> over the proofs of the previous commit that the block
  carries. \<^verbatim>\<open>MergeSparse\<close> changes the target proof in place, which is the entry of the
  map.
\<close>

fun backfill ::
  "('p, 'v, 's, 'm) Kernel \<Rightarrow> string \<Rightarrow> (string \<times> 's) list \<Rightarrow> 'p gomap \<Rightarrow> bool
     \<Rightarrow> Panic + ('p gomap \<times> bool)" where
  "backfill k pkh [] proofs mergedAny = Inr (proofs, mergedAny)"
| "backfill k pkh ((blockHash, laterSigs) # rest) proofs mergedAny =
     (case map_get proofs blockHash of
        None \<Rightarrow> Inl (Panic ''TODO: backfill unknown block precommit'')
      | Some target \<Rightarrow>
          (case MergeSparse k target pkh laterSigs of (target', increased) \<Rightarrow>
             backfill k pkh rest (map_option (AList.update blockHash target') proofs)
               (mergedAny \<or> increased)))"

text \<open>The first lines of \<^verbatim>\<open>addPB\<close>: cancel an outstanding fetch for the block.\<close>

definition cancelInFlight ::
  "string \<Rightarrow> ('p, 'v, 's, 'm) World \<Rightarrow> ('p, 'v, 's, 'm) World" where
  "cancelInFlight h w =
     (case InFlightFetchPBs (KS w) h of
        None \<Rightarrow> w
      | Some cancel \<Rightarrow>
          (emit (Cancelled cancel) w)
            \<lparr>KS := (KS w)\<lparr>InFlightFetchPBs := (InFlightFetchPBs (KS w))(h := None)\<rparr>\<rparr>)"

definition addPB ::
  "('p, 'v, 's, 'm) Kernel \<Rightarrow> ('v, 's) ProposedBlock \<Rightarrow> ('p, 'v, 's, 'm) World
     \<Rightarrow> Panic + ('p, 'v, 's, 'm) World" where
  "addPB k pb w =
     (let w1 = cancelInFlight (Hash (PB_Block pb)) w
      in case FindView k (KS w1) (Block_Height (PB_Block pb)) (PB_Round pb) of
           (view, viewID, vStatus) \<Rightarrow>
      (case view of
         None \<Rightarrow>
           Inr (emit (LogInfo ''Dropping proposed block that did not match a view (may have been received immediately before a view shift)'') w1)
       | Some ref \<Rightarrow>
      (let v = get_view ref (KS w1); vrv = VRV v
       in if list_ex (\<lambda>have. Signature have = Signature pb) (ProposedBlocks vrv) then Inr w1
          else
      (let v1 = v\<lparr>VRV := vrv\<lparr>ProposedBlocks := ProposedBlocks vrv @ [pb]\<rparr>\<rparr>;
           w2 = warn_on (rStore_SaveProposedBlock k pb)
                  ''Failed to save proposed block to round store; this may cause issues upon restart''
                  (emit (SaveProposedBlock pb) w1);
           w3 = w2\<lparr>KS := set_view ref (UpdateOutgoing k v1) (KS w2)\<rparr>
       in if viewID \<noteq> ViewIDVoting \<and> viewID \<noteq> ViewIDNextRound then Inr w3
          else
      (let backfillView = Committing (KS w3);
           pcp = PrevCommitProof (PB_Block pb)
       in case backfill k (PubKeyHash pcp) (Proofs pcp)
                 (PrecommitProofs (VRV backfillView)) False of
            Inl p \<Rightarrow> Inl p
          | Inr (proofs', mergedAny) \<Rightarrow>
      (let bv1 = backfillView\<lparr>VRV := (VRV backfillView)\<lparr>PrecommitProofs := proofs'\<rparr>\<rparr>;
           w4 = w3\<lparr>KS := (KS w3)\<lparr>Committing := bv1\<rparr>\<rparr>;
           w5 = (if mergedAny then
                   (let w' = warn_on
                               (rStore_OverwritePrecommitProofs k (Block_Height (PB_Block pb) - 1)
                                  (CP_Round pcp) proofs')
                               ''Failed to save backfilled commit info to round store; this may cause issues upon restart''
                               (emit (OverwritePrecommitProofs (Block_Height (PB_Block pb) - 1)
                                        (CP_Round pcp) proofs') w4)
                    in w'\<lparr>KS := (KS w')\<lparr>Committing := UpdateOutgoing k (Committing (KS w'))\<rparr>\<rparr>)
                 else w4)
       in if viewID = ViewIDVoting
             \<and> map_get (PrecommitProofs (VRV (Voting (KS w5)))) (Hash (PB_Block pb)) \<noteq> None
          then (case checkVotingPrecommitViewShift k w5 of
                  Inl p \<Rightarrow> Inl p
                | Inr (w6, err) \<Rightarrow> Inr w6)
          else Inr w5))))))"

subsection \<open>Actions of the state machine\<close>

definition fmt_bool :: "bool \<Rightarrow> string" where
  "fmt_bool b = (if b then ''true'' else ''false'')"

definition panic_no_action :: Panic where
  "panic_no_action = Panic ''BUG: no state machine action present''"

definition panic_pb_and_vote :: "bool \<Rightarrow> bool \<Rightarrow> Panic" where
  "panic_pb_and_vote hasPrevote hasPrecommit =
     Panic (''BUG: multiple state machine actions present when exactly one required: pb=true prevote=''
            @ fmt_bool hasPrevote @ '' precommit='' @ fmt_bool hasPrecommit)"

definition panic_two_votes :: Panic where
  "panic_two_votes =
     Panic ''BUG: multiple state machine actions present when exactly one required: pb=false prevote=true precommit=true''"

definition handleStateMachineAction ::
  "('p, 'v, 's, 'm) Kernel \<Rightarrow> ('v, 's) StateMachineRoundAction \<Rightarrow> ('p, 'v, 's, 'm) World
     \<Rightarrow> Panic + ('p, 'v, 's, 'm) World" where
  "handleStateMachineAction k act w =
     (let hasPB = length (Hash (PB_Block (Act_PB act))) > 0;
          hasPrevote = length (Sig (Act_Prevote act)) > 0;
          hasPrecommit = length (Sig (Act_Precommit act)) > 0
      in if \<not> (hasPB \<or> hasPrevote \<or> hasPrecommit) then Inl panic_no_action
         else if hasPB then
           (if hasPrevote \<or> hasPrecommit then Inl (panic_pb_and_vote hasPrevote hasPrecommit)
            else addPB k (Act_PB act) w)
         else
      (let s = KS w;
           h = smH k (StateMachineView s);
           r = smR k (StateMachineView s);
           dropped = emit (LogInfo ''Dropping state machine vote due to not matching voting or committing view'') w
       in case FindView k s h r of (v, vID, vStatus) \<Rightarrow>
      (case v of
         None \<Rightarrow> Inr dropped
       | Some ref \<Rightarrow>
           if vID \<noteq> ViewIDVoting \<and> vID \<noteq> ViewIDCommitting then Inr dropped
           else if hasPrevote then
             (if hasPrecommit then Inl panic_two_votes
              else
               (let hash = TargetHash (Act_Prevote act);
                    vrv = VRV (get_view ref s)
                in case (case map_get (PrevoteProofs vrv) hash of
                           None \<Rightarrow> cmspNew k (SignContent (Act_Prevote act))
                                     (ValidatorsToPubKeys k (Validators (VRV (Voting s))))
                                     (ValidatorPubKeyHash (VRV (Voting s)))
                         | Some existingVote \<Rightarrow> Inr existingVote) of
                     Inl e \<Rightarrow>
                       Inr (emit (LogError ''Failed to build empty prevote proof for prevote from state machine'') w)
                   | Inr updatedVote \<Rightarrow>
                (case AddSignature k updatedVote (Sig (Act_Prevote act))
                        (smPubKey k (StateMachineView s)) of
                   Inl e \<Rightarrow>
                     Inr (emit (LogError ''Failed to add prevote signature from state machine'') w)
                 | Inr signedVote \<Rightarrow>
                     addPrevote k
                       \<lparr>PV_H = h, PV_R = r,
                        PrevoteUpdates =
                          [(hash, \<lparr>Proof = signedVote,
                                   PrevVersion = read0 (PrevoteBlockVersions vrv) hash\<rparr>)],
                        PV_Response = None\<rparr> w)))
           else
            (let hash = TargetHash (Act_Precommit act);
                 vrv = VRV (get_view ref s)
             in case (case map_get (PrecommitProofs vrv) hash of
                        None \<Rightarrow> cmspNew k (SignContent (Act_Precommit act))
                                  (ValidatorsToPubKeys k (Validators (VRV (Voting s))))
                                  (ValidatorPubKeyHash (VRV (Voting s)))
                      | Some existingVote \<Rightarrow> Inr existingVote) of
                  Inl e \<Rightarrow>
                    Inr (emit (LogError ''Failed to build empty precommit proof for precommit from state machine'') w)
                | Inr updatedVote \<Rightarrow>
             (case AddSignature k updatedVote (Sig (Act_Precommit act))
                     (smPubKey k (StateMachineView s)) of
                Inl e \<Rightarrow>
                  Inr (emit (LogError ''Failed to add precommit signature from state machine'') w)
              | Inr signedVote \<Rightarrow>
                  addPrecommit k
                    \<lparr>PC_H = h, PC_R = r,
                     PrecommitUpdates =
                       [(hash, \<lparr>Proof = signedVote,
                                PrevVersion = read0 (PrecommitBlockVersions vrv) hash\<rparr>)],
                     PC_Response = None\<rparr> w)))))"

subsection \<open>A kernel after the specification\<close>

text \<open>
  The theorems below hold for every value of the \<^typ>\<open>('p, 'v, 's, 'm) Kernel\<close> record. To
  run the kernel on concrete inputs, this section fills the record in from the
  specification.
\<close>

text \<open>
  Modelled from the spec: the aggregate signature proof, an opaque structure in the
  sources at hand. It holds the public keys it was made for and the indices of the
  validators that have signed (its bitset); adding a signature and merging sparse
  signatures only add indices.
\<close>

record SigProof =
  Keys :: "string list"
  Signed :: "nat list"

type_synonym Validator = "string \<times> 64 word"

fun index_of :: "'a \<Rightarrow> 'a list \<Rightarrow> nat option" where
  "index_of x [] = None"
| "index_of x (y # ys) = (if x = y then Some 0 else map_option Suc (index_of x ys))"

definition AddSignature_spec :: "SigProof \<Rightarrow> string \<Rightarrow> string \<Rightarrow> string + SigProof" where
  "AddSignature_spec p sg key =
     (case index_of key (Keys p) of
        None \<Rightarrow> Inl ''unknown public key''
      | Some i \<Rightarrow> Inr (p\<lparr>Signed := List.insert i (Signed p)\<rparr>))"

definition MergeSparse_spec :: "SigProof \<Rightarrow> string \<Rightarrow> nat list \<Rightarrow> SigProof \<times> bool" where
  "MergeSparse_spec target pkh sigs =
     (target\<lparr>Signed := List.union (Signed target) sigs\<rparr>,
      list_ex (\<lambda>i. i \<notin> set (Signed target)) sigs)"

text \<open>
  Modelled from the spec: the vote distribution and the vote summary, whose code is not
  part of the sources at hand. The power of a block hash is the sum of the vote powers of
  the validators whose bits are set in its proof; the available power is the sum over all
  validators; the most voted hash is the first hash of the greatest power.
\<close>

definition proof_power :: "Validator list \<Rightarrow> SigProof \<Rightarrow> 64 word" where
  "proof_power vals p =
     sum_list (map (\<lambda>i. if i < length vals then snd (vals ! i) else 0) (Signed p))"

definition block_powers :: "SigProof gomap \<Rightarrow> Validator list \<Rightarrow> (string \<times> 64 word) list" where
  "block_powers proofs vals =
     (case proofs of None \<Rightarrow> [] | Some al \<Rightarrow> map (\<lambda>(h, p). (h, proof_power vals p)) al)"

fun most_voted :: "(string \<times> 64 word) list \<Rightarrow> string \<Rightarrow> 64 word \<Rightarrow> string" where
  "most_voted [] best pow = best"
| "most_voted ((h, p) # rest) best pow =
     (if pow < p then most_voted rest h p else most_voted rest best pow)"

definition newVoteDistribution_spec :: "SigProof gomap \<Rightarrow> Validator list \<Rightarrow> VoteDistribution" where
  "newVoteDistribution_spec proofs vals =
     \<lparr>AvailableVotePower = sum_list (map snd vals),
      BlockVotePower = map_of (block_powers proofs vals)\<rparr>"

definition SetAvailablePower_spec :: "VoteSummary \<Rightarrow> Validator list \<Rightarrow> VoteSummary" where
  "SetAvailablePower_spec vs vals = vs\<lparr>AvailablePower := sum_list (map snd vals)\<rparr>"

definition SetPrevotePowers_spec ::
  "VoteSummary \<Rightarrow> Validator list \<Rightarrow> SigProof gomap \<Rightarrow> VoteSummary" where
  "SetPrevotePowers_spec vs vals proofs =
     (let bp = block_powers proofs vals
      in vs\<lparr>TotalPrevotePower := sum_list (map snd bp),
            PrevoteBlockPower := map_of bp,
            MostVotedPrevoteHash := most_voted bp [] 0\<rparr>)"

definition SetPrecommitPowers_spec ::
  "VoteSummary \<Rightarrow> Validator list \<Rightarrow> SigProof gomap \<Rightarrow> VoteSummary" where
  "SetPrecommitPowers_spec vs vals proofs =
     (let bp = block_powers proofs vals
      in vs\<lparr>TotalPrecommitPower := sum_list (map snd bp),
            PrecommitBlockPower := map_of bp,
            MostVotedPrecommitHash := most_voted bp [] 0\<rparr>)"

definition VoteSummary_ResetForSameHeight_spec :: "VoteSummary \<Rightarrow> VoteSummary" where
  "VoteSummary_ResetForSameHeight_spec vs = zero_VoteSummary\<lparr>AvailablePower := AvailablePower vs\<rparr>"

text \<open>
  Modelled from the spec: \<^verbatim>\<open>(*View).UpdateOutgoing\<close>, whose code is not part of the
  sources at hand: it clones the current state and clears \<^verbatim>\<open>sent\<close>.
\<close>

definition UpdateOutgoing_spec :: "('p, 'v, 's) View \<Rightarrow> ('p, 'v, 's) View" where
  "UpdateOutgoing_spec v =
     v\<lparr>Outgoing := \<lparr>Out_VRV = VersionedRoundView_Clone (VRV v), sent = False\<rparr>\<rparr>"

text \<open>
  Modelled from the spec: \<^verbatim>\<open>(*kState).FindView\<close>, whose code is not part of the sources
  at hand. The view for a height and round is the voting view, the next round view (the
  round after the voting round) or the committing view. Otherwise the status says why
  there is none: a lower round of the voting height is orphaned, another round of the
  committing height is the wrong commit, a height below the committing height is before
  committing, and everything else is not yet tracked.
\<close>

definition FindView_spec ::
  "('p, 'v, 's, 'm) kState \<Rightarrow> 64 word \<Rightarrow> 32 word \<Rightarrow> ViewRef option \<times> ViewID \<times> ViewLookupStatus" where
  "FindView_spec s h r =
     (let vh = Height (VRV (Voting s)); vr = Round (VRV (Voting s));
          ch = Height (VRV (Committing s)); cr = Round (VRV (Committing s))
      in if h = vh then
           (if r = vr then (Some RefVoting, ViewIDVoting, ViewFound)
            else if r = vr + 1 then (Some RefNextRound, ViewIDNextRound, ViewFound)
            else if r < vr then (None, ViewIDOther 0, ViewOrphaned)
            else (None, ViewIDOther 0, ViewFutureNotYetTracked))
         else if h = ch then
           (if r = cr then (Some RefCommitting, ViewIDCommitting, ViewFound)
            else (None, ViewIDOther 0, ViewWrongCommit))
         else if h < ch then (None, ViewIDOther 0, ViewBeforeCommitting)
         else (None, ViewIDOther 0, ViewFutureNotYetTracked))"

text \<open>
  Modelled from the spec: the state machine view, whose code is not part of the sources
  at hand: the height, the round and the public key it is bound to, and the pending view
  that \<^verbatim>\<open>ForceSend\<close> injects.
\<close>

record ('p, 'v, 's) SMView =
  SM_H :: "64 word"
  SM_R :: "32 word"
  SM_PubKey :: string
  SM_Pending :: "('p, 'v, 's) VersionedRoundView option"

text \<open>
  The kernel after the specification, for an initial height and a way the fetch channel
  answers. The stores never fail; the sign bytes of a vote name its kind, and the hash of
  public keys is their concatenation.
\<close>

definition spec_kernel ::
  "64 word \<Rightarrow> (64 word \<Rightarrow> string \<Rightarrow> SelectOutcome)
     \<Rightarrow> (SigProof, Validator, nat list, (SigProof, Validator, nat list) SMView) Kernel" where
  "spec_kernel ih sel =
     \<lparr>initialHeight = ih,
      FindView = FindView_spec,
      UpdateOutgoing = UpdateOutgoing_spec,
      SetPrevotePowers = SetPrevotePowers_spec,
      SetPrecommitPowers = SetPrecommitPowers_spec,
      SetAvailablePower = SetAvailablePower_spec,
      NewVoteSummary = zero_VoteSummary,
      VoteSummary_ResetForSameHeight = VoteSummary_ResetForSameHeight_spec,
      VoteSummary_Reset = (\<lambda>vs. zero_VoteSummary),
      newVoteDistribution = newVoteDistribution_spec,
      MergeSparse = MergeSparse_spec,
      PrevoteSignBytes = (\<lambda>h r bh. Inr ''prevote''),
      PrecommitSignBytes = (\<lambda>h r bh. Inr ''precommit''),
      ValidatorsToPubKeys = map fst,
      HashPubKeys = (\<lambda>keys. Inr (concat keys)),
      cmspNew = (\<lambda>content keys pkh. Inr \<lparr>Keys = keys, Signed = []\<rparr>),
      AddSignature = AddSignature_spec,
      rStore_SaveProposedBlock = (\<lambda>pb. None),
      rStore_OverwritePrevoteProofs = (\<lambda>h r m. None),
      rStore_OverwritePrecommitProofs = (\<lambda>h r m. None),
      bStore_SaveBlock = (\<lambda>cb. None),
      smH = SM_H,
      smR = SM_R,
      smPubKey = SM_PubKey,
      smForceSend = (\<lambda>m v. m\<lparr>SM_Pending := Some v\<rparr>),
      FetchRequests_select = sel\<rparr>"

text \<open>
  Four validators of power 10 each, as in the scenarios of the specification, and the
  views and blocks of a kernel that runs over them.
\<close>

definition vals4 :: "Validator list" where
  "vals4 = [(''A'', 10), (''B'', 10), (''C'', 10), (''D'', 10)]"

definition signed_by :: "nat list \<Rightarrow> SigProof" where
  "signed_by is = \<lparr>Keys = map fst vals4, Signed = is\<rparr>"

definition zero_CommitProof :: "nat list CommitProof" where
  "zero_CommitProof = \<lparr>CP_Round = 0, PubKeyHash = [], Proofs = []\<rparr>"

definition zero_Block :: "(Validator, nat list) Block" where
  "zero_Block =
     \<lparr>Hash = [], Block_Height = 0, PrevBlockHash = [], PrevCommitProof = zero_CommitProof,
      Block_Validators = [], NextValidators = []\<rparr>"

definition block_at :: "string \<Rightarrow> 64 word \<Rightarrow> string \<Rightarrow> (Validator, nat list) Block" where
  "block_at h height prev =
     \<lparr>Hash = h, Block_Height = height, PrevBlockHash = prev,
      PrevCommitProof = \<lparr>CP_Round = 0, PubKeyHash = concat (map fst vals4), Proofs = []\<rparr>,
      Block_Validators = vals4, NextValidators = vals4\<rparr>"

definition proposed ::
  "(Validator, nat list) Block \<Rightarrow> 32 word \<Rightarrow> string \<Rightarrow> (Validator, nat list) ProposedBlock" where
  "proposed b r sg = \<lparr>PB_Block = b, PB_Round = r, Signature = sg\<rparr>"

text \<open>
  A view of the height and round with the given proposed blocks, prevote proofs and
  precommit proofs (each with its per-block version), summed up and published as the
  kernel does after a change.
\<close>

definition view_of ::
  "64 word \<Rightarrow> 32 word \<Rightarrow> (Validator, nat list) ProposedBlock list
     \<Rightarrow> (string \<times> SigProof \<times> 32 word) list \<Rightarrow> (string \<times> SigProof \<times> 32 word) list
     \<Rightarrow> (SigProof, Validator, nat list) View" where
  "view_of h r pbs prevotes precommits =
     (let pv = Some (map (\<lambda>(bh, p, n). (bh, p)) prevotes);
          pc = Some (map (\<lambda>(bh, p, n). (bh, p)) precommits);
          vs = SetPrecommitPowers_spec
                 (SetPrevotePowers_spec (SetAvailablePower_spec zero_VoteSummary vals4) vals4 pv)
                 vals4 pc
      in UpdateOutgoing_spec
           \<lparr>VRV = \<lparr>Height = h, Round = r, Validators = vals4,
                   ValidatorPubKeyHash = concat (map fst vals4),
                   ValidatorVotePowerHash = ''powers'',
                   ProposedBlocks = pbs, PrevoteProofs = pv, PrecommitProofs = pc,
                   VoteSummary = vs,
                   Version = 1, PrevoteVersion = 1, PrecommitVersion = 1,
                   PrevoteBlockVersions = map_of (map (\<lambda>(bh, p, n). (bh, n)) prevotes),
                   PrecommitBlockVersions = map_of (map (\<lambda>(bh, p, n). (bh, n)) precommits)\<rparr>,
            Outgoing = zero_OutgoingView\<rparr>)"

definition nil_votes :: "(string \<times> SigProof \<times> 32 word) list" where
  "nil_votes = [([], signed_by [], 0)]"

text \<open>
  The world of a kernel with the three views, the committing block and the height and
  round of the state machine; nothing is in flight and nothing has happened yet.
\<close>

definition world_of ::
  "(SigProof, Validator, nat list) View \<Rightarrow> (SigProof, Validator, nat list) View
     \<Rightarrow> (SigProof, Validator, nat list) View \<Rightarrow> (Validator, nat list) Block
     \<Rightarrow> 64 word \<Rightarrow> 32 word
     \<Rightarrow> (SigProof, Validator, nat list, (SigProof, Validator, nat list) SMView) World" where
  "world_of c v n cb smh smr =
     \<lparr>KS = \<lparr>Committing = c, Voting = v, NextRound = n, CommittingBlock = cb,
            InFlightFetchPBs = Map.empty,
            StateMachineView = \<lparr>SM_H = smh, SM_R = smr, SM_PubKey = ''A'', SM_Pending = None\<rparr>,
            NilVotedRound = None\<rparr>,
      Effects = []\<rparr>"

subsection \<open>Example runs\<close>

text \<open>
  A kernel of initial height 1 whose fetch channel always has room, started on the four
  validators: no committing view yet, voting on height 1 round 0, the state machine on the
  same round.
\<close>

definition zero_View :: "('p, 'v, 's) View" where
  "zero_View = \<lparr>VRV = zero_VRV, Outgoing = zero_OutgoingView\<rparr>"

definition ex_kernel ::
  "(SigProof, Validator, nat list, (SigProof, Validator, nat list) SMView) Kernel" where
  "ex_kernel = spec_kernel 1 (\<lambda>h x. RequestSent)"

definition ex_start ::
  "(SigProof, Validator, nat list, (SigProof, Validator, nat list) SMView) World" where
  "ex_start =
     world_of zero_View (view_of 1 0 [] nil_votes nil_votes) (view_of 1 1 [] nil_votes nil_votes)
       zero_Block 1 0"

text \<open>A prevote and a precommit of the first validator for the block hash \<open>a\<close>, both against
  version 0 of that hash, with response channel 0.\<close>

definition ex_prevote :: "SigProof AddPrevoteRequest" where
  "ex_prevote =
     \<lparr>PV_H = 1, PV_R = 0,
      PrevoteUpdates = [(''a'', \<lparr>Proof = signed_by [0], PrevVersion = 0\<rparr>)],
      PV_Response = Some 0\<rparr>"

definition ex_precommit :: "SigProof AddPrecommitRequest" where
  "ex_precommit =
     \<lparr>PC_H = 1, PC_R = 0,
      PrecommitUpdates = [(''a'', \<lparr>Proof = signed_by [0], PrevVersion = 0\<rparr>)],
      PC_Response = Some 0\<rparr>"

text \<open>The same votes against version 5 of the hash, which the voting view does not have.\<close>

definition ex_stale_prevote :: "SigProof AddPrevoteRequest" where
  "ex_stale_prevote =
     \<lparr>PV_H = 1, PV_R = 0,
      PrevoteUpdates = [(''a'', \<lparr>Proof = signed_by [0], PrevVersion = 5\<rparr>)],
      PV_Response = Some 0\<rparr>"

definition ex_stale_precommit :: "SigProof AddPrecommitRequest" where
  "ex_stale_precommit =
     \<lparr>PC_H = 1, PC_R = 0,
      PrecommitUpdates = [(''a'', \<lparr>Proof = signed_by [0], PrevVersion = 5\<rparr>)],
      PC_Response = Some 0\<rparr>"

text \<open>
  A later world: height 2 round 0 is committing the block \<open>b2\<close>, voting is on height 3
  round 1; a prevote for height 1 and a nil precommit for height 3 round 0 arrive.
\<close>

definition ex_later ::
  "(SigProof, Validator, nat list, (SigProof, Validator, nat list) SMView) World" where
  "ex_later =
     world_of
       (view_of 2 0 [proposed (block_at ''b2'' 2 ''b1'') 0 ''sig2'']
          nil_votes [([], signed_by [], 0), (''b2'', signed_by [0, 1, 2], 1)])
       (view_of 3 1 [] nil_votes nil_votes) (view_of 3 2 [] nil_votes nil_votes)
       (block_at ''b2'' 2 ''b1'') 3 1"

definition ex_old_prevote :: "SigProof AddPrevoteRequest" where
  "ex_old_prevote =
     \<lparr>PV_H = 1, PV_R = 0,
      PrevoteUpdates = [(''b1'', \<lparr>Proof = signed_by [3], PrevVersion = 0\<rparr>)],
      PV_Response = Some 7\<rparr>"

definition ex_orphaned_precommit :: "SigProof AddPrecommitRequest" where
  "ex_orphaned_precommit =
     \<lparr>PC_H = 3, PC_R = 0,
      PrecommitUpdates = [([], \<lparr>Proof = signed_by [3], PrevVersion = 0\<rparr>)],
      PC_Response = Some 8\<rparr>"

text \<open>The start world with a proposed block for the hash \<open>a\<close> in the voting view.\<close>

definition ex_with_pb ::
  "(SigProof, Validator, nat list, (SigProof, Validator, nat list) SMView) World" where
  "ex_with_pb =
     world_of zero_View
       (view_of 1 0 [proposed (block_at ''a'' 1 []) 0 ''sigA''] nil_votes nil_votes)
       (view_of 1 1 [] nil_votes nil_votes) zero_Block 1 0"

text \<open>
  A world in which three of the four validators have precommitted the hash \<open>b\<close> in the
  voting view and no proposed block has arrived; a kernel whose channel of fetch requests
  is always full; and the precommit request of those three validators.
\<close>

definition ex_stuck ::
  "(SigProof, Validator, nat list, (SigProof, Validator, nat list) SMView) World" where
  "ex_stuck =
     world_of zero_View
       (view_of 1 0 [] nil_votes [([], signed_by [], 0), (''b'', signed_by [0, 1, 2], 1)])
       (view_of 1 1 [] nil_votes nil_votes) zero_Block 1 0"

definition ex_full_kernel ::
  "(SigProof, Validator, nat list, (SigProof, Validator, nat list) SMView) Kernel" where
  "ex_full_kernel = spec_kernel 1 (\<lambda>h x. ChannelFull)"

definition ex_precommit_b :: "SigProof AddPrecommitRequest" where
  "ex_precommit_b =
     \<lparr>PC_H = 1, PC_R = 0,
      PrecommitUpdates = [(''b'', \<lparr>Proof = signed_by [0, 1, 2], PrevVersion = 0\<rparr>)],
      PC_Response = Some 0\<rparr>"

text \<open>
  A world ready to commit: height 1 round 0 is committing the block \<open>b1\<close>, and in the voting
  view of height 2 round 0 the block \<open>b2\<close> is proposed and three of the four validators
  have precommitted it.
\<close>

definition ex_ready ::
  "(SigProof, Validator, nat list, (SigProof, Validator, nat list) SMView) World" where
  "ex_ready =
     world_of
       (view_of 1 0 [proposed (block_at ''b1'' 1 []) 0 ''sig1'']
          nil_votes [([], signed_by [], 0), (''b1'', signed_by [0, 1, 2], 1)])
       (view_of 2 0 [proposed (block_at ''b2'' 2 ''b1'') 0 ''sig2'']
          nil_votes [([], signed_by [], 0), (''b2'', signed_by [0, 1, 2], 1)])
       (view_of 2 1 [] nil_votes nil_votes)
       (block_at ''b1'' 1 []) 2 0"

text \<open>
  The vote proofs of an update in the start world: the first two validators have voted
  for the hash \<open>c\<close>, the third one for the hash \<open>d\<close>, and nobody for nil.
\<close>

definition ex_proofs :: "SigProof gomap" where
  "ex_proofs = Some [([], signed_by []), (''c'', signed_by [0, 1]), (''d'', signed_by [2])]"

text \<open>
  Modelled from the spec: \<^verbatim>\<open>(*View).UpdateOutgoing\<close>, whose code is not part of the sources
  at hand, with the overall version. The specification has the overall version increase
  whenever a subordinate version or set does, and the kernel sets \<^verbatim>\<open>Version\<close> to 0 right
  before the call when it starts a round; so here the call increments \<^verbatim>\<open>Version\<close>, clones
  the current state and clears \<^verbatim>\<open>sent\<close>.
\<close>

definition UpdateOutgoing_versioned :: "('p, 'v, 's) View \<Rightarrow> ('p, 'v, 's) View" where
  "UpdateOutgoing_versioned v =
     (let vrv = (VRV v)\<lparr>Version := Version (VRV v) + 1\<rparr>
      in v\<lparr>VRV := vrv, Outgoing := \<lparr>Out_VRV = VersionedRoundView_Clone vrv, sent = False\<rparr>\<rparr>)"

text \<open>The example kernel with that \<^verbatim>\<open>UpdateOutgoing\<close>.\<close>

definition ex_versioned_kernel ::
  "(SigProof, Validator, nat list, (SigProof, Validator, nat list) SMView) Kernel" where
  "ex_versioned_kernel = ex_kernel\<lparr>UpdateOutgoing := UpdateOutgoing_versioned\<rparr>"

section \<open>Theorems\<close>

subsection \<open>Resetting a view for the same height\<close>

lemma map_clear_get [simp]: "map_get (map_clear m) h = None"
  by (simp add: map_get_def map_clear_def split: option.splits)

lemma map_clear_len [simp]: "map_len (map_clear m) = 0"
  by (simp add: map_len_def map_clear_def split: option.splits)

text \<open>
  C10. For every round view and every versioned round view, \<^verbatim>\<open>ResetForSameHeight\<close> leaves
  the height, the validators and the two validator hashes as they are, sets the round to 0,
  empties the proposed blocks, and clears both proof maps (no key has a proof afterwards and
  the maps have length 0); the versioned variant also zeroes \<^verbatim>\<open>Version\<close>,
  \<^verbatim>\<open>PrevoteVersion\<close> and \<^verbatim>\<open>PrecommitVersion\<close> and clears both maps of per-block versions.
\<close>

theorem ResetForSameHeight_fields:
  fixes rv :: "('p, 'v, 's) RoundView" and vrv :: "('p, 'v, 's) VersionedRoundView"
    and vsr :: "VoteSummary \<Rightarrow> VoteSummary"
  defines "rv' \<equiv> RoundView_ResetForSameHeight vsr rv"
    and "vrv' \<equiv> VersionedRoundView_ResetForSameHeight vsr vrv"
  shows "Height rv' = Height rv \<and> Validators rv' = Validators rv
       \<and> ValidatorPubKeyHash rv' = ValidatorPubKeyHash rv
       \<and> ValidatorVotePowerHash rv' = ValidatorVotePowerHash rv
       \<and> Round rv' = 0 \<and> ProposedBlocks rv' = []
       \<and> map_get (PrevoteProofs rv') h = None \<and> map_len (PrevoteProofs rv') = 0
       \<and> map_get (PrecommitProofs rv') h = None \<and> map_len (PrecommitProofs rv') = 0
       \<and> Height vrv' = Height vrv \<and> Validators vrv' = Validators vrv
       \<and> ValidatorPubKeyHash vrv' = ValidatorPubKeyHash vrv
       \<and> ValidatorVotePowerHash vrv' = ValidatorVotePowerHash vrv
       \<and> Round vrv' = 0 \<and> ProposedBlocks vrv' = []
       \<and> map_get (PrevoteProofs vrv') h = None \<and> map_len (PrevoteProofs vrv') = 0
       \<and> map_get (PrecommitProofs vrv') h = None \<and> map_len (PrecommitProofs vrv') = 0
       \<and> Version vrv' = 0 \<and> PrevoteVersion vrv' = 0 \<and> PrecommitVersion vrv' = 0
       \<and> PrevoteBlockVersions vrv' h = None \<and> PrecommitBlockVersions vrv' h = None"
  by (simp add: rv'_def vrv'_def RoundView_ResetForSameHeight_def
      VersionedRoundView_ResetForSameHeight_def resetVersions_def)

subsection \<open>Evaluation of concrete runs\<close>

lemmas run_defs =
  addPrevote_def addPrecommit_def installPrevotes_def installPrecommits_def
  afterPrevotes_def afterPrecommits_def checkMissingPBs_def
  checkPrevoteViewShift_def checkVotingPrecommitViewShift_def
  checkNextRoundPrecommitViewShift_def advanceVotingRound_def commitVotingView_def
  getInitialNilProofs_def addPB_def cancelInFlight_def handleStateMachineAction_def
  vote_result_def respond_def emit_def warn_on_def read0_def
  map_get_def map_len_def map_keys_def map_put_def map_clear_def ensure_nil_proof_def
  ByzantineMajority_def ByzantineMinority_def
  RoundView_ResetForSameHeight_def RoundView_Reset_def resetVersions_def
  VersionedRoundView_ResetForSameHeight_def VersionedRoundView_Reset_def
  clone_proofs_def RoundView_Clone_def VersionedRoundView_Clone_def
  zero_VoteSummary_def zero_VRV_def zero_OutgoingView_def zero_View_def

lemmas spec_defs =
  spec_kernel_def FindView_spec_def UpdateOutgoing_spec_def
  SetPrevotePowers_spec_def SetPrecommitPowers_spec_def SetAvailablePower_spec_def
  VoteSummary_ResetForSameHeight_spec_def newVoteDistribution_spec_def
  MergeSparse_spec_def AddSignature_spec_def proof_power_def block_powers_def
  vals4_def signed_by_def zero_CommitProof_def zero_Block_def block_at_def proposed_def
  view_of_def nil_votes_def world_of_def

lemmas ex_defs = ex_kernel_def ex_start_def ex_prevote_def ex_precommit_def
  ex_stale_prevote_def ex_stale_precommit_def ex_later_def
  ex_old_prevote_def ex_orphaned_precommit_def ex_with_pb_def
  ex_stuck_def ex_full_kernel_def ex_precommit_b_def
  ex_ready_def
  ex_proofs_def
  UpdateOutgoing_versioned_def ex_versioned_kernel_def

subsection \<open>Installing votes\<close>






lemma applyVoteUpdates_none:
  "\<not> list_ex (\<lambda>(h, u). PrevVersion u = read0 ver h) us \<Longrightarrow>
   applyVoteUpdates us pr ver all any = Inr (pr, ver, all \<and> us = [], any)"
  by (induction us arbitrary: all) auto

lemma KS_emit [simp]: "KS (emit e w) = KS w"
  by (simp add: emit_def)

lemma KS_respond [simp]: "KS (respond ch res w) = KS w"
  by (simp add: respond_def split: option.splits)

lemma KS_warn_on [simp]: "KS (warn_on err msg w) = KS w"
  by (simp add: warn_on_def split: option.splits)

lemma get_set_view [simp]: "get_view ref (set_view ref v s) = v"
  by (cases ref) simp_all

lemma set_get_view [simp]: "set_view ref (get_view ref s) s = s"
  by (cases ref) simp_all

lemma Effects_respond_Some [simp]:
  "Effects (respond (Some c) res w) = Effects w @ [Reply c res]"
  by (simp add: respond_def emit_def)

lemma Effects_respond_None [simp]: "Effects (respond None res w) = Effects w"
  by (simp add: respond_def)

subsection \<open>Missing proposed blocks\<close>

lemma InFlight_id: "\<exists>f. s = s\<lparr>InFlightFetchPBs := f\<rparr>"
  by (rule exI [where x = "InFlightFetchPBs s"]) simp

lemma sendFetchRequests_KS:
  "\<exists>f. KS (sendFetchRequests k d m hs w) = (KS w)\<lparr>InFlightFetchPBs := f\<rparr>"
proof (induction hs arbitrary: w)
  case Nil
  show ?case using InFlight_id [of "KS w"] by simp
next
  case (Cons x hs)
  show ?case
  proof (cases "read0 (BlockVotePower d) x < m")
    case True
    then show ?thesis using Cons.IH [of w] by simp
  next
    case False
    show ?thesis
    proof (cases "FetchRequests_select k (Height (VRV (Voting (KS w)))) x")
      case CtxDone
      with False show ?thesis using InFlight_id [of "KS w"] by (simp add: Let_def)
    next
      case RequestSent
      from Cons.IH [of "(emit (FetchRequest (Height (VRV (Voting (KS w)))) x) w)
                     \<lparr>KS := (KS w)\<lparr>InFlightFetchPBs :=
                        (InFlightFetchPBs (KS w))(x \<mapsto> CancelFunc (Height (VRV (Voting (KS w)))) x)\<rparr>\<rparr>"]
      show ?thesis using False RequestSent by (auto simp: Let_def)
    next
      case ChannelFull
      from Cons.IH [of "emit (LogWarn ''Blocked sending fetch request; kernel may deadlock if this block reaches consensus'') w"]
      show ?thesis using False ChannelFull by (auto simp: Let_def)
    qed
  qed
qed

lemma sendFetchRequests_Effects:
  "\<exists>es. Effects (sendFetchRequests k d m hs w) = Effects w @ es
      \<and> list_all (\<lambda>e. case e of FetchRequest h x \<Rightarrow> True | LogWarn msg \<Rightarrow> True | _ \<Rightarrow> False) es"
proof (induction hs arbitrary: w)
  case Nil
  show ?case by simp
next
  case (Cons x hs)
  show ?case
  proof (cases "read0 (BlockVotePower d) x < m")
    case True
    then show ?thesis using Cons.IH [of w] by simp
  next
    case False
    show ?thesis
    proof (cases "FetchRequests_select k (Height (VRV (Voting (KS w)))) x")
      case CtxDone
      with False show ?thesis by (simp add: Let_def)
    next
      case RequestSent
      from Cons.IH [of "(emit (FetchRequest (Height (VRV (Voting (KS w)))) x) w)
                     \<lparr>KS := (KS w)\<lparr>InFlightFetchPBs :=
                        (InFlightFetchPBs (KS w))(x \<mapsto> CancelFunc (Height (VRV (Voting (KS w)))) x)\<rparr>\<rparr>"]
      obtain es where
        "Effects (sendFetchRequests k d m hs
            ((emit (FetchRequest (Height (VRV (Voting (KS w)))) x) w)
                     \<lparr>KS := (KS w)\<lparr>InFlightFetchPBs :=
                        (InFlightFetchPBs (KS w))(x \<mapsto> CancelFunc (Height (VRV (Voting (KS w)))) x)\<rparr>\<rparr>))
          = Effects w @ FetchRequest (Height (VRV (Voting (KS w)))) x # es"
        "list_all (\<lambda>e. case e of FetchRequest h x \<Rightarrow> True | LogWarn msg \<Rightarrow> True | _ \<Rightarrow> False) es"
        by (auto simp: emit_def)
      then show ?thesis using False RequestSent
        by (intro exI [where x = "FetchRequest (Height (VRV (Voting (KS w)))) x # es"])
           (simp add: Let_def)
    next
      case ChannelFull
      from Cons.IH [of "emit (LogWarn ''Blocked sending fetch request; kernel may deadlock if this block reaches consensus'') w"]
      obtain es where
        "Effects (sendFetchRequests k d m hs
            (emit (LogWarn ''Blocked sending fetch request; kernel may deadlock if this block reaches consensus'') w))
          = Effects w @ LogWarn ''Blocked sending fetch request; kernel may deadlock if this block reaches consensus'' # es"
        "list_all (\<lambda>e. case e of FetchRequest h x \<Rightarrow> True | LogWarn msg \<Rightarrow> True | _ \<Rightarrow> False) es"
        by (auto simp: emit_def)
      then show ?thesis using False ChannelFull
        by (intro exI [where x = "LogWarn ''Blocked sending fetch request; kernel may deadlock if this block reaches consensus'' # es"])
           (simp add: Let_def)
    qed
  qed
qed

lemma marked_filter:
  "\<forall>h\<in>set ms. h \<noteq> [] \<Longrightarrow>
   filter (\<lambda>x. x \<noteq> []) (map (\<lambda>h. if P h then [] else h) ms) = filter (\<lambda>h. \<not> P h) ms"
  by (induction ms) auto

lemma not_skipped_filter: "\<not> list_ex P ms \<Longrightarrow> filter (\<lambda>h. \<not> P h) ms = ms"
  by (induction ms) auto

text \<open>The hashes that \<^verbatim>\<open>checkMissingPBs\<close> tries to fetch, before the power threshold.\<close>

lemma checkMissingPBs_eq:
  "checkMissingPBs k w proofs =
     (if map_len proofs = 0 then Inl (Panic ''makeslice: cap out of range'')
      else Inr (sendFetchRequests k
                  (newVoteDistribution k proofs (Validators (VRV (Voting (KS w)))))
                  (ByzantineMinority (AvailableVotePower
                     (newVoteDistribution k proofs (Validators (VRV (Voting (KS w)))))))
                  (filter (\<lambda>h. h \<noteq> []
                        \<and> h \<notin> set (map (\<lambda>pb. Hash (PB_Block pb)) (ProposedBlocks (VRV (Voting (KS w)))))
                        \<and> InFlightFetchPBs (KS w) h = None)
                     (map_keys proofs))
                  w))"
proof -
  define hv where "hv = map (\<lambda>pb. Hash (PB_Block pb)) (ProposedBlocks (VRV (Voting (KS w))))"
  define ms where "ms = filter (\<lambda>b. b \<noteq> [] \<and> b \<notin> set hv) (map_keys proofs)"
  define P where "P = (\<lambda>h. InFlightFetchPBs (KS w) h \<noteq> None)"
  define d where "d = newVoteDistribution k proofs (Validators (VRV (Voting (KS w))))"
  have ne: "\<forall>h\<in>set ms. h \<noteq> []" by (simp add: ms_def)
  have F: "filter (\<lambda>h. h \<noteq> [] \<and> h \<notin> set hv \<and> InFlightFetchPBs (KS w) h = None) (map_keys proofs)
             = filter (\<lambda>h. \<not> P h) ms"
    by (simp add: ms_def P_def conj_ac)
  have U: "checkMissingPBs k w proofs =
     (if map_len proofs = 0 then Inl (Panic ''makeslice: cap out of range'')
      else if ms = [] then Inr w
      else if list_ex P ms
              \<and> (if list_ex P ms
                  then filter (\<lambda>x. x \<noteq> []) (map (\<lambda>h. if P h then [] else h) ms) else ms) = []
           then Inr w
           else Inr (sendFetchRequests k d (ByzantineMinority (AvailableVotePower d))
                       (if list_ex P ms
                        then filter (\<lambda>x. x \<noteq> []) (map (\<lambda>h. if P h then [] else h) ms) else ms)
                       w))"
    unfolding checkMissingPBs_def Let_def ms_def P_def hv_def d_def by (rule refl)
  have "checkMissingPBs k w proofs =
     (if map_len proofs = 0 then Inl (Panic ''makeslice: cap out of range'')
      else Inr (sendFetchRequests k d (ByzantineMinority (AvailableVotePower d))
                  (filter (\<lambda>h. \<not> P h) ms) w))"
  proof (cases "list_ex P ms")
    case True
    then show ?thesis unfolding U by (simp add: marked_filter [OF ne])
  next
    case False
    then show ?thesis unfolding U by (auto simp: not_skipped_filter)
  qed
  then show ?thesis unfolding F [symmetric] hv_def d_def .
qed

lemma checkMissingPBs_frame:
  assumes "map_len proofs \<noteq> 0"
  shows "\<exists>w' f es. checkMissingPBs k w proofs = Inr w'
      \<and> KS w' = (KS w)\<lparr>InFlightFetchPBs := f\<rparr>
      \<and> Effects w' = Effects w @ es
      \<and> list_all (\<lambda>e. case e of FetchRequest h x \<Rightarrow> True | LogWarn msg \<Rightarrow> True | _ \<Rightarrow> False) es"
proof -
  let ?d = "newVoteDistribution k proofs (Validators (VRV (Voting (KS w))))"
  let ?hs = "filter (\<lambda>h. h \<noteq> []
                \<and> h \<notin> set (map (\<lambda>pb. Hash (PB_Block pb)) (ProposedBlocks (VRV (Voting (KS w)))))
                \<and> InFlightFetchPBs (KS w) h = None) (map_keys proofs)"
  let ?w' = "sendFetchRequests k ?d (ByzantineMinority (AvailableVotePower ?d)) ?hs w"
  from assms have r: "checkMissingPBs k w proofs = Inr ?w'"
    unfolding checkMissingPBs_eq by simp
  from sendFetchRequests_KS obtain f where f: "KS ?w' = (KS w)\<lparr>InFlightFetchPBs := f\<rparr>"
    by blast
  from sendFetchRequests_Effects obtain es where
    es: "Effects ?w' = Effects w @ es"
        "list_all (\<lambda>e. case e of FetchRequest h x \<Rightarrow> True | LogWarn msg \<Rightarrow> True | _ \<Rightarrow> False) es"
    by blast
  from r f es show ?thesis by blast
qed

subsection \<open>Stale votes\<close>

lemma addPrevote_stale:
  assumes found: "FindView k (KS w) (PV_H req) (PV_R req) = (Some ref, vID, ViewFound)"
    and vid: "vID = ViewIDCommitting \<or> vID = ViewIDVoting \<or> vID = ViewIDNextRound"
    and ne: "PrevoteUpdates req \<noteq> []"
    and stale: "list_all (\<lambda>(h, u). PrevVersion u \<noteq> read0 (PrevoteBlockVersions (VRV (get_view ref (KS w)))) h)
          (PrevoteUpdates req)"
    and len: "map_len (PrevoteProofs (VRV (get_view ref (KS w)))) \<noteq> 0"
  shows "\<exists>w' es. addPrevote k req w = Inr w'
      \<and> Committing (KS w') = Committing (KS w)
      \<and> Voting (KS w') = Voting (KS w)
      \<and> NextRound (KS w') = NextRound (KS w)
      \<and> CommittingBlock (KS w') = CommittingBlock (KS w)
      \<and> NilVotedRound (KS w') = NilVotedRound (KS w)
      \<and> StateMachineView (KS w') = StateMachineView (KS w)
      \<and> Effects w' = Effects w
           @ (case PV_Response req of None \<Rightarrow> [] | Some c \<Rightarrow> [Reply c AddVoteConflict]) @ es
      \<and> list_all (\<lambda>e. case e of FetchRequest h x \<Rightarrow> True | LogWarn msg \<Rightarrow> True | _ \<Rightarrow> False) es"
proof -
  let ?vrv = "VRV (get_view ref (KS w))"
  let ?w2 = "respond (PV_Response req) AddVoteConflict w"
  from stale have nex: "\<not> list_ex (\<lambda>(h, u). PrevVersion u = read0 (PrevoteBlockVersions ?vrv) h)
                          (PrevoteUpdates req)"
    by (auto simp: list_all_iff list_ex_iff)
  have inst: "installPrevotes k req ref w = Inr (?w2, AddVoteConflict)"
    using applyVoteUpdates_none [OF nex, of "PrevoteProofs ?vrv" True False] ne
    by (simp add: installPrevotes_def Let_def vote_result_def)
  from checkMissingPBs_frame [of "PrevoteProofs (VRV (get_view ref (KS ?w2)))" k ?w2] len
  obtain w' f es where
    c: "checkMissingPBs k ?w2 (PrevoteProofs (VRV (get_view ref (KS ?w2)))) = Inr w'" and
    ks: "KS w' = (KS ?w2)\<lparr>InFlightFetchPBs := f\<rparr>" and
    ef: "Effects w' = Effects ?w2 @ es" and
    fe: "list_all (\<lambda>e. case e of FetchRequest h x \<Rightarrow> True | LogWarn msg \<Rightarrow> True | _ \<Rightarrow> False) es"
    by auto
  have a: "addPrevote k req w = Inr w'"
    using found vid inst c by (auto simp: addPrevote_def afterPrevotes_def)
  have e2: "Effects ?w2 = Effects w
              @ (case PV_Response req of None \<Rightarrow> [] | Some c \<Rightarrow> [Reply c AddVoteConflict])"
    by (cases "PV_Response req") simp_all
  show ?thesis
    apply (rule exI [where x = w'])
    apply (rule exI [where x = es])
    using a ks ef fe e2 by simp
qed

lemma addPrecommit_stale:
  assumes found: "FindView k (KS w) (PC_H req) (PC_R req) = (Some ref, vID, ViewFound)"
    and vid: "vID = ViewIDCommitting \<or> vID = ViewIDVoting \<or> vID = ViewIDNextRound"
    and ne: "PrecommitUpdates req \<noteq> []"
    and stale: "list_all (\<lambda>(h, u). PrevVersion u \<noteq> read0 (PrecommitBlockVersions (VRV (get_view ref (KS w)))) h)
          (PrecommitUpdates req)"
    and len: "map_len (PrecommitProofs (VRV (get_view ref (KS w)))) \<noteq> 0"
  shows "\<exists>w' es. addPrecommit k req w = Inr w'
      \<and> Committing (KS w') = Committing (KS w)
      \<and> Voting (KS w') = Voting (KS w)
      \<and> NextRound (KS w') = NextRound (KS w)
      \<and> CommittingBlock (KS w') = CommittingBlock (KS w)
      \<and> NilVotedRound (KS w') = NilVotedRound (KS w)
      \<and> StateMachineView (KS w') = StateMachineView (KS w)
      \<and> Effects w' = Effects w
           @ (case PC_Response req of None \<Rightarrow> [] | Some c \<Rightarrow> [Reply c AddVoteConflict]) @ es
      \<and> list_all (\<lambda>e. case e of FetchRequest h x \<Rightarrow> True | LogWarn msg \<Rightarrow> True | _ \<Rightarrow> False) es"
proof -
  let ?vrv = "VRV (get_view ref (KS w))"
  let ?w2 = "respond (PC_Response req) AddVoteConflict w"
  from stale have nex: "\<not> list_ex (\<lambda>(h, u). PrevVersion u = read0 (PrecommitBlockVersions ?vrv) h)
                          (PrecommitUpdates req)"
    by (auto simp: list_all_iff list_ex_iff)
  have inst: "installPrecommits k req ref w = Inr (?w2, AddVoteConflict)"
    using applyVoteUpdates_none [OF nex, of "PrecommitProofs ?vrv" True False] ne
    by (simp add: installPrecommits_def Let_def vote_result_def)
  from checkMissingPBs_frame [of "PrecommitProofs (VRV (get_view ref (KS ?w2)))" k ?w2] len
  obtain w' f es where
    c: "checkMissingPBs k ?w2 (PrecommitProofs (VRV (get_view ref (KS ?w2)))) = Inr w'" and
    ks: "KS w' = (KS ?w2)\<lparr>InFlightFetchPBs := f\<rparr>" and
    ef: "Effects w' = Effects ?w2 @ es" and
    fe: "list_all (\<lambda>e. case e of FetchRequest h x \<Rightarrow> True | LogWarn msg \<Rightarrow> True | _ \<Rightarrow> False) es"
    by auto
  have a: "addPrecommit k req w = Inr w'"
    using found vid inst c by (auto simp: addPrecommit_def afterPrecommits_def)
  have e2: "Effects ?w2 = Effects w
              @ (case PC_Response req of None \<Rightarrow> [] | Some c \<Rightarrow> [Reply c AddVoteConflict])"
    by (cases "PC_Response req") simp_all
  show ?thesis
    apply (rule exI [where x = w'])
    apply (rule exI [where x = es])
    using a ks ef fe e2 by simp
qed

text \<open>
  C5. For every add-prevote request, and in the same way for every add-precommit request,
  on a found view (one of the three views, whose proof map of the vote kind has an entry,
  as every initialised view has for the nil hash) that has at least one update and in which
  the \<^verbatim>\<open>PrevVersion\<close> of every update differs from the version the view has for the hash:
  the handler returns, the reply is \<^verbatim>\<open>Conflict\<close> (sent when the request has a response
  channel), the three views are unchanged (no proof, no per-hash version, no vote summary
  and no outgoing view changes), as are the committing block, the nil voted round and the
  state machine view, and the only other effects are those of the check for missing
  proposed blocks that follows the reply, fetch requests and its warning: no store call.
\<close>

theorem stale_votes_conflict:
  fixes k :: "('p, 'v, 's, 'm) Kernel" and w :: "('p, 'v, 's, 'm) World"
  shows
  "(FindView k (KS w) (PV_H req) (PV_R req) = (Some ref, vID, ViewFound)
    \<and> (vID = ViewIDCommitting \<or> vID = ViewIDVoting \<or> vID = ViewIDNextRound)
    \<and> PrevoteUpdates req \<noteq> []
    \<and> list_all (\<lambda>(h, u). PrevVersion u \<noteq> read0 (PrevoteBlockVersions (VRV (get_view ref (KS w)))) h)
          (PrevoteUpdates req)
    \<and> map_len (PrevoteProofs (VRV (get_view ref (KS w)))) \<noteq> 0
   \<longrightarrow> (\<exists>w' es. addPrevote k req w = Inr w'
      \<and> Committing (KS w') = Committing (KS w)
      \<and> Voting (KS w') = Voting (KS w)
      \<and> NextRound (KS w') = NextRound (KS w)
      \<and> CommittingBlock (KS w') = CommittingBlock (KS w)
      \<and> NilVotedRound (KS w') = NilVotedRound (KS w)
      \<and> StateMachineView (KS w') = StateMachineView (KS w)
      \<and> Effects w' = Effects w
           @ (case PV_Response req of None \<Rightarrow> [] | Some c \<Rightarrow> [Reply c AddVoteConflict]) @ es
      \<and> list_all (\<lambda>e. case e of FetchRequest h x \<Rightarrow> True | LogWarn msg \<Rightarrow> True | _ \<Rightarrow> False) es))
 \<and> (FindView k (KS w) (PC_H req') (PC_R req') = (Some ref', vID', ViewFound)
    \<and> (vID' = ViewIDCommitting \<or> vID' = ViewIDVoting \<or> vID' = ViewIDNextRound)
    \<and> PrecommitUpdates req' \<noteq> []
    \<and> list_all (\<lambda>(h, u). PrevVersion u \<noteq> read0 (PrecommitBlockVersions (VRV (get_view ref' (KS w)))) h)
          (PrecommitUpdates req')
    \<and> map_len (PrecommitProofs (VRV (get_view ref' (KS w)))) \<noteq> 0
   \<longrightarrow> (\<exists>w' es. addPrecommit k req' w = Inr w'
      \<and> Committing (KS w') = Committing (KS w)
      \<and> Voting (KS w') = Voting (KS w)
      \<and> NextRound (KS w') = NextRound (KS w)
      \<and> CommittingBlock (KS w') = CommittingBlock (KS w)
      \<and> NilVotedRound (KS w') = NilVotedRound (KS w)
      \<and> StateMachineView (KS w') = StateMachineView (KS w)
      \<and> Effects w' = Effects w
           @ (case PC_Response req' of None \<Rightarrow> [] | Some c \<Rightarrow> [Reply c AddVoteConflict]) @ es
      \<and> list_all (\<lambda>e. case e of FetchRequest h x \<Rightarrow> True | LogWarn msg \<Rightarrow> True | _ \<Rightarrow> False) es))"
proof (intro conjI impI)
  assume "FindView k (KS w) (PV_H req) (PV_R req) = (Some ref, vID, ViewFound)
    \<and> (vID = ViewIDCommitting \<or> vID = ViewIDVoting \<or> vID = ViewIDNextRound)
    \<and> PrevoteUpdates req \<noteq> []
    \<and> list_all (\<lambda>(h, u). PrevVersion u \<noteq> read0 (PrevoteBlockVersions (VRV (get_view ref (KS w)))) h)
          (PrevoteUpdates req)
    \<and> map_len (PrevoteProofs (VRV (get_view ref (KS w)))) \<noteq> 0"
  then show "\<exists>w' es. addPrevote k req w = Inr w'
      \<and> Committing (KS w') = Committing (KS w)
      \<and> Voting (KS w') = Voting (KS w)
      \<and> NextRound (KS w') = NextRound (KS w)
      \<and> CommittingBlock (KS w') = CommittingBlock (KS w)
      \<and> NilVotedRound (KS w') = NilVotedRound (KS w)
      \<and> StateMachineView (KS w') = StateMachineView (KS w)
      \<and> Effects w' = Effects w
           @ (case PV_Response req of None \<Rightarrow> [] | Some c \<Rightarrow> [Reply c AddVoteConflict]) @ es
      \<and> list_all (\<lambda>e. case e of FetchRequest h x \<Rightarrow> True | LogWarn msg \<Rightarrow> True | _ \<Rightarrow> False) es"
    by (elim conjE) (rule addPrevote_stale; assumption)
next
  assume "FindView k (KS w) (PC_H req') (PC_R req') = (Some ref', vID', ViewFound)
    \<and> (vID' = ViewIDCommitting \<or> vID' = ViewIDVoting \<or> vID' = ViewIDNextRound)
    \<and> PrecommitUpdates req' \<noteq> []
    \<and> list_all (\<lambda>(h, u). PrevVersion u \<noteq> read0 (PrecommitBlockVersions (VRV (get_view ref' (KS w)))) h)
          (PrecommitUpdates req')
    \<and> map_len (PrecommitProofs (VRV (get_view ref' (KS w)))) \<noteq> 0"
  then show "\<exists>w' es. addPrecommit k req' w = Inr w'
      \<and> Committing (KS w') = Committing (KS w)
      \<and> Voting (KS w') = Voting (KS w)
      \<and> NextRound (KS w') = NextRound (KS w)
      \<and> CommittingBlock (KS w') = CommittingBlock (KS w)
      \<and> NilVotedRound (KS w') = NilVotedRound (KS w)
      \<and> StateMachineView (KS w') = StateMachineView (KS w)
      \<and> Effects w' = Effects w
           @ (case PC_Response req' of None \<Rightarrow> [] | Some c \<Rightarrow> [Reply c AddVoteConflict]) @ es
      \<and> list_all (\<lambda>e. case e of FetchRequest h x \<Rightarrow> True | LogWarn msg \<Rightarrow> True | _ \<Rightarrow> False) es"
    by (elim conjE) (rule addPrecommit_stale; assumption)
qed

text \<open>
  The theorem at the stale example votes: both are answered with \<^verbatim>\<open>Conflict\<close>, and the
  reply is all that happens.
\<close>

theorem stale_votes_conflict_witness:
  "FindView ex_kernel (KS ex_start) (PV_H ex_stale_prevote) (PV_R ex_stale_prevote)
     = (Some RefVoting, ViewIDVoting, ViewFound)
 \<and> PrevoteUpdates ex_stale_prevote \<noteq> []
 \<and> list_all (\<lambda>(h, u). PrevVersion u
        \<noteq> read0 (PrevoteBlockVersions (VRV (get_view RefVoting (KS ex_start)))) h)
      (PrevoteUpdates ex_stale_prevote)
 \<and> map_len (PrevoteProofs (VRV (get_view RefVoting (KS ex_start)))) \<noteq> 0
 \<and> (\<exists>w'. addPrevote ex_kernel ex_stale_prevote ex_start = Inr w'
        \<and> Voting (KS w') = Voting (KS ex_start))
 \<and> FindView ex_kernel (KS ex_start) (PC_H ex_stale_precommit) (PC_R ex_stale_precommit)
     = (Some RefVoting, ViewIDVoting, ViewFound)
 \<and> PrecommitUpdates ex_stale_precommit \<noteq> []
 \<and> list_all (\<lambda>(h, u). PrevVersion u
        \<noteq> read0 (PrecommitBlockVersions (VRV (get_view RefVoting (KS ex_start)))) h)
      (PrecommitUpdates ex_stale_precommit)
 \<and> map_len (PrecommitProofs (VRV (get_view RefVoting (KS ex_start)))) \<noteq> 0
 \<and> (\<exists>w'. addPrecommit ex_kernel ex_stale_precommit ex_start = Inr w'
        \<and> Voting (KS w') = Voting (KS ex_start))
 \<and> addPrevote ex_kernel ex_stale_prevote ex_start
     = Inr (ex_start\<lparr>Effects := [Reply 0 AddVoteConflict]\<rparr>)
 \<and> addPrecommit ex_kernel ex_stale_precommit ex_start
     = Inr (ex_start\<lparr>Effects := [Reply 0 AddVoteConflict]\<rparr>)"
proof -
  have h1: "FindView ex_kernel (KS ex_start) (PV_H ex_stale_prevote) (PV_R ex_stale_prevote)
       = (Some RefVoting, ViewIDVoting, ViewFound)
     \<and> (ViewIDVoting = ViewIDCommitting \<or> ViewIDVoting = ViewIDVoting
          \<or> ViewIDVoting = ViewIDNextRound)
     \<and> PrevoteUpdates ex_stale_prevote \<noteq> []
     \<and> list_all (\<lambda>(h, u). PrevVersion u
            \<noteq> read0 (PrevoteBlockVersions (VRV (get_view RefVoting (KS ex_start)))) h)
          (PrevoteUpdates ex_stale_prevote)
     \<and> map_len (PrevoteProofs (VRV (get_view RefVoting (KS ex_start)))) \<noteq> 0"
    by (simp add: ex_defs run_defs spec_defs Let_def)
  have h2: "FindView ex_kernel (KS ex_start) (PC_H ex_stale_precommit) (PC_R ex_stale_precommit)
       = (Some RefVoting, ViewIDVoting, ViewFound)
     \<and> (ViewIDVoting = ViewIDCommitting \<or> ViewIDVoting = ViewIDVoting
          \<or> ViewIDVoting = ViewIDNextRound)
     \<and> PrecommitUpdates ex_stale_precommit \<noteq> []
     \<and> list_all (\<lambda>(h, u). PrevVersion u
            \<noteq> read0 (PrecommitBlockVersions (VRV (get_view RefVoting (KS ex_start)))) h)
          (PrecommitUpdates ex_stale_precommit)
     \<and> map_len (PrecommitProofs (VRV (get_view RefVoting (KS ex_start)))) \<noteq> 0"
    by (simp add: ex_defs run_defs spec_defs Let_def)
  note T = stale_votes_conflict [of ex_kernel ex_start ex_stale_prevote RefVoting ViewIDVoting
                                    ex_stale_precommit RefVoting ViewIDVoting]
  from T [THEN conjunct1, THEN mp, OF h1] have c1:
    "\<exists>w'. addPrevote ex_kernel ex_stale_prevote ex_start = Inr w'
        \<and> Voting (KS w') = Voting (KS ex_start)" by blast
  from T [THEN conjunct2, THEN mp, OF h2] have c2:
    "\<exists>w'. addPrecommit ex_kernel ex_stale_precommit ex_start = Inr w'
        \<and> Voting (KS w') = Voting (KS ex_start)" by blast
  have r1: "addPrevote ex_kernel ex_stale_prevote ex_start
     = Inr (ex_start\<lparr>Effects := [Reply 0 AddVoteConflict]\<rparr>)"
    by (simp add: ex_defs run_defs spec_defs Let_def)
  have r2: "addPrecommit ex_kernel ex_stale_precommit ex_start
     = Inr (ex_start\<lparr>Effects := [Reply 0 AddVoteConflict]\<rparr>)"
    by (simp add: ex_defs run_defs spec_defs Let_def)
  from h1 h2 c1 c2 r1 r2 show ?thesis by blast
qed

subsection \<open>Votes for rounds that are gone\<close>

lemma addPrevote_out_of_date:
  assumes "FindView k (KS w) (PV_H req) (PV_R req) = (view, vID, vStatus)"
    and "vStatus = ViewBeforeCommitting \<or> vStatus = ViewOrphaned"
  shows "\<exists>w'. addPrevote k req w = Inr w'
      \<and> KS w' = KS w
      \<and> Effects w' = Effects w
           @ (case PV_Response req of None \<Rightarrow> [] | Some c \<Rightarrow> [Reply c AddVoteOutOfDate])"
  using assms by (cases "PV_Response req") (auto simp: addPrevote_def)

lemma addPrecommit_out_of_date:
  assumes "FindView k (KS w) (PC_H req) (PC_R req) = (view, vID, vStatus)"
    and "vStatus = ViewBeforeCommitting \<or> vStatus = ViewOrphaned"
  shows "\<exists>w'. addPrecommit k req w = Inr w'
      \<and> KS w' = KS w
      \<and> Effects w' = Effects w
           @ (case PC_Response req of None \<Rightarrow> [] | Some c \<Rightarrow> [Reply c AddVoteOutOfDate])"
  using assms by (cases "PC_Response req") (auto simp: addPrecommit_def)

text \<open>
  C6. For every add-prevote request, and in the same way for every add-precommit request,
  whose height and round resolve to the status \<^verbatim>\<open>ViewBeforeCommitting\<close> or
  \<^verbatim>\<open>ViewOrphaned\<close>, the handler returns with the state of the kernel unchanged, and its only
  effect is the reply \<^verbatim>\<open>OutOfDate\<close> on the response channel of the request.
\<close>

theorem add_vote_out_of_date:
  fixes k :: "('p, 'v, 's, 'm) Kernel" and w :: "('p, 'v, 's, 'm) World"
  shows
  "(FindView k (KS w) (PV_H req) (PV_R req) = (view, vID, vStatus)
    \<and> (vStatus = ViewBeforeCommitting \<or> vStatus = ViewOrphaned)
   \<longrightarrow> (\<exists>w'. addPrevote k req w = Inr w'
      \<and> KS w' = KS w
      \<and> Effects w' = Effects w
           @ (case PV_Response req of None \<Rightarrow> [] | Some c \<Rightarrow> [Reply c AddVoteOutOfDate])))
 \<and> (FindView k (KS w) (PC_H req') (PC_R req') = (view', vID', vStatus')
    \<and> (vStatus' = ViewBeforeCommitting \<or> vStatus' = ViewOrphaned)
   \<longrightarrow> (\<exists>w'. addPrecommit k req' w = Inr w'
      \<and> KS w' = KS w
      \<and> Effects w' = Effects w
           @ (case PC_Response req' of None \<Rightarrow> [] | Some c \<Rightarrow> [Reply c AddVoteOutOfDate])))"
proof (intro conjI impI)
  assume "FindView k (KS w) (PV_H req) (PV_R req) = (view, vID, vStatus)
    \<and> (vStatus = ViewBeforeCommitting \<or> vStatus = ViewOrphaned)"
  then show "\<exists>w'. addPrevote k req w = Inr w'
      \<and> KS w' = KS w
      \<and> Effects w' = Effects w
           @ (case PV_Response req of None \<Rightarrow> [] | Some c \<Rightarrow> [Reply c AddVoteOutOfDate])"
    by (elim conjE) (rule addPrevote_out_of_date; assumption)
next
  assume "FindView k (KS w) (PC_H req') (PC_R req') = (view', vID', vStatus')
    \<and> (vStatus' = ViewBeforeCommitting \<or> vStatus' = ViewOrphaned)"
  then show "\<exists>w'. addPrecommit k req' w = Inr w'
      \<and> KS w' = KS w
      \<and> Effects w' = Effects w
           @ (case PC_Response req' of None \<Rightarrow> [] | Some c \<Rightarrow> [Reply c AddVoteOutOfDate])"
    by (elim conjE) (rule addPrecommit_out_of_date; assumption)
qed

text \<open>
  The theorem at the later world, with \<^verbatim>\<open>FindView\<close> after the specification: the prevote
  for height 1, below the committing height 2, is before committing, and the precommit for
  round 0 of the voting height is orphaned; both are answered with \<^verbatim>\<open>OutOfDate\<close>.
\<close>

theorem add_vote_out_of_date_witness:
  "FindView ex_kernel (KS ex_later) (PV_H ex_old_prevote) (PV_R ex_old_prevote)
     = (None, ViewIDOther 0, ViewBeforeCommitting)
 \<and> FindView ex_kernel (KS ex_later) (PC_H ex_orphaned_precommit) (PC_R ex_orphaned_precommit)
     = (None, ViewIDOther 0, ViewOrphaned)
 \<and> addPrevote ex_kernel ex_old_prevote ex_later
     = Inr (ex_later\<lparr>Effects := [Reply 7 AddVoteOutOfDate]\<rparr>)
 \<and> addPrecommit ex_kernel ex_orphaned_precommit ex_later
     = Inr (ex_later\<lparr>Effects := [Reply 8 AddVoteOutOfDate]\<rparr>)"
proof -
  have h1: "FindView ex_kernel (KS ex_later) (PV_H ex_old_prevote) (PV_R ex_old_prevote)
       = (None, ViewIDOther 0, ViewBeforeCommitting)
     \<and> (ViewBeforeCommitting = ViewBeforeCommitting \<or> ViewBeforeCommitting = ViewOrphaned)"
    by (simp add: ex_defs run_defs spec_defs Let_def)
  have h2: "FindView ex_kernel (KS ex_later) (PC_H ex_orphaned_precommit)
         (PC_R ex_orphaned_precommit) = (None, ViewIDOther 0, ViewOrphaned)
     \<and> (ViewOrphaned = ViewBeforeCommitting \<or> ViewOrphaned = ViewOrphaned)"
    by (simp add: ex_defs run_defs spec_defs Let_def)
  have e: "Effects ex_later = []"
    and r1: "PV_Response ex_old_prevote = Some 7"
    and r2: "PC_Response ex_orphaned_precommit = Some 8"
    by (simp_all add: ex_defs world_of_def)
  from add_vote_out_of_date [of ex_kernel ex_later ex_old_prevote None "ViewIDOther 0"
         ViewBeforeCommitting ex_orphaned_precommit None "ViewIDOther 0" ViewOrphaned,
         THEN conjunct1, THEN mp, OF h1]
  obtain w1 where "addPrevote ex_kernel ex_old_prevote ex_later = Inr w1"
    "KS w1 = KS ex_later" "Effects w1 = [Reply 7 AddVoteOutOfDate]"
    using e r1 by auto
  then have c1: "addPrevote ex_kernel ex_old_prevote ex_later
     = Inr (ex_later\<lparr>Effects := [Reply 7 AddVoteOutOfDate]\<rparr>)"
    by (cases w1) (simp add: World.equality)
  from add_vote_out_of_date [of ex_kernel ex_later ex_old_prevote None "ViewIDOther 0"
         ViewBeforeCommitting ex_orphaned_precommit None "ViewIDOther 0" ViewOrphaned,
         THEN conjunct2, THEN mp, OF h2]
  obtain w2 where "addPrecommit ex_kernel ex_orphaned_precommit ex_later = Inr w2"
    "KS w2 = KS ex_later" "Effects w2 = [Reply 8 AddVoteOutOfDate]"
    using e r2 by auto
  then have c2: "addPrecommit ex_kernel ex_orphaned_precommit ex_later
     = Inr (ex_later\<lparr>Effects := [Reply 8 AddVoteOutOfDate]\<rparr>)"
    by (cases w2) (simp add: World.equality)
  from h1 h2 c1 c2 show ?thesis by blast
qed

subsection \<open>Duplicate proposed blocks\<close>

lemma KS_cancelInFlight:
  "KS (cancelInFlight h w) = (KS w)\<lparr>InFlightFetchPBs := (InFlightFetchPBs (KS w))(h := None)\<rparr>"
proof (cases "InFlightFetchPBs (KS w) h")
  case None
  then have "(InFlightFetchPBs (KS w))(h := None) = InFlightFetchPBs (KS w)"
    by (rule fun_upd_idem)
  with None show ?thesis by (simp add: cancelInFlight_def)
next
  case (Some c)
  then show ?thesis by (simp add: cancelInFlight_def)
qed

lemma Effects_cancelInFlight:
  "Effects (cancelInFlight h w) =
     Effects w @ (case InFlightFetchPBs (KS w) h of None \<Rightarrow> [] | Some cancel \<Rightarrow> [Cancelled cancel])"
  by (cases "InFlightFetchPBs (KS w) h") (simp_all add: cancelInFlight_def emit_def)

lemma get_view_InFlight [simp]:
  "get_view ref (s\<lparr>InFlightFetchPBs := f\<rparr>) = get_view ref s"
  by (cases ref) simp_all

text \<open>
  C7. For every proposed block handed to \<^verbatim>\<open>addPB\<close> whose height and round match a view
  (\<^verbatim>\<open>FindView\<close> returns a view) and whose signature equals the signature of a proposed
  block that the view already has, the block is dropped: the three views (proposed blocks,
  proofs, versions, vote summary and outgoing view with its sent flag), the committing
  block, the nil voted round and the state machine view are unchanged, and the only effect
  is the cancel of an outstanding fetch for the hash of the block, whose entry is deleted:
  no store call and no log entry.
\<close>

theorem addPB_duplicate_dropped:
  fixes k :: "('p, 'v, 's, 'm) Kernel" and w :: "('p, 'v, 's, 'm) World"
  shows
  "fst (FindView k (KS (cancelInFlight (Hash (PB_Block pb)) w))
          (Block_Height (PB_Block pb)) (PB_Round pb)) = Some ref
    \<and> list_ex (\<lambda>have. Signature have = Signature pb)
         (ProposedBlocks (VRV (get_view ref (KS w))))
   \<longrightarrow> (\<exists>w'. addPB k pb w = Inr w'
      \<and> Committing (KS w') = Committing (KS w)
      \<and> Voting (KS w') = Voting (KS w)
      \<and> NextRound (KS w') = NextRound (KS w)
      \<and> CommittingBlock (KS w') = CommittingBlock (KS w)
      \<and> NilVotedRound (KS w') = NilVotedRound (KS w)
      \<and> StateMachineView (KS w') = StateMachineView (KS w)
      \<and> InFlightFetchPBs (KS w') = (InFlightFetchPBs (KS w))(Hash (PB_Block pb) := None)
      \<and> Effects w' = Effects w
           @ (case InFlightFetchPBs (KS w) (Hash (PB_Block pb)) of
                None \<Rightarrow> [] | Some cancel \<Rightarrow> [Cancelled cancel]))"
proof (intro impI, elim conjE)
  let ?w1 = "cancelInFlight (Hash (PB_Block pb)) w"
  assume f: "fst (FindView k (KS ?w1) (Block_Height (PB_Block pb)) (PB_Round pb)) = Some ref"
    and d: "list_ex (\<lambda>have. Signature have = Signature pb)
              (ProposedBlocks (VRV (get_view ref (KS w))))"
  from f obtain vID vStatus where
    fv: "FindView k (KS ?w1) (Block_Height (PB_Block pb)) (PB_Round pb) = (Some ref, vID, vStatus)"
    by (cases "FindView k (KS ?w1) (Block_Height (PB_Block pb)) (PB_Round pb)") auto
  have "addPB k pb w = Inr ?w1"
    using fv d by (simp add: addPB_def Let_def KS_cancelInFlight)
  then show "\<exists>w'. addPB k pb w = Inr w'
      \<and> Committing (KS w') = Committing (KS w)
      \<and> Voting (KS w') = Voting (KS w)
      \<and> NextRound (KS w') = NextRound (KS w)
      \<and> CommittingBlock (KS w') = CommittingBlock (KS w)
      \<and> NilVotedRound (KS w') = NilVotedRound (KS w)
      \<and> StateMachineView (KS w') = StateMachineView (KS w)
      \<and> InFlightFetchPBs (KS w') = (InFlightFetchPBs (KS w))(Hash (PB_Block pb) := None)
      \<and> Effects w' = Effects w
           @ (case InFlightFetchPBs (KS w) (Hash (PB_Block pb)) of
                None \<Rightarrow> [] | Some cancel \<Rightarrow> [Cancelled cancel])"
    by (simp add: KS_cancelInFlight Effects_cancelInFlight)
qed

text \<open>
  The theorem at the example: the voting view has a proposed block for the hash \<open>a\<close> with
  the signature \<open>sigA\<close>, and the same block arrives again; the world stays as it is.
\<close>

theorem addPB_duplicate_dropped_witness:
  "fst (FindView ex_kernel (KS (cancelInFlight ''a'' ex_with_pb)) 1 0) = Some RefVoting
 \<and> list_ex (\<lambda>have. Signature have = ''sigA'')
      (ProposedBlocks (VRV (get_view RefVoting (KS ex_with_pb))))
 \<and> addPB ex_kernel (proposed (block_at ''a'' 1 []) 0 ''sigA'') ex_with_pb = Inr ex_with_pb"
proof -
  let ?pb = "proposed (block_at ''a'' 1 []) 0 ''sigA''"
  have p: "Hash (PB_Block ?pb) = ''a''" "Block_Height (PB_Block ?pb) = 1" "PB_Round ?pb = 0"
    "Signature ?pb = ''sigA''"
    by (simp_all add: proposed_def block_at_def)
  have h: "fst (FindView ex_kernel (KS (cancelInFlight (Hash (PB_Block ?pb)) ex_with_pb))
                 (Block_Height (PB_Block ?pb)) (PB_Round ?pb)) = Some RefVoting
         \<and> list_ex (\<lambda>have. Signature have = Signature ?pb)
              (ProposedBlocks (VRV (get_view RefVoting (KS ex_with_pb))))"
    unfolding p by (simp add: ex_defs run_defs spec_defs Let_def)
  from addPB_duplicate_dropped [of ex_kernel ?pb ex_with_pb RefVoting, THEN mp, OF h]
  obtain w' where r: "addPB ex_kernel ?pb ex_with_pb = Inr w'"
    and s: "Committing (KS w') = Committing (KS ex_with_pb)"
           "Voting (KS w') = Voting (KS ex_with_pb)"
           "NextRound (KS w') = NextRound (KS ex_with_pb)"
           "CommittingBlock (KS w') = CommittingBlock (KS ex_with_pb)"
           "NilVotedRound (KS w') = NilVotedRound (KS ex_with_pb)"
           "StateMachineView (KS w') = StateMachineView (KS ex_with_pb)"
           "InFlightFetchPBs (KS w') = (InFlightFetchPBs (KS ex_with_pb))(Hash (PB_Block ?pb) := None)"
           "Effects w' = Effects ex_with_pb
              @ (case InFlightFetchPBs (KS ex_with_pb) (Hash (PB_Block ?pb)) of
                   None \<Rightarrow> [] | Some cancel \<Rightarrow> [Cancelled cancel])"
    by blast
  have nf: "InFlightFetchPBs (KS ex_with_pb) = Map.empty"
    by (simp add: ex_with_pb_def world_of_def)
  have "KS w' = KS ex_with_pb"
    using s nf by (intro kState.equality) simp_all
  moreover have "Effects w' = Effects ex_with_pb" using s nf by simp
  ultimately have "w' = ex_with_pb" by (intro World.equality) simp_all
  with r h show ?thesis unfolding p by simp
qed

subsection \<open>Advancing the voting round\<close>

lemma map_put_clear:
  "m \<noteq> None \<Longrightarrow> map_put (map_clear m) h p = Inr (Some [(h, p)])"
  by (cases m) (simp_all add: map_put_def map_clear_def)

text \<open>
  C3. Whenever \<^verbatim>\<open>advanceVotingRound\<close> runs on a voting view with allocated proof maps and
  the nil proofs for the next round can be built, it returns without an error and
  \<^item> stashes a clone of the voting view as it was in \<^verbatim>\<open>NilVotedRound\<close> (and forces it on
    the state machine view when the state machine is on that height and round),
  \<^item> swaps the versioned round views of the voting and the next round view, so that the
    voting view is the old next round view, with its version set to 0, handed to
    \<^verbatim>\<open>UpdateOutgoing\<close>,
  \<^item> resets the next round view, which now holds the old voting view, for the same height:
    height, validators and validator hashes stay, the round is the new voting round plus
    one, there are no proposed blocks, all versions are 0, and the proof maps hold the
    fresh nil prevote and nil precommit proof only; it is handed to \<^verbatim>\<open>UpdateOutgoing\<close>.
  It is what advances the round, on the same world, for a majority of nil precommits, for
  all votes in without a majority, and for the minority thresholds of the next round.
\<close>

theorem advanceVotingRound_steps:
  fixes k :: "('p, 'v, 's, 'm) Kernel" and w :: "('p, 'v, 's, 'm) World"
    and nilPrevote nilPrecommit :: 'p
  defines "s \<equiv> KS w"
    and "old \<equiv> VRV (Voting (KS w))"
    and "voting' \<equiv> UpdateOutgoing k ((Voting (KS w))\<lparr>VRV := (VRV (NextRound (KS w)))\<lparr>Version := 0\<rparr>\<rparr>)"
  defines "nr \<equiv> (VersionedRoundView_ResetForSameHeight (VoteSummary_ResetForSameHeight k) old)
                  \<lparr>Round := Round (VRV voting') + 1,
                   PrevoteProofs := Some [([], nilPrevote)],
                   PrecommitProofs := Some [([], nilPrecommit)]\<rparr>"
  shows
  "(PrevoteProofs old \<noteq> None \<and> PrecommitProofs old \<noteq> None
    \<and> getInitialNilProofs k (Height old) (Round (VRV voting') + 1) (Validators old)
         = Inr (nilPrevote, nilPrecommit)
   \<longrightarrow> advanceVotingRound k w =
         Inr (w\<lparr>KS := s\<lparr>StateMachineView :=
                          (if smH k (StateMachineView s) = Height old
                              \<and> smR k (StateMachineView s) = Round old
                           then smForceSend k (StateMachineView s) (VersionedRoundView_Clone old)
                           else StateMachineView s),
                        NilVotedRound := Some (VersionedRoundView_Clone old),
                        Voting := voting',
                        NextRound := UpdateOutgoing k ((NextRound s)\<lparr>VRV := nr\<rparr>)\<rparr>\<rparr>,
              None)
      \<and> Height nr = Height old \<and> Validators nr = Validators old
      \<and> ValidatorPubKeyHash nr = ValidatorPubKeyHash old
      \<and> ValidatorVotePowerHash nr = ValidatorVotePowerHash old
      \<and> Round nr = Round (VRV voting') + 1
      \<and> ProposedBlocks nr = []
      \<and> map_keys (PrevoteProofs nr) = [[]] \<and> map_get (PrevoteProofs nr) [] = Some nilPrevote
      \<and> map_keys (PrecommitProofs nr) = [[]] \<and> map_get (PrecommitProofs nr) [] = Some nilPrecommit
      \<and> Version nr = 0 \<and> PrevoteVersion nr = 0 \<and> PrecommitVersion nr = 0
      \<and> PrevoteBlockVersions nr = Map.empty \<and> PrecommitBlockVersions nr = Map.empty)
 \<and> (\<not> read0 (PrecommitBlockPower (VoteSummary old)) (MostVotedPrecommitHash (VoteSummary old))
        < ByzantineMajority (AvailablePower (VoteSummary old))
    \<and> MostVotedPrecommitHash (VoteSummary old) = []
   \<longrightarrow> checkVotingPrecommitViewShift k w =
         (case advanceVotingRound k w of
            Inl p \<Rightarrow> Inl p
          | Inr (w', Some e) \<Rightarrow> Inr (w', Some e)
          | Inr (w', None) \<Rightarrow>
              Inr (emit (LogInfo ''Shifted voting round due to nil precommit'') w', None)))
 \<and> (read0 (PrecommitBlockPower (VoteSummary old)) (MostVotedPrecommitHash (VoteSummary old))
        < ByzantineMajority (AvailablePower (VoteSummary old))
    \<and> TotalPrecommitPower (VoteSummary old) = AvailablePower (VoteSummary old)
   \<longrightarrow> checkVotingPrecommitViewShift k w =
         (case advanceVotingRound k w of
            Inl p \<Rightarrow> Inl p
          | Inr (w', Some e) \<Rightarrow> Inr (w', Some e)
          | Inr (w', None) \<Rightarrow>
              Inr (emit (LogInfo ''Shifted voting round due to 100% of votes received without consensus'') w',
                   None)))
 \<and> (\<not> TotalPrecommitPower (VoteSummary (VRV (NextRound s)))
        < ByzantineMinority (AvailablePower (VoteSummary (VRV (NextRound s))))
   \<longrightarrow> checkNextRoundPrecommitViewShift k w =
         (case advanceVotingRound k w of
            Inl p \<Rightarrow> Inl p
          | Inr (w1, Some e) \<Rightarrow> Inr (w1, Some e)
          | Inr (w1, None) \<Rightarrow>
              (let vs = VoteSummary (VRV (NextRound s));
                   w2 = emit (LogInfo ''Shifting voting round due to minority precommit'') w1;
                   maxPow = read0 (PrecommitBlockPower vs) (MostVotedPrecommitHash vs)
               in if maxPow \<ge> ByzantineMajority (AvailablePower vs)
                  then Inl (Panic ''TODO: handle a majority precommit for NextRound'')
                  else if maxPow \<ge> ByzantineMinority (AvailablePower vs) then
                    (case checkMissingPBs k w2 (PrecommitProofs (VRV (Voting (KS w2)))) of
                       Inl p \<Rightarrow> Inl p
                     | Inr w3 \<Rightarrow> Inr (w3, None))
                  else Inr (w2, None))))
 \<and> (\<not> TotalPrevotePower (VoteSummary (VRV (NextRound s)))
        < ByzantineMinority (AvailablePower (VoteSummary (VRV (NextRound s))))
   \<longrightarrow> checkPrevoteViewShift k w ViewIDNextRound =
         (case advanceVotingRound k w of
            Inl p \<Rightarrow> Inl p
          | Inr (w1, Some e) \<Rightarrow> Inr (w1, Some e)
          | Inr (w1, None) \<Rightarrow>
              (let vs = VoteSummary (VRV (NextRound s));
                   w2 = emit (LogInfo ''Shifted voting round due to minority prevote'') w1
               in if read0 (PrevoteBlockPower vs) (MostVotedPrevoteHash vs)
                       \<ge> ByzantineMinority (AvailablePower vs) then
                    (case checkMissingPBs k w2 (PrevoteProofs (VRV (Voting (KS w2)))) of
                       Inl p \<Rightarrow> Inl p
                     | Inr w3 \<Rightarrow> Inr (w3, None))
                  else Inr (w2, None))))"
proof (intro conjI impI)
  assume h: "PrevoteProofs old \<noteq> None \<and> PrecommitProofs old \<noteq> None
    \<and> getInitialNilProofs k (Height old) (Round (VRV voting') + 1) (Validators old)
         = Inr (nilPrevote, nilPrecommit)"
  then have pc: "map_put (map_clear (PrevoteProofs old)) [] nilPrevote = Inr (Some [([], nilPrevote)])"
    and cc: "map_put (map_clear (PrecommitProofs old)) [] nilPrecommit = Inr (Some [([], nilPrecommit)])"
    by (simp_all add: map_put_clear)
  from h have g: "getInitialNilProofs k (Height old) (Round (VRV voting') + 1) (Validators old)
         = Inr (nilPrevote, nilPrecommit)" by simp
  show "advanceVotingRound k w =
         Inr (w\<lparr>KS := s\<lparr>StateMachineView :=
                          (if smH k (StateMachineView s) = Height old
                              \<and> smR k (StateMachineView s) = Round old
                           then smForceSend k (StateMachineView s) (VersionedRoundView_Clone old)
                           else StateMachineView s),
                        NilVotedRound := Some (VersionedRoundView_Clone old),
                        Voting := voting',
                        NextRound := UpdateOutgoing k ((NextRound s)\<lparr>VRV := nr\<rparr>)\<rparr>\<rparr>,
              None)"
    using pc cc g
    unfolding advanceVotingRound_def Let_def s_def old_def voting'_def nr_def
    by (simp add: VersionedRoundView_ResetForSameHeight_def RoundView_ResetForSameHeight_def
          resetVersions_def)
qed (auto simp add: nr_def s_def old_def VersionedRoundView_ResetForSameHeight_def
       RoundView_ResetForSameHeight_def resetVersions_def map_keys_def map_get_def
       checkVotingPrecommitViewShift_def checkNextRoundPrecommitViewShift_def
       checkPrevoteViewShift_def Let_def split: sum.splits option.splits prod.splits)

text \<open>
  The theorem at the start world: the voting view of height 1 round 0 becomes the nil
  voted round, voting goes on in round 1 with version 0 before it is published, and the
  next round view is round 2 of the same height with the two fresh nil proofs only.
\<close>

theorem advanceVotingRound_steps_witness:
  "PrevoteProofs (VRV (Voting (KS ex_start))) \<noteq> None
 \<and> PrecommitProofs (VRV (Voting (KS ex_start))) \<noteq> None
 \<and> getInitialNilProofs ex_kernel 1 2 vals4 = Inr (signed_by [], signed_by [])
 \<and> (case advanceVotingRound ex_kernel ex_start of
       Inl p \<Rightarrow> False
     | Inr (w', err) \<Rightarrow>
         err = None
       \<and> NilVotedRound (KS w') = Some (VRV (Voting (KS ex_start)))
       \<and> Height (VRV (Voting (KS w'))) = 1 \<and> Round (VRV (Voting (KS w'))) = 1
       \<and> Version (VRV (Voting (KS w'))) = 0
       \<and> Height (VRV (NextRound (KS w'))) = 1 \<and> Round (VRV (NextRound (KS w'))) = 2
       \<and> PrevoteProofs (VRV (NextRound (KS w'))) = Some [([], signed_by [])]
       \<and> PrecommitProofs (VRV (NextRound (KS w'))) = Some [([], signed_by [])]
       \<and> SM_Pending (StateMachineView (KS w')) = Some (VRV (Voting (KS ex_start))))"
proof -
  let ?old = "VRV (Voting (KS ex_start))"
  let ?voting' = "UpdateOutgoing ex_kernel
        ((Voting (KS ex_start))\<lparr>VRV := (VRV (NextRound (KS ex_start)))\<lparr>Version := 0\<rparr>\<rparr>)"
  have e: "Height ?old = 1" "Round (VRV ?voting') + 1 = 2" "Validators ?old = vals4"
    by (simp_all add: ex_defs run_defs spec_defs Let_def)
  have g: "getInitialNilProofs ex_kernel 1 2 vals4 = Inr (signed_by [], signed_by [])"
    by (simp add: ex_defs run_defs spec_defs Let_def)
  have h: "PrevoteProofs ?old \<noteq> None \<and> PrecommitProofs ?old \<noteq> None
    \<and> getInitialNilProofs ex_kernel (Height ?old) (Round (VRV ?voting') + 1) (Validators ?old)
         = Inr (signed_by [], signed_by [])"
    unfolding e using g by (simp add: ex_defs run_defs spec_defs Let_def)
  note r = advanceVotingRound_steps [where k = ex_kernel and w = ex_start
              and nilPrevote = "signed_by []" and nilPrecommit = "signed_by []",
              THEN conjunct1, THEN mp, OF h, THEN conjunct1]
  have "case advanceVotingRound ex_kernel ex_start of
       Inl p \<Rightarrow> False
     | Inr (w', err) \<Rightarrow>
         err = None
       \<and> NilVotedRound (KS w') = Some (VRV (Voting (KS ex_start)))
       \<and> Height (VRV (Voting (KS w'))) = 1 \<and> Round (VRV (Voting (KS w'))) = 1
       \<and> Version (VRV (Voting (KS w'))) = 0
       \<and> Height (VRV (NextRound (KS w'))) = 1 \<and> Round (VRV (NextRound (KS w'))) = 2
       \<and> PrevoteProofs (VRV (NextRound (KS w'))) = Some [([], signed_by [])]
       \<and> PrecommitProofs (VRV (NextRound (KS w'))) = Some [([], signed_by [])]
       \<and> SM_Pending (StateMachineView (KS w')) = Some (VRV (Voting (KS ex_start)))"
    unfolding r by (simp add: ex_defs run_defs spec_defs Let_def)
  with h g show ?thesis by blast
qed

subsection \<open>The commit\<close>

lemma ensure_nil_proof_None: "ensure_nil_proof None p = Some [([], p)]"
  by (simp add: ensure_nil_proof_def)

lemma Reset_proofs:
  "PrevoteProofs (VersionedRoundView_Reset vsr vsz v) = map_clear (PrevoteProofs v)"
  "PrecommitProofs (VersionedRoundView_Reset vsr vsz v) = map_clear (PrecommitProofs v)"
  by (simp_all add: VersionedRoundView_Reset_def RoundView_Reset_def Let_def
        RoundView_ResetForSameHeight_def resetVersions_def)

text \<open>
  C2. Let the most voted precommit hash of the voting view be non-nil and hold at least
  the Byzantine majority of the available power, let a proposed block of that hash be in
  the voting view, and let \<open>pb\<close> be the first such block of the view once it is published
  as the committing view; let the initial nil proofs load for rounds 0 and 1 of the next
  height, and let the next round view own its two proof maps. Then
  \<^verbatim>\<open>checkVotingPrecommitViewShift\<close> commits, without a panic: the published voting view
  becomes the committing view and the block of \<open>pb\<close> the committing block; the new voting
  view is a fresh view at the next height, round 0, with the \<^verbatim>\<open>NextValidators\<close> of that
  block as validators and the nil prevote and nil precommit proof as its only proofs; the
  next round view is reset and set to the next height, round 1, with the same validators
  and its own two nil proofs. Unless the new voting height is at most the initial height
  plus one, the block that has become committed by this, the one the kernel was committing
  before the call, is saved to the block store with the commit proof that the block of
  \<open>pb\<close> carries for it, and the commit is logged (or the error of the store is returned);
  at the initial height nothing is saved.
\<close>

theorem commit_on_majority:
  fixes k :: "('p, 'v, 's, 'm) Kernel" and w :: "('p, 'v, 's, 'm) World"
    and pb :: "('v, 's) ProposedBlock"
    and nilPrevote nilPrecommit nilPrevote' nilPrecommit' :: 'p
  defines "s \<equiv> KS w"
    and "vs \<equiv> VoteSummary (VRV (Voting (KS w)))"
    and "committing' \<equiv> UpdateOutgoing k (Voting (KS w))"
  defines "newHeight \<equiv> Height (VRV committing') + 1"
    and "vals \<equiv> NextValidators (PB_Block pb)"
  defines "voting' \<equiv> UpdateOutgoing k
             \<lparr>VRV = zero_VRV
                 \<lparr>Height := newHeight, Round := 0, Validators := vals,
                  ValidatorPubKeyHash := ValidatorPubKeyHash (VRV committing'),
                  ValidatorVotePowerHash := ValidatorVotePowerHash (VRV committing'),
                  PrevoteProofs := Some [([], nilPrevote)],
                  PrecommitProofs := Some [([], nilPrecommit)],
                  VoteSummary := SetAvailablePower k (NewVoteSummary k) vals,
                  PrevoteVersion := 1, PrecommitVersion := 1\<rparr>,
              Outgoing = zero_OutgoingView\<rparr>"
  defines "nr0 \<equiv> VersionedRoundView_Reset (VoteSummary_ResetForSameHeight k) (VoteSummary_Reset k)
                    (VRV (NextRound (KS w)))"
  defines "next' \<equiv> UpdateOutgoing k
             ((NextRound (KS w))
                \<lparr>VRV := nr0
                   \<lparr>Height := newHeight, Round := 1, Validators := vals,
                    ValidatorPubKeyHash := ValidatorPubKeyHash (VRV voting'),
                    ValidatorVotePowerHash := ValidatorVotePowerHash (VRV voting'),
                    VoteSummary := (VoteSummary nr0)
                       \<lparr>AvailablePower := AvailablePower (VoteSummary (VRV voting'))\<rparr>,
                    PrevoteVersion := 1, PrecommitVersion := 1,
                    PrevoteProofs := Some [([], nilPrevote')],
                    PrecommitProofs := Some [([], nilPrecommit')]\<rparr>\<rparr>)"
  defines "w' \<equiv> w\<lparr>KS := (KS w)\<lparr>Committing := committing',
                               CommittingBlock := PB_Block pb,
                               Voting := voting',
                               NextRound := next'\<rparr>\<rparr>"
    and "cb \<equiv> \<lparr>CB_Block = CommittingBlock (KS w), CB_Proof = PrevCommitProof (PB_Block pb)\<rparr>"
  shows
  "\<not> read0 (PrecommitBlockPower vs) (MostVotedPrecommitHash vs)
        < ByzantineMajority (AvailablePower vs)
    \<and> MostVotedPrecommitHash vs \<noteq> []
    \<and> list_ex (\<lambda>pb. Hash (PB_Block pb) = MostVotedPrecommitHash vs)
         (ProposedBlocks (VRV (Voting s)))
    \<and> find (\<lambda>pb. Hash (PB_Block pb) = MostVotedPrecommitHash vs)
         (ProposedBlocks (VRV committing')) = Some pb
    \<and> getInitialNilProofs k newHeight 0 vals = Inr (nilPrevote, nilPrecommit)
    \<and> getInitialNilProofs k newHeight 1 vals = Inr (nilPrevote', nilPrecommit')
    \<and> PrevoteProofs (VRV (NextRound s)) \<noteq> None
    \<and> PrecommitProofs (VRV (NextRound s)) \<noteq> None
   \<longrightarrow> checkVotingPrecommitViewShift k w =
         (if Height (VRV voting') \<le> initialHeight k + 1 then Inr (w', None)
          else case bStore_SaveBlock k cb of
                 Some e \<Rightarrow> Inr (emit (SaveBlock cb) w',
                                Some (''failed to save newly committed block: '' @ e))
               | None \<Rightarrow> Inr (emit (LogInfo ''Committed block'') (emit (SaveBlock cb) w'), None))"
proof (intro impI, elim conjE)
  assume maj: "\<not> read0 (PrecommitBlockPower vs) (MostVotedPrecommitHash vs)
        < ByzantineMajority (AvailablePower vs)"
    and nn: "MostVotedPrecommitHash vs \<noteq> []"
    and has: "list_ex (\<lambda>pb. Hash (PB_Block pb) = MostVotedPrecommitHash vs)
         (ProposedBlocks (VRV (Voting s)))"
    and fnd: "find (\<lambda>pb. Hash (PB_Block pb) = MostVotedPrecommitHash vs)
         (ProposedBlocks (VRV committing')) = Some pb"
    and g0: "getInitialNilProofs k newHeight 0 vals = Inr (nilPrevote, nilPrecommit)"
    and g1: "getInitialNilProofs k newHeight 1 vals = Inr (nilPrevote', nilPrecommit')"
    and a1: "PrevoteProofs (VRV (NextRound s)) \<noteq> None"
    and a2: "PrecommitProofs (VRV (NextRound s)) \<noteq> None"
  have c: "checkVotingPrecommitViewShift k w
             = commitVotingView k (MostVotedPrecommitHash vs) w"
    using maj nn has by (simp add: checkVotingPrecommitViewShift_def Let_def vs_def s_def)
  have p1: "map_put (map_clear (PrevoteProofs (VRV (NextRound (KS w))))) [] nilPrevote'
              = Inr (Some [([], nilPrevote')])"
    and p2: "map_put (map_clear (PrecommitProofs (VRV (NextRound (KS w))))) [] nilPrecommit'
              = Inr (Some [([], nilPrecommit')])"
    using a1 a2 by (simp_all add: map_put_clear s_def)
  show "checkVotingPrecommitViewShift k w =
         (if Height (VRV voting') \<le> initialHeight k + 1 then Inr (w', None)
          else case bStore_SaveBlock k cb of
                 Some e \<Rightarrow> Inr (emit (SaveBlock cb) w',
                                Some (''failed to save newly committed block: '' @ e))
               | None \<Rightarrow> Inr (emit (LogInfo ''Committed block'') (emit (SaveBlock cb) w'), None))"
    unfolding c commitVotingView_def
    using fnd g0 g1 p1 p2
    unfolding committing'_def newHeight_def vals_def voting'_def nr0_def next'_def w'_def cb_def
      vs_def s_def
    by (simp add: Let_def ensure_nil_proof_None Reset_proofs zero_VRV_def emit_def
          split: option.splits)
qed

text \<open>
  The theorem in the world that is ready to commit: the block \<open>b1\<close> is saved with the
  commit proof carried by \<open>b2\<close>, the kernel is committing \<open>b2\<close> at height 2 and voting on
  height 3 round 0 over the next validators of \<open>b2\<close>, and the next round is round 1.
\<close>

theorem commit_on_majority_witness:
  "\<not> read0 (PrecommitBlockPower (VoteSummary (VRV (Voting (KS ex_ready))))) ''b2''
        < ByzantineMajority (AvailablePower (VoteSummary (VRV (Voting (KS ex_ready)))))
 \<and> MostVotedPrecommitHash (VoteSummary (VRV (Voting (KS ex_ready)))) = ''b2''
 \<and> ProposedBlocks (VRV (Voting (KS ex_ready))) = [proposed (block_at ''b2'' 2 ''b1'') 0 ''sig2'']
 \<and> getInitialNilProofs ex_kernel 3 0 vals4 = Inr (signed_by [], signed_by [])
 \<and> getInitialNilProofs ex_kernel 3 1 vals4 = Inr (signed_by [], signed_by [])
 \<and> (case checkVotingPrecommitViewShift ex_kernel ex_ready of
       Inl p \<Rightarrow> False
     | Inr (w', err) \<Rightarrow>
         err = None
       \<and> VRV (Committing (KS w')) = VRV (Voting (KS ex_ready))
       \<and> CommittingBlock (KS w') = block_at ''b2'' 2 ''b1''
       \<and> Height (VRV (Voting (KS w'))) = 3 \<and> Round (VRV (Voting (KS w'))) = 0
       \<and> Validators (VRV (Voting (KS w'))) = NextValidators (block_at ''b2'' 2 ''b1'')
       \<and> ProposedBlocks (VRV (Voting (KS w'))) = []
       \<and> PrevoteProofs (VRV (Voting (KS w'))) = Some [([], signed_by [])]
       \<and> PrecommitProofs (VRV (Voting (KS w'))) = Some [([], signed_by [])]
       \<and> Height (VRV (NextRound (KS w'))) = 3 \<and> Round (VRV (NextRound (KS w'))) = 1
       \<and> Validators (VRV (NextRound (KS w'))) = NextValidators (block_at ''b2'' 2 ''b1'')
       \<and> PrevoteProofs (VRV (NextRound (KS w'))) = Some [([], signed_by [])]
       \<and> PrecommitProofs (VRV (NextRound (KS w'))) = Some [([], signed_by [])]
       \<and> Effects w' =
           [SaveBlock \<lparr>CB_Block = block_at ''b1'' 1 [],
                       CB_Proof = PrevCommitProof (block_at ''b2'' 2 ''b1'')\<rparr>,
            LogInfo ''Committed block''])"
proof -
  let ?vs = "VoteSummary (VRV (Voting (KS ex_ready)))"
  let ?pb = "proposed (block_at ''b2'' 2 ''b1'') 0 ''sig2''"
  let ?c = "UpdateOutgoing ex_kernel (Voting (KS ex_ready))"
  have m: "MostVotedPrecommitHash ?vs = ''b2''"
    and p: "ProposedBlocks (VRV (Voting (KS ex_ready))) = [?pb]"
    and pc: "ProposedBlocks (VRV ?c) = [?pb]"
    and hc: "Height (VRV ?c) + 1 = 3"
    and nv: "NextValidators (PB_Block ?pb) = vals4"
    and hp: "Hash (PB_Block ?pb) = ''b2''"
    and q: "\<not> read0 (PrecommitBlockPower ?vs) ''b2'' < ByzantineMajority (AvailablePower ?vs)"
    and a: "PrevoteProofs (VRV (NextRound (KS ex_ready))) \<noteq> None"
           "PrecommitProofs (VRV (NextRound (KS ex_ready))) \<noteq> None"
    by (simp_all add: ex_defs run_defs spec_defs Let_def)
  have g: "getInitialNilProofs ex_kernel 3 0 vals4 = Inr (signed_by [], signed_by [])"
          "getInitialNilProofs ex_kernel 3 1 vals4 = Inr (signed_by [], signed_by [])"
    by (simp_all add: ex_defs run_defs spec_defs Let_def)
  have h: "\<not> read0 (PrecommitBlockPower ?vs) (MostVotedPrecommitHash ?vs)
        < ByzantineMajority (AvailablePower ?vs)
    \<and> MostVotedPrecommitHash ?vs \<noteq> []
    \<and> list_ex (\<lambda>pb. Hash (PB_Block pb) = MostVotedPrecommitHash ?vs)
         (ProposedBlocks (VRV (Voting (KS ex_ready))))
    \<and> find (\<lambda>pb. Hash (PB_Block pb) = MostVotedPrecommitHash ?vs)
         (ProposedBlocks (VRV ?c)) = Some ?pb
    \<and> getInitialNilProofs ex_kernel (Height (VRV ?c) + 1) 0 (NextValidators (PB_Block ?pb))
         = Inr (signed_by [], signed_by [])
    \<and> getInitialNilProofs ex_kernel (Height (VRV ?c) + 1) 1 (NextValidators (PB_Block ?pb))
         = Inr (signed_by [], signed_by [])
    \<and> PrevoteProofs (VRV (NextRound (KS ex_ready))) \<noteq> None
    \<and> PrecommitProofs (VRV (NextRound (KS ex_ready))) \<noteq> None"
    unfolding m p pc hc nv using q a g by (simp add: hp)
  note r = commit_on_majority [where k = ex_kernel and w = ex_ready and pb = ?pb
              and nilPrevote = "signed_by []" and nilPrecommit = "signed_by []"
              and nilPrevote' = "signed_by []" and nilPrecommit' = "signed_by []",
              THEN mp, OF h]
  have "case checkVotingPrecommitViewShift ex_kernel ex_ready of
       Inl p \<Rightarrow> False
     | Inr (w', err) \<Rightarrow>
         err = None
       \<and> VRV (Committing (KS w')) = VRV (Voting (KS ex_ready))
       \<and> CommittingBlock (KS w') = block_at ''b2'' 2 ''b1''
       \<and> Height (VRV (Voting (KS w'))) = 3 \<and> Round (VRV (Voting (KS w'))) = 0
       \<and> Validators (VRV (Voting (KS w'))) = NextValidators (block_at ''b2'' 2 ''b1'')
       \<and> ProposedBlocks (VRV (Voting (KS w'))) = []
       \<and> PrevoteProofs (VRV (Voting (KS w'))) = Some [([], signed_by [])]
       \<and> PrecommitProofs (VRV (Voting (KS w'))) = Some [([], signed_by [])]
       \<and> Height (VRV (NextRound (KS w'))) = 3 \<and> Round (VRV (NextRound (KS w'))) = 1
       \<and> Validators (VRV (NextRound (KS w'))) = NextValidators (block_at ''b2'' 2 ''b1'')
       \<and> PrevoteProofs (VRV (NextRound (KS w'))) = Some [([], signed_by [])]
       \<and> PrecommitProofs (VRV (NextRound (KS w'))) = Some [([], signed_by [])]
       \<and> Effects w' =
           [SaveBlock \<lparr>CB_Block = block_at ''b1'' 1 [],
                       CB_Proof = PrevCommitProof (block_at ''b2'' 2 ''b1'')\<rparr>,
            LogInfo ''Committed block'']"
    unfolding r by (simp add: ex_defs run_defs spec_defs Let_def)
  with m p q g show ?thesis by blast
qed

subsection \<open>Requests for missing proposed blocks\<close>

lemma sendFetchRequests_run:
  assumes "\<forall>x\<in>set hs. FetchRequests_select k H x \<noteq> CtxDone"
    and "Height (VRV (Voting (KS w))) = H"
  shows "Effects (sendFetchRequests k d m hs w) =
           Effects w @ map (\<lambda>x. if FetchRequests_select k H x = RequestSent then FetchRequest H x
                                else LogWarn ''Blocked sending fetch request; kernel may deadlock if this block reaches consensus'')
                         (filter (\<lambda>x. \<not> read0 (BlockVotePower d) x < m) hs)
       \<and> KS (sendFetchRequests k d m hs w) =
           (KS w)\<lparr>InFlightFetchPBs :=
              (\<lambda>x. if x \<in> set hs \<and> \<not> read0 (BlockVotePower d) x < m
                       \<and> FetchRequests_select k H x = RequestSent
                    then Some (CancelFunc H x) else InFlightFetchPBs (KS w) x)\<rparr>"
  using assms
proof (induction hs arbitrary: w)
  case Nil
  then show ?case by simp
next
  case (Cons x rest)
  let ?ev = "\<lambda>x. if FetchRequests_select k H x = RequestSent then FetchRequest H x
                  else LogWarn ''Blocked sending fetch request; kernel may deadlock if this block reaches consensus''"
  let ?pw = "\<lambda>x. \<not> read0 (BlockVotePower d) x < m"
  from Cons.prems have nd: "FetchRequests_select k H x \<noteq> CtxDone"
    and r: "\<forall>x\<in>set rest. FetchRequests_select k H x \<noteq> CtxDone"
    and hw: "Height (VRV (Voting (KS w))) = H" by simp_all
  have step: "Effects (sendFetchRequests k d m rest w1) = Effects w1 @ map ?ev (filter ?pw rest)
       \<and> KS (sendFetchRequests k d m rest w1) =
           (KS w1)\<lparr>InFlightFetchPBs :=
              (\<lambda>y. if y \<in> set rest \<and> ?pw y \<and> FetchRequests_select k H y = RequestSent
                    then Some (CancelFunc H y) else InFlightFetchPBs (KS w1) y)\<rparr>"
    if "Height (VRV (Voting (KS w1))) = H" for w1
    using Cons.IH [OF r that] .
  show ?case
  proof (cases "read0 (BlockVotePower d) x < m")
    case True
    have f: "(\<lambda>y. if y \<in> set rest \<and> ?pw y \<and> FetchRequests_select k H y = RequestSent
                    then Some (CancelFunc H y) else InFlightFetchPBs (KS w) y)
           = (\<lambda>y. if y \<in> set (x # rest) \<and> ?pw y \<and> FetchRequests_select k H y = RequestSent
                    then Some (CancelFunc H y) else InFlightFetchPBs (KS w) y)"
      using True by (intro ext) auto
    have s: "sendFetchRequests k d m (x # rest) w = sendFetchRequests k d m rest w"
      using True by simp
    have fl: "filter ?pw (x # rest) = filter ?pw rest" using True by simp
    from step [OF hw] show ?thesis unfolding s fl f .
  next
    case False
    have fl: "filter ?pw (x # rest) = x # filter ?pw rest" using False by simp
    show ?thesis
    proof (cases "FetchRequests_select k H x")
      case CtxDone
      with nd show ?thesis by simp
    next
      case RequestSent
      let ?w1 = "(emit (FetchRequest H x) w)
                     \<lparr>KS := (KS w)\<lparr>InFlightFetchPBs :=
                               (InFlightFetchPBs (KS w))(x \<mapsto> CancelFunc H x)\<rparr>\<rparr>"
      have h1: "Height (VRV (Voting (KS ?w1))) = H" using hw by simp
      have f: "(\<lambda>y. if y \<in> set rest \<and> ?pw y \<and> FetchRequests_select k H y = RequestSent
                    then Some (CancelFunc H y) else InFlightFetchPBs (KS ?w1) y)
           = (\<lambda>y. if y \<in> set (x # rest) \<and> ?pw y \<and> FetchRequests_select k H y = RequestSent
                    then Some (CancelFunc H y) else InFlightFetchPBs (KS w) y)"
        using False RequestSent by (intro ext) auto
      have k1: "(KS ?w1)\<lparr>InFlightFetchPBs := g\<rparr> = (KS w)\<lparr>InFlightFetchPBs := g\<rparr>" for g
        by simp
      have e1: "Effects ?w1 @ es = Effects w @ ?ev x # es" for es
        using RequestSent by (simp add: emit_def)
      have s: "sendFetchRequests k d m (x # rest) w = sendFetchRequests k d m rest ?w1"
        using False RequestSent hw by (simp add: Let_def)
      from step [OF h1] show ?thesis unfolding s fl f k1 e1 list.map .
    next
      case ChannelFull
      let ?w1 = "emit (LogWarn ''Blocked sending fetch request; kernel may deadlock if this block reaches consensus'') w"
      have h1: "Height (VRV (Voting (KS ?w1))) = H" using hw by simp
      have f: "(\<lambda>y. if y \<in> set rest \<and> ?pw y \<and> FetchRequests_select k H y = RequestSent
                    then Some (CancelFunc H y) else InFlightFetchPBs (KS ?w1) y)
           = (\<lambda>y. if y \<in> set (x # rest) \<and> ?pw y \<and> FetchRequests_select k H y = RequestSent
                    then Some (CancelFunc H y) else InFlightFetchPBs (KS w) y)"
        using ChannelFull by (intro ext) auto
      have k1: "(KS ?w1)\<lparr>InFlightFetchPBs := g\<rparr> = (KS w)\<lparr>InFlightFetchPBs := g\<rparr>" for g
        by simp
      have e1: "Effects ?w1 @ es = Effects w @ ?ev x # es" for es
        using ChannelFull by (simp add: emit_def)
      have s: "sendFetchRequests k d m (x # rest) w = sendFetchRequests k d m rest ?w1"
        using False ChannelFull hw by (simp add: Let_def)
      from step [OF h1] show ?thesis unfolding s fl f k1 e1 list.map .
    qed
  qed
qed

text \<open>
  C8. Let the proof map of the update have an entry, and let the send on the channel of
  fetch requests never lose against the cancellation of the context. A hash is wanted
  when it is not nil, has a proof in the map, has no proposed block in the voting view, has
  no fetch in flight, and its power in the fresh vote distribution of the map over the
  validators of the voting view is not below the Byzantine minority of the available
  power. Then \<^verbatim>\<open>checkMissingPBs\<close> returns, and it tries one request for each wanted hash and
  for nothing else, in the order of the map: where the channel takes the request, the
  request for the height of the voting view and the hash goes out and its cancel function
  is recorded under the hash; where the channel is full, a warning is logged, nothing is
  recorded and the hash is not tried again in the call. The in-flight fetches of all other
  hashes and the rest of the kernel state stay as they are.
\<close>

theorem checkMissingPBs_requests:
  fixes k :: "('p, 'v, 's, 'm) Kernel" and w :: "('p, 'v, 's, 'm) World" and proofs :: "'p gomap"
  defines "H \<equiv> Height (VRV (Voting (KS w)))"
    and "d \<equiv> newVoteDistribution k proofs (Validators (VRV (Voting (KS w))))"
  defines "wanted \<equiv> (\<lambda>x. x \<noteq> [] \<and> x \<in> set (map_keys proofs)
                        \<and> \<not> list_ex (\<lambda>pb. Hash (PB_Block pb) = x) (ProposedBlocks (VRV (Voting (KS w))))
                        \<and> InFlightFetchPBs (KS w) x = None
                        \<and> \<not> read0 (BlockVotePower d) x < ByzantineMinority (AvailableVotePower d))"
  shows "map_len proofs \<noteq> 0
       \<and> (\<forall>x\<in>set (map_keys proofs). FetchRequests_select k H x \<noteq> CtxDone)
     \<longrightarrow> (\<exists>w'. checkMissingPBs k w proofs = Inr w'
            \<and> Effects w' =
                Effects w @ map (\<lambda>x. if FetchRequests_select k H x = RequestSent
                                     then FetchRequest H x
                                     else LogWarn ''Blocked sending fetch request; kernel may deadlock if this block reaches consensus'')
                              (filter wanted (map_keys proofs))
            \<and> KS w' = (KS w)\<lparr>InFlightFetchPBs :=
                        (\<lambda>x. if wanted x \<and> FetchRequests_select k H x = RequestSent
                              then Some (CancelFunc H x) else InFlightFetchPBs (KS w) x)\<rparr>)"
proof (intro impI, elim conjE)
  assume ne: "map_len proofs \<noteq> 0"
    and nd: "\<forall>x\<in>set (map_keys proofs). FetchRequests_select k H x \<noteq> CtxDone"
  define m where "m = ByzantineMinority (AvailableVotePower d)"
  define c0 where "c0 = (\<lambda>h. h \<noteq> []
                \<and> h \<notin> set (map (\<lambda>pb. Hash (PB_Block pb)) (ProposedBlocks (VRV (Voting (KS w)))))
                \<and> InFlightFetchPBs (KS w) h = None)"
  define hs where "hs = filter c0 (map_keys proofs)"
  have r: "checkMissingPBs k w proofs = Inr (sendFetchRequests k d m hs w)"
    using ne unfolding checkMissingPBs_eq hs_def c0_def m_def d_def by simp
  have nd': "\<forall>x\<in>set hs. FetchRequests_select k H x \<noteq> CtxDone"
    using nd by (simp add: hs_def)
  have wc: "wanted = (\<lambda>x. x \<in> set hs \<and> \<not> read0 (BlockVotePower d) x < m)"
    unfolding wanted_def hs_def c0_def m_def
    by (intro ext) (auto simp: list_ex_iff)
  have fl: "filter (\<lambda>x. \<not> read0 (BlockVotePower d) x < m) hs = filter wanted (map_keys proofs)"
    unfolding wc hs_def by (auto intro: filter_cong)
  from sendFetchRequests_run [OF nd', of w d m] H_def
  have e: "Effects (sendFetchRequests k d m hs w) =
           Effects w @ map (\<lambda>x. if FetchRequests_select k H x = RequestSent then FetchRequest H x
                                else LogWarn ''Blocked sending fetch request; kernel may deadlock if this block reaches consensus'')
                         (filter (\<lambda>x. \<not> read0 (BlockVotePower d) x < m) hs)"
    and s: "KS (sendFetchRequests k d m hs w) =
           (KS w)\<lparr>InFlightFetchPBs :=
              (\<lambda>x. if x \<in> set hs \<and> \<not> read0 (BlockVotePower d) x < m
                       \<and> FetchRequests_select k H x = RequestSent
                    then Some (CancelFunc H x) else InFlightFetchPBs (KS w) x)\<rparr>"
    by simp_all
  have s': "KS (sendFetchRequests k d m hs w) =
           (KS w)\<lparr>InFlightFetchPBs :=
              (\<lambda>x. if wanted x \<and> FetchRequests_select k H x = RequestSent
                    then Some (CancelFunc H x) else InFlightFetchPBs (KS w) x)\<rparr>"
    unfolding s wc by (simp add: conj_assoc)
  show "\<exists>w'. checkMissingPBs k w proofs = Inr w'
            \<and> Effects w' =
                Effects w @ map (\<lambda>x. if FetchRequests_select k H x = RequestSent
                                     then FetchRequest H x
                                     else LogWarn ''Blocked sending fetch request; kernel may deadlock if this block reaches consensus'')
                              (filter wanted (map_keys proofs))
            \<and> KS w' = (KS w)\<lparr>InFlightFetchPBs :=
                        (\<lambda>x. if wanted x \<and> FetchRequests_select k H x = RequestSent
                              then Some (CancelFunc H x) else InFlightFetchPBs (KS w) x)\<rparr>"
    unfolding r using e s' by (simp add: fl)
qed

text \<open>
  The theorem on the start world with the proofs of the example: of the available power 40
  the Byzantine minority is 14, so only the hash \<open>c\<close> with power 20 is wanted. Where the
  channel has room the request for \<open>c\<close> at height 1 goes out and is recorded; where the
  channel is full the call only logs the warning, and nothing is in flight afterwards.
\<close>

theorem checkMissingPBs_requests_witness:
  "map_len ex_proofs = 3
 \<and> FetchRequests_select ex_kernel 1 ''c'' = RequestSent
 \<and> FetchRequests_select ex_full_kernel 1 ''c'' = ChannelFull
 \<and> (\<exists>w'. checkMissingPBs ex_kernel ex_start ex_proofs = Inr w'
        \<and> Effects w' = [FetchRequest 1 ''c'']
        \<and> InFlightFetchPBs (KS w') ''c'' = Some (CancelFunc 1 ''c'')
        \<and> InFlightFetchPBs (KS w') ''d'' = None)
 \<and> (\<exists>w'. checkMissingPBs ex_full_kernel ex_start ex_proofs = Inr w'
        \<and> Effects w' = [LogWarn ''Blocked sending fetch request; kernel may deadlock if this block reaches consensus'']
        \<and> InFlightFetchPBs (KS w') ''c'' = None
        \<and> InFlightFetchPBs (KS w') ''d'' = None)"
proof -
  have l: "map_len ex_proofs = 3"
    and c: "FetchRequests_select ex_kernel 1 ''c'' = RequestSent"
           "FetchRequests_select ex_full_kernel 1 ''c'' = ChannelFull"
    by (simp_all add: ex_defs run_defs spec_defs Let_def)
  have h1: "map_len ex_proofs \<noteq> 0
       \<and> (\<forall>x\<in>set (map_keys ex_proofs).
             FetchRequests_select ex_kernel (Height (VRV (Voting (KS ex_start)))) x \<noteq> CtxDone)"
    and h2: "map_len ex_proofs \<noteq> 0
       \<and> (\<forall>x\<in>set (map_keys ex_proofs).
             FetchRequests_select ex_full_kernel (Height (VRV (Voting (KS ex_start)))) x \<noteq> CtxDone)"
    by (simp_all add: ex_defs run_defs spec_defs Let_def)
  from checkMissingPBs_requests [where k = ex_kernel and w = ex_start and proofs = ex_proofs,
         THEN mp, OF h1]
  obtain w1 where r1: "checkMissingPBs ex_kernel ex_start ex_proofs = Inr w1"
    and e1: "Effects w1 = [FetchRequest 1 ''c'']"
    and k1: "InFlightFetchPBs (KS w1) ''c'' = Some (CancelFunc 1 ''c'')"
            "InFlightFetchPBs (KS w1) ''d'' = None"
    by (simp add: ex_defs run_defs spec_defs Let_def)
  from checkMissingPBs_requests [where k = ex_full_kernel and w = ex_start and proofs = ex_proofs,
         THEN mp, OF h2]
  obtain w2 where r2: "checkMissingPBs ex_full_kernel ex_start ex_proofs = Inr w2"
    and e2: "Effects w2 = [LogWarn ''Blocked sending fetch request; kernel may deadlock if this block reaches consensus'']"
    and k2: "InFlightFetchPBs (KS w2) ''c'' = None"
            "InFlightFetchPBs (KS w2) ''d'' = None"
    by (simp add: ex_defs run_defs spec_defs Let_def)
  from l c r1 e1 k1 r2 e2 k2 show ?thesis by blast
qed

subsection \<open>Installed votes and the overall version\<close>





subsection \<open>A majority for a block that is not there\<close>

lemma checkVotingPrecommitViewShift_stuck:
  assumes "\<not> read0 (PrecommitBlockPower (VoteSummary (VRV (Voting (KS w)))))
               (MostVotedPrecommitHash (VoteSummary (VRV (Voting (KS w)))))
             < ByzantineMajority (AvailablePower (VoteSummary (VRV (Voting (KS w)))))"
    and "MostVotedPrecommitHash (VoteSummary (VRV (Voting (KS w)))) \<noteq> []"
    and "\<not> list_ex (\<lambda>pb. Hash (PB_Block pb)
                 = MostVotedPrecommitHash (VoteSummary (VRV (Voting (KS w)))))
           (ProposedBlocks (VRV (Voting (KS w))))"
  shows "checkVotingPrecommitViewShift k w =
           Inr (emit (LogWarn ''Ready to commit block, but block is not yet available; stuck in this voting round until the block is fetched'') w,
                None)"
  using assms by (simp add: checkVotingPrecommitViewShift_def Let_def)

lemma checkMissingPBs_one:
  fixes k :: "('p, 'v, 's, 'm) Kernel" and w :: "('p, 'v, 's, 'm) World" and proofs :: "'p gomap"
  assumes key: "x \<in> set (map_keys proofs)"
    and nn: "x \<noteq> []"
    and npb: "\<not> list_ex (\<lambda>pb. Hash (PB_Block pb) = x) (ProposedBlocks (VRV (Voting (KS w))))"
    and pw: "\<not> read0 (BlockVotePower (newVoteDistribution k proofs (Validators (VRV (Voting (KS w)))))) x
               < ByzantineMinority (AvailableVotePower
                   (newVoteDistribution k proofs (Validators (VRV (Voting (KS w))))))"
    and nd: "\<forall>y\<in>set (map_keys proofs).
               FetchRequests_select k (Height (VRV (Voting (KS w)))) y \<noteq> CtxDone"
  shows "\<exists>w' f es. checkMissingPBs k w proofs = Inr w'
      \<and> KS w' = (KS w)\<lparr>InFlightFetchPBs := f\<rparr>
      \<and> f x = (if InFlightFetchPBs (KS w) x = None
                    \<and> FetchRequests_select k (Height (VRV (Voting (KS w)))) x = RequestSent
                 then Some (CancelFunc (Height (VRV (Voting (KS w)))) x)
                 else InFlightFetchPBs (KS w) x)
      \<and> Effects w' = Effects w @ es"
proof -
  define H where "H = Height (VRV (Voting (KS w)))"
  define d where "d = newVoteDistribution k proofs (Validators (VRV (Voting (KS w))))"
  define m where "m = ByzantineMinority (AvailableVotePower d)"
  define c0 where "c0 = (\<lambda>h. h \<noteq> []
                \<and> h \<notin> set (map (\<lambda>pb. Hash (PB_Block pb)) (ProposedBlocks (VRV (Voting (KS w)))))
                \<and> InFlightFetchPBs (KS w) h = None)"
  define hs where "hs = filter c0 (map_keys proofs)"
  from key have ne: "map_len proofs \<noteq> 0"
    by (auto simp: map_keys_def map_len_def split: option.splits)
  have r: "checkMissingPBs k w proofs = Inr (sendFetchRequests k d m hs w)"
    using ne unfolding checkMissingPBs_eq hs_def c0_def m_def d_def by simp
  have nd': "\<forall>y\<in>set hs. FetchRequests_select k H y \<noteq> CtxDone"
    using nd by (simp add: hs_def H_def)
  have xin: "x \<in> set hs \<longleftrightarrow> InFlightFetchPBs (KS w) x = None"
    using key nn npb by (auto simp: hs_def c0_def list_ex_iff)
  have pw': "\<not> read0 (BlockVotePower d) x < m" using pw by (simp add: d_def m_def)
  from sendFetchRequests_run [OF nd', of w d m] H_def
  have e: "Effects (sendFetchRequests k d m hs w) =
           Effects w @ map (\<lambda>x. if FetchRequests_select k H x = RequestSent then FetchRequest H x
                                else LogWarn ''Blocked sending fetch request; kernel may deadlock if this block reaches consensus'')
                         (filter (\<lambda>x. \<not> read0 (BlockVotePower d) x < m) hs)"
    and s: "KS (sendFetchRequests k d m hs w) =
           (KS w)\<lparr>InFlightFetchPBs :=
              (\<lambda>x. if x \<in> set hs \<and> \<not> read0 (BlockVotePower d) x < m
                       \<and> FetchRequests_select k H x = RequestSent
                    then Some (CancelFunc H x) else InFlightFetchPBs (KS w) x)\<rparr>"
    by simp_all
  show ?thesis
    apply (rule exI [where x = "sendFetchRequests k d m hs w"])
    apply (rule exI [where x = "\<lambda>x. if x \<in> set hs \<and> \<not> read0 (BlockVotePower d) x < m
                       \<and> FetchRequests_select k H x = RequestSent
                    then Some (CancelFunc H x) else InFlightFetchPBs (KS w) x"])
    apply (rule exI [where x = "map (\<lambda>x. if FetchRequests_select k H x = RequestSent then FetchRequest H x
                                else LogWarn ''Blocked sending fetch request; kernel may deadlock if this block reaches consensus'')
                         (filter (\<lambda>x. \<not> read0 (BlockVotePower d) x < m) hs)"])
    using r e s xin pw' by (simp add: H_def)
qed

lemma addPrecommit_stuck:
  fixes k :: "('p, 'v, 's, 'm) Kernel" and w :: "('p, 'v, 's, 'm) World"
  assumes found: "FindView k (KS w) (PC_H req) (PC_R req) = (Some RefVoting, ViewIDVoting, ViewFound)"
    and inst: "installPrecommits k req RefVoting w = Inr (w2, AddVoteAccepted)"
    and maj: "\<not> read0 (PrecommitBlockPower (VoteSummary (VRV (Voting (KS w2)))))
               (MostVotedPrecommitHash (VoteSummary (VRV (Voting (KS w2)))))
             < ByzantineMajority (AvailablePower (VoteSummary (VRV (Voting (KS w2)))))"
    and nn: "MostVotedPrecommitHash (VoteSummary (VRV (Voting (KS w2)))) \<noteq> []"
    and npb: "\<not> list_ex (\<lambda>pb. Hash (PB_Block pb)
                 = MostVotedPrecommitHash (VoteSummary (VRV (Voting (KS w2)))))
           (ProposedBlocks (VRV (Voting (KS w2))))"
    and key: "MostVotedPrecommitHash (VoteSummary (VRV (Voting (KS w2))))
                \<in> set (map_keys (PrecommitProofs (VRV (Voting (KS w2)))))"
    and pw: "\<not> read0 (BlockVotePower (newVoteDistribution k (PrecommitProofs (VRV (Voting (KS w2))))
                                         (Validators (VRV (Voting (KS w2))))))
                  (MostVotedPrecommitHash (VoteSummary (VRV (Voting (KS w2)))))
               < ByzantineMinority (AvailableVotePower
                   (newVoteDistribution k (PrecommitProofs (VRV (Voting (KS w2))))
                      (Validators (VRV (Voting (KS w2))))))"
    and nd: "\<forall>y\<in>set (map_keys (PrecommitProofs (VRV (Voting (KS w2))))).
               FetchRequests_select k (Height (VRV (Voting (KS w2)))) y \<noteq> CtxDone"
  shows "\<exists>w' f es. addPrecommit k req w = Inr w'
      \<and> KS w' = (KS w2)\<lparr>InFlightFetchPBs := f\<rparr>
      \<and> f (MostVotedPrecommitHash (VoteSummary (VRV (Voting (KS w2))))) =
          (if InFlightFetchPBs (KS w2) (MostVotedPrecommitHash (VoteSummary (VRV (Voting (KS w2))))) = None
              \<and> FetchRequests_select k (Height (VRV (Voting (KS w2))))
                   (MostVotedPrecommitHash (VoteSummary (VRV (Voting (KS w2))))) = RequestSent
           then Some (CancelFunc (Height (VRV (Voting (KS w2))))
                        (MostVotedPrecommitHash (VoteSummary (VRV (Voting (KS w2))))))
           else InFlightFetchPBs (KS w2) (MostVotedPrecommitHash (VoteSummary (VRV (Voting (KS w2))))))
      \<and> Effects w' = Effects w2 @ es
           @ [LogWarn ''Ready to commit block, but block is not yet available; stuck in this voting round until the block is fetched'']"
proof -
  let ?x = "MostVotedPrecommitHash (VoteSummary (VRV (Voting (KS w2))))"
  from checkMissingPBs_one [OF key nn npb pw nd]
  obtain w3 f es where c: "checkMissingPBs k w2 (PrecommitProofs (VRV (Voting (KS w2)))) = Inr w3"
    and ks: "KS w3 = (KS w2)\<lparr>InFlightFetchPBs := f\<rparr>"
    and fx: "f ?x = (if InFlightFetchPBs (KS w2) ?x = None
                    \<and> FetchRequests_select k (Height (VRV (Voting (KS w2)))) ?x = RequestSent
                 then Some (CancelFunc (Height (VRV (Voting (KS w2)))) ?x)
                 else InFlightFetchPBs (KS w2) ?x)"
    and ef: "Effects w3 = Effects w2 @ es"
    by blast
  have v3: "Voting (KS w3) = Voting (KS w2)" using ks by simp
  have st: "checkVotingPrecommitViewShift k w3 =
           Inr (emit (LogWarn ''Ready to commit block, but block is not yet available; stuck in this voting round until the block is fetched'') w3,
                None)"
    using maj nn npb by (intro checkVotingPrecommitViewShift_stuck) (simp_all add: v3)
  have a: "addPrecommit k req w = afterPrecommits k RefVoting ViewIDVoting AddVoteAccepted w2"
    using found inst by (simp add: addPrecommit_def)
  have b: "afterPrecommits k RefVoting ViewIDVoting AddVoteAccepted w2 =
             Inr (emit (LogWarn ''Ready to commit block, but block is not yet available; stuck in this voting round until the block is fetched'') w3)"
    using c st by (simp add: afterPrecommits_def warn_on_def)
  show ?thesis
    apply (rule exI [where x = "emit (LogWarn ''Ready to commit block, but block is not yet available; stuck in this voting round until the block is fetched'') w3"])
    apply (rule exI [where x = f])
    apply (rule exI [where x = es])
    using a b ks fx ef by (simp add: emit_def)
qed

text \<open>
  C4, as the code has it. When the most voted precommit hash of the voting view is not nil
  and has at least the Byzantine majority of the power, and the view has no proposed block
  with that hash, \<^verbatim>\<open>checkVotingPrecommitViewShift\<close> returns without an error and leaves
  the whole state of the kernel as it is: no view shift, no commit, and the fetches in
  flight are those that were in flight before. Its only effect is the warning that it is
  stuck in the voting round; it sends no fetch request itself.

  The fetch is the work of \<^verbatim>\<open>checkMissingPBs\<close>, which \<^verbatim>\<open>addPrecommit\<close> runs between the
  reply and this check. Let a precommit request for the voting view be accepted, and let
  the voting view at the time of the reply be in the state above, with a proof for the most
  voted hash whose power in the fresh vote distribution is not below the Byzantine
  minority, and let no send on the channel of fetch requests lose against the cancellation
  of the context. Then \<^verbatim>\<open>addPrecommit\<close> returns with the three views and the committing
  block as they were at the time of the reply, its last effect is the warning that it is
  stuck, and for the block of the most voted hash: a fetch that was in flight stays in
  flight; if none was, one is in flight afterwards exactly when the channel has taken the
  request, and when the channel is full none is.
\<close>

theorem stuck_without_block:
  fixes k :: "('p, 'v, 's, 'm) Kernel" and w w0 w2 :: "('p, 'v, 's, 'm) World"
  shows
  "(\<not> read0 (PrecommitBlockPower (VoteSummary (VRV (Voting (KS w))))) (MostVotedPrecommitHash (VoteSummary (VRV (Voting (KS w)))))
          < ByzantineMajority (AvailablePower (VoteSummary (VRV (Voting (KS w)))))
    \<and> MostVotedPrecommitHash (VoteSummary (VRV (Voting (KS w)))) \<noteq> []
    \<and> \<not> list_ex (\<lambda>pb. Hash (PB_Block pb) = MostVotedPrecommitHash (VoteSummary (VRV (Voting (KS w)))))
           (ProposedBlocks (VRV (Voting (KS w))))
   \<longrightarrow> (\<exists>w'. checkVotingPrecommitViewShift k w = Inr (w', None)
         \<and> KS w' = KS w
         \<and> Effects w' = Effects w @ [LogWarn ''Ready to commit block, but block is not yet available; stuck in this voting round until the block is fetched'']))
 \<and> (FindView k (KS w0) (PC_H req) (PC_R req) = (Some RefVoting, ViewIDVoting, ViewFound)
    \<and> installPrecommits k req RefVoting w0 = Inr (w2, AddVoteAccepted)
    \<and> \<not> read0 (PrecommitBlockPower (VoteSummary (VRV (Voting (KS w2))))) (MostVotedPrecommitHash (VoteSummary (VRV (Voting (KS w2)))))
          < ByzantineMajority (AvailablePower (VoteSummary (VRV (Voting (KS w2)))))
    \<and> MostVotedPrecommitHash (VoteSummary (VRV (Voting (KS w2)))) \<noteq> []
    \<and> \<not> list_ex (\<lambda>pb. Hash (PB_Block pb) = MostVotedPrecommitHash (VoteSummary (VRV (Voting (KS w2)))))
           (ProposedBlocks (VRV (Voting (KS w2))))
    \<and> MostVotedPrecommitHash (VoteSummary (VRV (Voting (KS w2)))) \<in> set (map_keys (PrecommitProofs (VRV (Voting (KS w2)))))
    \<and> \<not> read0 (BlockVotePower (newVoteDistribution k (PrecommitProofs (VRV (Voting (KS w2)))) (Validators (VRV (Voting (KS w2)))))) (MostVotedPrecommitHash (VoteSummary (VRV (Voting (KS w2)))))
          < ByzantineMinority (AvailableVotePower (newVoteDistribution k (PrecommitProofs (VRV (Voting (KS w2)))) (Validators (VRV (Voting (KS w2))))))
    \<and> (\<forall>y\<in>set (map_keys (PrecommitProofs (VRV (Voting (KS w2))))).
           FetchRequests_select k (Height (VRV (Voting (KS w2)))) y \<noteq> CtxDone)
   \<longrightarrow> (\<exists>w' f es. addPrecommit k req w0 = Inr w'
         \<and> KS w' = (KS w2)\<lparr>InFlightFetchPBs := f\<rparr>
         \<and> f (MostVotedPrecommitHash (VoteSummary (VRV (Voting (KS w2))))) =
             (if InFlightFetchPBs (KS w2) (MostVotedPrecommitHash (VoteSummary (VRV (Voting (KS w2))))) = None
                 \<and> FetchRequests_select k (Height (VRV (Voting (KS w2)))) (MostVotedPrecommitHash (VoteSummary (VRV (Voting (KS w2))))) = RequestSent
              then Some (CancelFunc (Height (VRV (Voting (KS w2)))) (MostVotedPrecommitHash (VoteSummary (VRV (Voting (KS w2))))))
              else InFlightFetchPBs (KS w2) (MostVotedPrecommitHash (VoteSummary (VRV (Voting (KS w2))))))
         \<and> Effects w' = Effects w2 @ es @ [LogWarn ''Ready to commit block, but block is not yet available; stuck in this voting round until the block is fetched'']))"
proof (intro conjI impI)
  assume "\<not> read0 (PrecommitBlockPower (VoteSummary (VRV (Voting (KS w))))) (MostVotedPrecommitHash (VoteSummary (VRV (Voting (KS w)))))
          < ByzantineMajority (AvailablePower (VoteSummary (VRV (Voting (KS w)))))
    \<and> MostVotedPrecommitHash (VoteSummary (VRV (Voting (KS w)))) \<noteq> []
    \<and> \<not> list_ex (\<lambda>pb. Hash (PB_Block pb) = MostVotedPrecommitHash (VoteSummary (VRV (Voting (KS w)))))
           (ProposedBlocks (VRV (Voting (KS w))))"
  then show "\<exists>w'. checkVotingPrecommitViewShift k w = Inr (w', None)
         \<and> KS w' = KS w
         \<and> Effects w' = Effects w @ [LogWarn ''Ready to commit block, but block is not yet available; stuck in this voting round until the block is fetched'']"
    by (elim conjE) (simp add: checkVotingPrecommitViewShift_stuck emit_def)
next
  assume "FindView k (KS w0) (PC_H req) (PC_R req) = (Some RefVoting, ViewIDVoting, ViewFound)
    \<and> installPrecommits k req RefVoting w0 = Inr (w2, AddVoteAccepted)
    \<and> \<not> read0 (PrecommitBlockPower (VoteSummary (VRV (Voting (KS w2))))) (MostVotedPrecommitHash (VoteSummary (VRV (Voting (KS w2)))))
          < ByzantineMajority (AvailablePower (VoteSummary (VRV (Voting (KS w2)))))
    \<and> MostVotedPrecommitHash (VoteSummary (VRV (Voting (KS w2)))) \<noteq> []
    \<and> \<not> list_ex (\<lambda>pb. Hash (PB_Block pb) = MostVotedPrecommitHash (VoteSummary (VRV (Voting (KS w2)))))
           (ProposedBlocks (VRV (Voting (KS w2))))
    \<and> MostVotedPrecommitHash (VoteSummary (VRV (Voting (KS w2)))) \<in> set (map_keys (PrecommitProofs (VRV (Voting (KS w2)))))
    \<and> \<not> read0 (BlockVotePower (newVoteDistribution k (PrecommitProofs (VRV (Voting (KS w2)))) (Validators (VRV (Voting (KS w2)))))) (MostVotedPrecommitHash (VoteSummary (VRV (Voting (KS w2)))))
          < ByzantineMinority (AvailableVotePower (newVoteDistribution k (PrecommitProofs (VRV (Voting (KS w2)))) (Validators (VRV (Voting (KS w2))))))
    \<and> (\<forall>y\<in>set (map_keys (PrecommitProofs (VRV (Voting (KS w2))))).
           FetchRequests_select k (Height (VRV (Voting (KS w2)))) y \<noteq> CtxDone)"
  then show "\<exists>w' f es. addPrecommit k req w0 = Inr w'
         \<and> KS w' = (KS w2)\<lparr>InFlightFetchPBs := f\<rparr>
         \<and> f (MostVotedPrecommitHash (VoteSummary (VRV (Voting (KS w2))))) =
             (if InFlightFetchPBs (KS w2) (MostVotedPrecommitHash (VoteSummary (VRV (Voting (KS w2))))) = None
                 \<and> FetchRequests_select k (Height (VRV (Voting (KS w2)))) (MostVotedPrecommitHash (VoteSummary (VRV (Voting (KS w2))))) = RequestSent
              then Some (CancelFunc (Height (VRV (Voting (KS w2)))) (MostVotedPrecommitHash (VoteSummary (VRV (Voting (KS w2))))))
              else InFlightFetchPBs (KS w2) (MostVotedPrecommitHash (VoteSummary (VRV (Voting (KS w2))))))
         \<and> Effects w' = Effects w2 @ es @ [LogWarn ''Ready to commit block, but block is not yet available; stuck in this voting round until the block is fetched'']"
    by (elim conjE) (rule addPrecommit_stuck; assumption)
qed

text \<open>
  The theorem at a voting view in which three of the four validators have precommitted
  the hash \<open>b\<close> (power 30, majority 27) and no proposed block has arrived; and at the
  precommit request of those three validators on the start world, with a channel that has
  room: the request is accepted, the kernel stays in round 0, logs that it is stuck, and the
  fetch of \<open>b\<close> at height 1 is in flight.
\<close>

theorem stuck_without_block_witness:
  "\<not> read0 (PrecommitBlockPower (VoteSummary (VRV (Voting (KS ex_stuck)))))
         (MostVotedPrecommitHash (VoteSummary (VRV (Voting (KS ex_stuck)))))
      < ByzantineMajority (AvailablePower (VoteSummary (VRV (Voting (KS ex_stuck)))))
 \<and> MostVotedPrecommitHash (VoteSummary (VRV (Voting (KS ex_stuck)))) = ''b''
 \<and> ProposedBlocks (VRV (Voting (KS ex_stuck))) = []
 \<and> (\<exists>w'. checkVotingPrecommitViewShift ex_kernel ex_stuck = Inr (w', None)
        \<and> KS w' = KS ex_stuck)
 \<and> FindView ex_kernel (KS ex_start) (PC_H ex_precommit_b) (PC_R ex_precommit_b)
     = (Some RefVoting, ViewIDVoting, ViewFound)
 \<and> FetchRequests_select ex_kernel 1 ''b'' = RequestSent
 \<and> (\<exists>w2. installPrecommits ex_kernel ex_precommit_b RefVoting ex_start = Inr (w2, AddVoteAccepted)
        \<and> MostVotedPrecommitHash (VoteSummary (VRV (Voting (KS w2)))) = ''b''
        \<and> read0 (PrecommitBlockPower (VoteSummary (VRV (Voting (KS w2))))) ''b'' = 30
        \<and> ByzantineMajority (AvailablePower (VoteSummary (VRV (Voting (KS w2))))) = 27
        \<and> ProposedBlocks (VRV (Voting (KS w2))) = []
        \<and> Height (VRV (Voting (KS w2))) = 1
        \<and> InFlightFetchPBs (KS w2) ''b'' = None
        \<and> (\<exists>w'. addPrecommit ex_kernel ex_precommit_b ex_start = Inr w'
               \<and> Voting (KS w') = Voting (KS w2)
               \<and> InFlightFetchPBs (KS w') ''b'' = Some (CancelFunc 1 ''b'')
               \<and> last (Effects w') = LogWarn ''Ready to commit block, but block is not yet available; stuck in this voting round until the block is fetched''))"
proof -
  have m: "MostVotedPrecommitHash (VoteSummary (VRV (Voting (KS ex_stuck)))) = ''b''"
    and p: "ProposedBlocks (VRV (Voting (KS ex_stuck))) = []"
    and q: "\<not> read0 (PrecommitBlockPower (VoteSummary (VRV (Voting (KS ex_stuck)))))
         (MostVotedPrecommitHash (VoteSummary (VRV (Voting (KS ex_stuck)))))
      < ByzantineMajority (AvailablePower (VoteSummary (VRV (Voting (KS ex_stuck)))))"
    by (simp_all add: ex_defs run_defs spec_defs Let_def)
  have h: "\<not> read0 (PrecommitBlockPower (VoteSummary (VRV (Voting (KS ex_stuck))))) (MostVotedPrecommitHash (VoteSummary (VRV (Voting (KS ex_stuck)))))
          < ByzantineMajority (AvailablePower (VoteSummary (VRV (Voting (KS ex_stuck)))))
    \<and> MostVotedPrecommitHash (VoteSummary (VRV (Voting (KS ex_stuck)))) \<noteq> []
    \<and> \<not> list_ex (\<lambda>pb. Hash (PB_Block pb) = MostVotedPrecommitHash (VoteSummary (VRV (Voting (KS ex_stuck)))))
           (ProposedBlocks (VRV (Voting (KS ex_stuck))))"
    using q by (simp add: m p)
  define w2 where "w2 = (fst (projr (installPrecommits ex_kernel ex_precommit_b RefVoting ex_start)))"
  have i: "installPrecommits ex_kernel ex_precommit_b RefVoting ex_start = Inr (w2, AddVoteAccepted)"
    unfolding w2_def by (simp add: ex_defs run_defs spec_defs Let_def)
  have f: "FindView ex_kernel (KS ex_start) (PC_H ex_precommit_b) (PC_R ex_precommit_b)
     = (Some RefVoting, ViewIDVoting, ViewFound)"
    and s: "FetchRequests_select ex_kernel 1 ''b'' = RequestSent"
    by (simp_all add: ex_defs run_defs spec_defs Let_def)
  have m2: "MostVotedPrecommitHash (VoteSummary (VRV (Voting (KS w2)))) = ''b''"
    and b2: "read0 (PrecommitBlockPower (VoteSummary (VRV (Voting (KS w2))))) ''b'' = 30"
    and j2: "ByzantineMajority (AvailablePower (VoteSummary (VRV (Voting (KS w2))))) = 27"
    and p2: "ProposedBlocks (VRV (Voting (KS w2))) = []"
    and h2: "Height (VRV (Voting (KS w2))) = 1"
    and n2: "InFlightFetchPBs (KS w2) ''b'' = None"
    and k2: "map_keys (PrecommitProofs (VRV (Voting (KS w2)))) = [[], ''b'']"
    and d2: "\<not> read0 (BlockVotePower (newVoteDistribution ex_kernel
                 (PrecommitProofs (VRV (Voting (KS w2)))) (Validators (VRV (Voting (KS w2)))))) ''b''
          < ByzantineMinority (AvailableVotePower (newVoteDistribution ex_kernel
                 (PrecommitProofs (VRV (Voting (KS w2)))) (Validators (VRV (Voting (KS w2))))))"
    and c2: "\<forall>y\<in>set [[], ''b'']. FetchRequests_select ex_kernel 1 y \<noteq> CtxDone"
    unfolding w2_def by (simp_all add: ex_defs run_defs spec_defs Let_def)
  have hb: "FindView ex_kernel (KS ex_start) (PC_H ex_precommit_b) (PC_R ex_precommit_b) = (Some RefVoting, ViewIDVoting, ViewFound)
    \<and> installPrecommits ex_kernel ex_precommit_b RefVoting ex_start = Inr (w2, AddVoteAccepted)
    \<and> \<not> read0 (PrecommitBlockPower (VoteSummary (VRV (Voting (KS w2))))) (MostVotedPrecommitHash (VoteSummary (VRV (Voting (KS w2)))))
          < ByzantineMajority (AvailablePower (VoteSummary (VRV (Voting (KS w2)))))
    \<and> MostVotedPrecommitHash (VoteSummary (VRV (Voting (KS w2)))) \<noteq> []
    \<and> \<not> list_ex (\<lambda>pb. Hash (PB_Block pb) = MostVotedPrecommitHash (VoteSummary (VRV (Voting (KS w2)))))
           (ProposedBlocks (VRV (Voting (KS w2))))
    \<and> MostVotedPrecommitHash (VoteSummary (VRV (Voting (KS w2)))) \<in> set (map_keys (PrecommitProofs (VRV (Voting (KS w2)))))
    \<and> \<not> read0 (BlockVotePower (newVoteDistribution ex_kernel (PrecommitProofs (VRV (Voting (KS w2)))) (Validators (VRV (Voting (KS w2)))))) (MostVotedPrecommitHash (VoteSummary (VRV (Voting (KS w2)))))
          < ByzantineMinority (AvailableVotePower (newVoteDistribution ex_kernel (PrecommitProofs (VRV (Voting (KS w2)))) (Validators (VRV (Voting (KS w2))))))
    \<and> (\<forall>y\<in>set (map_keys (PrecommitProofs (VRV (Voting (KS w2))))).
           FetchRequests_select ex_kernel (Height (VRV (Voting (KS w2)))) y \<noteq> CtxDone)"
    unfolding m2 k2 h2 using f i b2 j2 p2 d2 c2 by simp
  note T = stuck_without_block [where k = ex_kernel and w = ex_stuck and ?w0.0 = ex_start
             and req = ex_precommit_b and ?w2.0 = w2]
  from T [THEN conjunct1, THEN mp, OF h]
  have a: "\<exists>w'. checkVotingPrecommitViewShift ex_kernel ex_stuck = Inr (w', None)
        \<and> KS w' = KS ex_stuck" by blast
  from T [THEN conjunct2, THEN mp, OF hb]
  obtain w' f' es where r: "addPrecommit ex_kernel ex_precommit_b ex_start = Inr w'"
    and ks: "KS w' = (KS w2)\<lparr>InFlightFetchPBs := f'\<rparr>"
    and fx: "f' (MostVotedPrecommitHash (VoteSummary (VRV (Voting (KS w2))))) =
             (if InFlightFetchPBs (KS w2) (MostVotedPrecommitHash (VoteSummary (VRV (Voting (KS w2))))) = None
                 \<and> FetchRequests_select ex_kernel (Height (VRV (Voting (KS w2))))
                      (MostVotedPrecommitHash (VoteSummary (VRV (Voting (KS w2))))) = RequestSent
              then Some (CancelFunc (Height (VRV (Voting (KS w2))))
                           (MostVotedPrecommitHash (VoteSummary (VRV (Voting (KS w2))))))
              else InFlightFetchPBs (KS w2) (MostVotedPrecommitHash (VoteSummary (VRV (Voting (KS w2))))))"
    and ef: "Effects w' = Effects w2 @ es @ [LogWarn ''Ready to commit block, but block is not yet available; stuck in this voting round until the block is fetched'']"
    by blast
  from ks have x1: "Voting (KS w') = Voting (KS w2)" by simp
  from ks fx have x2: "InFlightFetchPBs (KS w') ''b'' = Some (CancelFunc 1 ''b'')"
    unfolding m2 h2 using n2 s by simp
  from ef have x3: "last (Effects w') = LogWarn ''Ready to commit block, but block is not yet available; stuck in this voting round until the block is fetched''" by simp
  from r x1 x2 x3 have bb: "\<exists>w'. addPrecommit ex_kernel ex_precommit_b ex_start = Inr w'
               \<and> Voting (KS w') = Voting (KS w2)
               \<and> InFlightFetchPBs (KS w') ''b'' = Some (CancelFunc 1 ''b'')
               \<and> last (Effects w') = LogWarn ''Ready to commit block, but block is not yet available; stuck in this voting round until the block is fetched''" by blast
  from i m2 b2 j2 p2 h2 n2 bb have B:
    "\<exists>w2. installPrecommits ex_kernel ex_precommit_b RefVoting ex_start = Inr (w2, AddVoteAccepted)
        \<and> MostVotedPrecommitHash (VoteSummary (VRV (Voting (KS w2)))) = ''b''
        \<and> read0 (PrecommitBlockPower (VoteSummary (VRV (Voting (KS w2))))) ''b'' = 30
        \<and> ByzantineMajority (AvailablePower (VoteSummary (VRV (Voting (KS w2))))) = 27
        \<and> ProposedBlocks (VRV (Voting (KS w2))) = []
        \<and> Height (VRV (Voting (KS w2))) = 1
        \<and> InFlightFetchPBs (KS w2) ''b'' = None
        \<and> (\<exists>w'. addPrecommit ex_kernel ex_precommit_b ex_start = Inr w'
               \<and> Voting (KS w') = Voting (KS w2)
               \<and> InFlightFetchPBs (KS w') ''b'' = Some (CancelFunc 1 ''b'')
               \<and> last (Effects w') = LogWarn ''Ready to commit block, but block is not yet available; stuck in this voting round until the block is fetched'')"
    by blast
  from m p q a f s B show ?thesis by blast
qed

text \<open>
  C4 as stated fails when the channel of fetch requests is full: the precommits of three
  validators for \<open>b\<close> are installed on the start world and reach the majority (power 30,
  majority 27), there is no proposed block, the request for \<open>b\<close> is not sent, and the
  kernel stays in round 0 of height 1 and logs that it is stuck with no fetch in flight.
\<close>

theorem stuck_without_fetch_counterexample:
  "(case addPrecommit ex_full_kernel ex_precommit_b ex_start of
       Inl p \<Rightarrow> False
     | Inr w' \<Rightarrow>
         InFlightFetchPBs (KS w') ''b'' = None
       \<and> MostVotedPrecommitHash (VoteSummary (VRV (Voting (KS w')))) = ''b''
       \<and> read0 (PrecommitBlockPower (VoteSummary (VRV (Voting (KS w'))))) ''b'' = 30
       \<and> ByzantineMajority (AvailablePower (VoteSummary (VRV (Voting (KS w'))))) = 27
       \<and> ProposedBlocks (VRV (Voting (KS w'))) = []
       \<and> Height (VRV (Voting (KS w'))) = 1 \<and> Round (VRV (Voting (KS w'))) = 0
       \<and> Effects w' =
           [OverwritePrecommitProofs 1 0
              (Some [([], signed_by []), (''b'', signed_by [0, 1, 2])]),
            Reply 0 AddVoteAccepted,
            LogWarn ''Blocked sending fetch request; kernel may deadlock if this block reaches consensus'',
            LogWarn ''Ready to commit block, but block is not yet available; stuck in this voting round until the block is fetched''])"
  by (simp add: ex_defs run_defs spec_defs Let_def)

end
